(* ===== verification/Mux_Prelude.thy ===== *)
theory Mux_Prelude
  imports Main "HOL-Library.AList" "HOL-Library.Monad_Syntax"
begin

text \<open>
  Shared vocabulary of the development.

  \<^item> A JavaScript \<^verbatim>\<open>Map\<close> iterates in insertion order and keeps the position of a key that is
    set again; \<open>AList.update\<close> and \<open>AList.delete\<close> on association lists behave exactly so, and
    \<open>map_of\<close> is \<^verbatim>\<open>Map.get\<close>.  A JavaScript \<^verbatim>\<open>Set\<close> is a list without repetitions to which a
    new element is appended (\<open>set_add\<close>) and from which an element is removed (\<open>set_delete\<close>).
  \<^item> A timer armed with \<^verbatim>\<open>setTimeout\<close> is a pair of its handle and its due time; \<open>node_delay\<close> is
    the clamping of the delay that Node.js documents for \<^verbatim>\<open>setTimeout\<close>.
  \<^item> The collections \<open>mux_simps\<close> and \<open>mux_defs\<close> gather the rewrite rules the component
    theories share.
\<close>

named_theorems mux_simps \<open>rewrite rules about the containers of the model\<close>

named_theorems mux_defs \<open>unfolding of small helper definitions\<close>

section \<open>JavaScript Map: insertion-ordered association lists\<close>

type_synonym ('k, 'v) jsmap = "('k \<times> 'v) list"

abbreviation map_keys :: "('k, 'v) jsmap \<Rightarrow> 'k list" where
  "map_keys m \<equiv> map fst m"

abbreviation map_values :: "('k, 'v) jsmap \<Rightarrow> 'v list" where
  "map_values m \<equiv> map snd m"

abbreviation map_has :: "('k, 'v) jsmap \<Rightarrow> 'k \<Rightarrow> bool" where
  "map_has m k \<equiv> map_of m k \<noteq> None"

definition wf_map :: "('k, 'v) jsmap \<Rightarrow> bool" where
  "wf_map m \<longleftrightarrow> distinct (map_keys m)"

lemma wf_map_Nil [simp]: "wf_map []"
  by (simp add: wf_map_def)

lemma wf_map_update [simp]: "wf_map m \<Longrightarrow> wf_map (AList.update k v m)"
  by (simp add: wf_map_def distinct_update)

lemma wf_map_delete [simp]: "wf_map m \<Longrightarrow> wf_map (AList.delete k m)"
  by (simp add: wf_map_def distinct_delete)

lemma wf_map_filter [simp]: "wf_map m \<Longrightarrow> wf_map (filter P m)"
  by (induction m) (auto simp: wf_map_def)

lemma wf_map_Cons [simp]: "wf_map ((k, v) # m) \<longleftrightarrow> k \<notin> set (map_keys m) \<and> wf_map m"
  by (simp add: wf_map_def)

lemma map_of_update [simp, mux_simps]:
  "map_of (AList.update k v m) k' = (if k' = k then Some v else map_of m k')"
  by (simp add: update_conv')

lemma map_of_delete [simp, mux_simps]:
  "map_of (AList.delete k m) k' = (if k' = k then None else map_of m k')"
  by (simp add: delete_conv')

lemma set_keys_update [simp, mux_simps]:
  "set (map_keys (AList.update k v m)) = insert k (set (map_keys m))"
  by (induction m) auto

lemma set_keys_delete [simp, mux_simps]:
  "set (map_keys (AList.delete k m)) = set (map_keys m) - {k}"
  by (induction m) auto

lemma update_fresh: "k \<notin> set (map_keys m) \<Longrightarrow> AList.update k v m = m @ [(k, v)]"
  by (induction m) auto

lemma delete_snoc_fresh:
  "k \<notin> set (map_keys m) \<Longrightarrow> AList.delete k (m @ [(k, v)]) = m"
  by (induction m) (auto simp: AList.delete_eq)

lemma delete_fresh: "k \<notin> set (map_keys m) \<Longrightarrow> AList.delete k m = m"
  by (induction m) (auto simp: AList.delete_eq)

lemma delete_filter: "AList.delete k m = filter (\<lambda>p. fst p \<noteq> k) m"
  by (induction m) (auto simp: AList.delete_eq)

lemma map_of_None_keys: "map_of m k = None \<longleftrightarrow> k \<notin> set (map_keys m)"
  by (simp add: map_of_eq_None_iff)

lemma map_of_wf_iff: "wf_map m \<Longrightarrow> map_of m k = Some v \<longleftrightarrow> (k, v) \<in> set m"
  by (simp add: wf_map_def)

lemma map_has_keys: "map_has m k \<longleftrightarrow> k \<in> set (map_keys m)"
  by (metis map_of_None_keys)

lemma map_of_filter_wf:
  "wf_map m \<Longrightarrow> map_of (filter P m) k =
     (case map_of m k of None \<Rightarrow> None | Some v \<Rightarrow> if P (k, v) then Some v else None)"
proof (induction m)
  case Nil
  show ?case by simp
next
  case (Cons p m)
  obtain a b where p: "p = (a, b)" by (cases p)
  with Cons.prems have "map_of m a = None" by (auto simp: map_of_None_keys)
  with Cons p show ?case by (cases "k = a") (auto simp: p)
qed

lemma map_of_filter_key:
  "wf_map m \<Longrightarrow> (case map_of m k of None \<Rightarrow> [] | Some v \<Rightarrow> [v]) = map snd (filter (\<lambda>p. fst p = k) m)"
proof (induction m)
  case (Cons p m)
  obtain a b where p: "p = (a, b)" by (cases p)
  with Cons.prems have "filter (\<lambda>q. fst q = a) m = []" by (auto simp: filter_empty_conv)
  with Cons p show ?case by (cases "k = a") auto
qed simp

section \<open>JavaScript Set: insertion-ordered lists without repetition\<close>

type_synonym 'a jsset = "'a list"

definition set_add :: "'a \<Rightarrow> 'a jsset \<Rightarrow> 'a jsset" where
  "set_add x s = (if x \<in> set s then s else s @ [x])"

definition set_delete :: "'a \<Rightarrow> 'a jsset \<Rightarrow> 'a jsset" where
  "set_delete x s = filter (\<lambda>y. y \<noteq> x) s"

lemma set_set_add [simp, mux_simps]: "set (set_add x s) = insert x (set s)"
  by (auto simp: set_add_def)

lemma set_set_delete [simp, mux_simps]: "set (set_delete x s) = set s - {x}"
  by (auto simp: set_delete_def)

lemma distinct_set_add [simp]: "distinct (set_add x s) \<longleftrightarrow> distinct s"
  by (auto simp: set_add_def)

lemma distinct_set_delete [simp]: "distinct s \<Longrightarrow> distinct (set_delete x s)"
  by (simp add: set_delete_def)

lemma set_add_not_Nil [simp]: "set_add x s \<noteq> []"
  by (auto simp: set_add_def)

lemma set_delete_notin: "x \<notin> set s \<Longrightarrow> set_delete x s = s"
  by (induction s) (auto simp: set_delete_def)

section \<open>Timers\<close>

text \<open>Node.js: a delay below 1 or above 2147483647 (or not a number) is replaced by 1 ms.\<close>

definition node_delay :: "int \<Rightarrow> int" where
  "node_delay d = (if d < 1 \<or> d > 2147483647 then 1 else d)"

lemma node_delay_pos [simp]: "0 < node_delay d"
  by (simp add: node_delay_def)

lemma node_delay_bound [simp]: "node_delay d \<le> 2147483647"
  by (simp add: node_delay_def)

lemma node_delay_id: "1 \<le> d \<Longrightarrow> d \<le> 2147483647 \<Longrightarrow> node_delay d = d"
  by (simp add: node_delay_def)

section \<open>Lists\<close>

lemma filter_partition_set:
  "set xs = set (filter P xs) \<union> set (filter (\<lambda>x. \<not> P x) xs)"
  by auto

lemma sorted_snoc_less:
  "sorted_wrt (<) xs \<Longrightarrow> (\<And>x. x \<in> set xs \<Longrightarrow> x < y) \<Longrightarrow> sorted_wrt (<) (xs @ [y])"
  for y :: "'a :: linorder"
  by (simp add: sorted_wrt_append)

lemma take_drop_append_length [simp]: "drop (length xs) (xs @ ys) = ys"
  by simp

end
