(* ===== verification/Js_Value.thy ===== *)
theory Js_Value
  imports Mux_Prelude Complex_Main "HOL-Library.Char_ord"
begin

text \<open>
  JavaScript values as the program handles them: the values \<^verbatim>\<open>JSON.parse\<close> can return, and
  \<^verbatim>\<open>undefined\<close>.  A string is the list of the bytes of its UTF-8 encoding, so \<^verbatim>\<open>Buffer.from(s, "utf8")\<close>
  and \<^verbatim>\<open>toString("utf8")\<close> are the identity on well-formed text.  A finite number is a rational; the
  program only compares numbers, adds to counters and tests them for being integers, which is
  exact in this representation, while the rounding of other arithmetic is not modelled.  An
  object is its list of own enumerable properties in insertion order (the program uses no key that
  reads as an array index, which the language would order first).

  Property access follows the language: \<open>jget v k\<close> is the value of \<^verbatim>\<open>v?.k\<close>;
  \<open>has_own\<close> is \<^verbatim>\<open>Object.prototype.hasOwnProperty.call\<close>, \<open>truthy\<close> the conversion to boolean and
  \<open>jput\<close> the assignment \<^verbatim>\<open>v.k = w\<close> to an object.
\<close>

datatype jsnum = Fin rat | NaN | Infinity bool

datatype js =
    Undefined
  | Null
  | Bool bool
  | Num jsnum
  | Str string
  | Arr "js list"
  | Obj "(string \<times> js) list"

section \<open>Property access\<close>

fun jget :: "js \<Rightarrow> string \<Rightarrow> js" where
  "jget (Obj ps) k = (case map_of ps k of None \<Rightarrow> Undefined | Some v \<Rightarrow> v)"
| "jget _ k = Undefined"

fun has_own :: "js \<Rightarrow> string \<Rightarrow> bool" where
  "has_own (Obj ps) k = map_has ps k"
| "has_own _ k = False"

fun jput :: "js \<Rightarrow> string \<Rightarrow> js \<Rightarrow> js" where
  "jput (Obj ps) k v = Obj (AList.update k v ps)"
| "jput w k v = w"

fun own_keys :: "js \<Rightarrow> string list" where
  "own_keys (Obj ps) = map_keys ps"
| "own_keys _ = []"

text \<open>\<^verbatim>\<open>{...v, ...w}\<close>: the properties of \<open>w\<close> are written over those of \<open>v\<close>.\<close>

fun spread :: "js \<Rightarrow> js \<Rightarrow> js" where
  "spread v (Obj qs) = foldl (\<lambda>w p. jput w (fst p) (snd p)) v qs"
| "spread v _ = v"

abbreviation int_num :: "int \<Rightarrow> js" where
  "int_num i \<equiv> Num (Fin (of_int i))"

fun truthy :: "js \<Rightarrow> bool" where
  "truthy Undefined = False"
| "truthy Null = False"
| "truthy (Bool b) = b"
| "truthy (Num (Fin q)) = (q \<noteq> 0)"
| "truthy (Num NaN) = False"
| "truthy (Num (Infinity b)) = True"
| "truthy (Str s) = (s \<noteq> [])"
| "truthy (Arr xs) = True"
| "truthy (Obj ps) = True"

text \<open>\<^verbatim>\<open>a ?? b\<close>\<close>

fun nullish :: "js \<Rightarrow> js \<Rightarrow> js" where
  "nullish Undefined w = w"
| "nullish Null w = w"
| "nullish v w = v"

section \<open>Type tests of the language\<close>

fun is_object :: "js \<Rightarrow> bool" where
  \<comment> \<open>\<^verbatim>\<open>typeof v === "object" && v !== null\<close>: arrays included\<close>
  "is_object (Obj ps) = True"
| "is_object (Arr xs) = True"
| "is_object _ = False"

fun is_integer_num :: "jsnum \<Rightarrow> bool" where
  "is_integer_num (Fin q) = (q = of_int \<lfloor>q\<rfloor>)"
| "is_integer_num _ = False"

abbreviation max_safe_integer :: int where
  "max_safe_integer \<equiv> 9007199254740991"

text \<open>\<^verbatim>\<open>Number.isSafeInteger(v) ? v : null\<close>\<close>

fun safe_integer :: "js \<Rightarrow> int option" where
  "safe_integer (Num (Fin q)) =
     (if q = of_int \<lfloor>q\<rfloor> \<and> \<bar>\<lfloor>q\<rfloor>\<bar> \<le> max_safe_integer then Some \<lfloor>q\<rfloor> else None)"
| "safe_integer _ = None"

text \<open>An integer key of a map keyed by numbers; no other number is ever a key.\<close>

fun num_key :: "jsnum \<Rightarrow> int option" where
  "num_key (Fin q) = (if q = of_int \<lfloor>q\<rfloor> then Some \<lfloor>q\<rfloor> else None)"
| "num_key _ = None"

lemma num_key_int [simp]: "num_key (Fin (of_int i)) = Some i"
  by simp

lemma safe_integer_int [simp]:
  "safe_integer (int_num i) = (if \<bar>i\<bar> \<le> max_safe_integer then Some i else None)"
  by simp

lemma safe_integer_SomeD:
  "safe_integer v = Some i \<Longrightarrow> v = int_num i \<and> \<bar>i\<bar> \<le> max_safe_integer"
  by (cases v rule: safe_integer.cases) (auto split: if_splits)

section \<open>Laws of property access\<close>

fun is_obj :: "js \<Rightarrow> bool" where
  "is_obj (Obj ps) = True"
| "is_obj _ = False"

lemma jget_jput [simp, mux_simps]:
  "is_obj v \<Longrightarrow> jget (jput v k w) k' = (if k' = k then w else jget v k')"
  by (cases v) auto

lemma has_own_jput [simp, mux_simps]:
  "is_obj v \<Longrightarrow> has_own (jput v k w) k' \<longleftrightarrow> k' = k \<or> has_own v k'"
  by (cases v) auto

lemma is_obj_jput [simp, mux_simps]: "is_obj (jput v k w) = is_obj v"
  by (cases v) auto

lemma has_own_is_obj: "has_own v k \<Longrightarrow> is_obj v"
  by (cases v) auto

lemma truthy_is_obj [simp]: "is_obj v \<Longrightarrow> truthy v"
  by (cases v) auto

lemma jget_truthy_is_obj: "truthy (jget v k) \<Longrightarrow> is_obj v"
  by (cases v) auto

lemma jget_neq_Undefined_is_obj: "jget v k \<noteq> Undefined \<Longrightarrow> is_obj v"
  by (cases v) auto

lemma jput_jput_same [simp]: "jput (jput v k w) k w' = jput v k w'"
proof (cases v)
  case (Obj ps)
  have "AList.update k w' (AList.update k w ps) = AList.update k w' ps"
    by (induction ps) auto
  with Obj show ?thesis by simp
qed auto

lemma jput_same [simp]: "has_own v k \<Longrightarrow> jput v k (jget v k) = v"
proof (cases v)
  case (Obj ps)
  assume "has_own v k"
  with Obj have "map_of ps k = Some (jget v k)" by (auto split: option.splits)
  then have "AList.update k (jget v k) ps = ps"
    by (induction ps) (auto split: if_splits)
  with Obj show ?thesis by simp
qed auto

section \<open>Well-formed JSON values\<close>

text \<open>
  \<open>wf_json v\<close>: \<open>v\<close> is a value of \<^verbatim>\<open>JSON.parse\<close>, that is, it contains no \<^verbatim>\<open>undefined\<close>, its numbers
  are finite decimals and its objects have distinct keys.
\<close>

definition dec_places :: "nat \<Rightarrow> nat option" where
  "dec_places d = find (\<lambda>k. d dvd 10 ^ k) [0..<Suc d]"

definition wf_rat :: "rat \<Rightarrow> bool" where
  "wf_rat q \<longleftrightarrow> dec_places (nat (snd (quotient_of q))) \<noteq> None"

fun wf_json :: "js \<Rightarrow> bool" where
  "wf_json Undefined = False"
| "wf_json Null = True"
| "wf_json (Bool b) = True"
| "wf_json (Num (Fin q)) = wf_rat q"
| "wf_json (Num _) = False"
| "wf_json (Str s) = True"
| "wf_json (Arr xs) = list_all wf_json xs"
| "wf_json (Obj ps) = (distinct (map fst ps) \<and> list_all (\<lambda>p. wf_json (snd p)) ps)"

lemma wf_rat_int [simp]: "wf_rat (of_int i)"
  by (simp add: wf_rat_def dec_places_def)

lemma wf_json_int [simp]: "wf_json (int_num i)"
  by simp

lemma wf_json_jget: "wf_json v \<Longrightarrow> has_own v k \<Longrightarrow> wf_json (jget v k)"
  by (cases v) (auto simp: list_all_iff dest!: map_of_SomeD)

lemma wf_json_jput: "wf_json v \<Longrightarrow> wf_json w \<Longrightarrow> wf_json (jput v k w)"
proof (cases v)
  case (Obj ps)
  assume v: "wf_json v" and w: "wf_json w"
  have "set (AList.update k w ps) \<subseteq> insert (k, w) (set ps)"
    by (induction ps) auto
  with Obj v w show ?thesis
    by (auto simp: list_all_iff distinct_update)
qed auto

end
