(* ===== verification/Js_Json.thy ===== *)
theory Js_Json
  imports Js_Value
begin

text \<open>
  \<^verbatim>\<open>JSON.stringify\<close> and \<^verbatim>\<open>JSON.parse\<close>, the codec every message of the program passes through.
  The printer writes no white space, drops the properties whose value is \<^verbatim>\<open>undefined\<close>, prints
  \<^verbatim>\<open>undefined\<close> inside an array and the numbers that are not finite as \<^verbatim>\<open>null\<close>, and escapes
  strings as the standard does.  Numbers are printed in positional notation (the exponent
  notation JavaScript switches to from $10^{21}$ on is not used).  The parser is the
  recursive-descent parser of RFC 8259 with the white space of the standard; a repeated key keeps
  its first position and its last value.  It is driven by a fuel that \<open>json_parse\<close> sets to
  twice the length of the text plus one: \<open>parse_value_fuel\<close> shows that more fuel never
  changes the result.  \<open>json_roundtrip\<close> is the law the components rely on.
\<close>

section \<open>Printing\<close>

definition digit_char :: "nat \<Rightarrow> char" where
  "digit_char d = char_of (48 + d)"

fun show_nat :: "nat \<Rightarrow> string" where
  "show_nat n = (if n < 10 then [digit_char n] else show_nat (n div 10) @ [digit_char (n mod 10)])"

declare show_nat.simps [simp del]

definition show_frac :: "nat \<Rightarrow> nat \<Rightarrow> string" where
  "show_frac m k =
     (let ds = show_nat m; pd = replicate (Suc k - length ds) (CHR ''0'') @ ds; i = length pd - k
      in take i pd @ CHR ''.'' # drop i pd)"

definition show_rat :: "rat \<Rightarrow> string" where
  "show_rat q =
     (let n = fst (quotient_of q); d = nat (snd (quotient_of q)); m = nat \<bar>n\<bar>
      in (if n < 0 then ''-'' else []) @
         (case dec_places d of
            None \<Rightarrow> ''null''
          | Some k \<Rightarrow> if k = 0 then show_nat m else show_frac (m * (10 ^ k div d)) k))"

definition hex_digit :: "nat \<Rightarrow> char" where
  "hex_digit d = (if d < 10 then char_of (48 + d) else char_of (87 + d))"

definition escape_char :: "char \<Rightarrow> string" where
  "escape_char c =
     (let n = (of_char c :: nat) in
      if n = 34 then [CHR 0x5C, CHR 0x22]
      else if n = 92 then [CHR 0x5C, CHR 0x5C]
      else if n = 8 then [CHR 0x5C, CHR ''b'']
      else if n = 12 then [CHR 0x5C, CHR ''f'']
      else if n = 10 then [CHR 0x5C, CHR ''n'']
      else if n = 13 then [CHR 0x5C, CHR ''r'']
      else if n = 9 then [CHR 0x5C, CHR ''t'']
      else if n < 32 then [CHR 0x5C, CHR ''u'', CHR ''0'', CHR ''0'', hex_digit (n div 16), hex_digit (n mod 16)]
      else [c])"

definition show_string :: "string \<Rightarrow> string" where
  "show_string s = CHR 0x22 # concat (map escape_char s) @ [CHR 0x22]"

fun commas :: "string list \<Rightarrow> string" where
  "commas [] = []"
| "commas [x] = x"
| "commas (x # y # zs) = x @ CHR '','' # commas (y # zs)"

lemma size_member: "(k, v) \<in> set ps \<Longrightarrow> size v < Suc (size_list (size_prod (\<lambda>_. 0) size) ps)"
  by (induction ps) auto

function show_js :: "js \<Rightarrow> string" where
  "show_js Undefined = ''null''"
| "show_js Null = ''null''"
| "show_js (Bool b) = (if b then ''true'' else ''false'')"
| "show_js (Num (Fin q)) = show_rat q"
| "show_js (Num NaN) = ''null''"
| "show_js (Num (Infinity b)) = ''null''"
| "show_js (Str s) = show_string s"
| "show_js (Arr xs) = CHR ''['' # commas (map show_js xs) @ '']''"
| "show_js (Obj ps) = CHR ''{'' # commas (map (\<lambda>p. show_string (fst p) @ CHR '':'' # show_js (snd p))
     (filter (\<lambda>p. snd p \<noteq> Undefined) ps)) @ ''}''"
  by pat_completeness auto
termination
proof (relation "measure size", goal_cases)
  case 1
  show ?case by simp
next
  case (2 xs x)
  then show ?case by (induction xs) auto
next
  case (3 ps p)
  then have "(fst p, snd p) \<in> set ps" by simp
  from size_member [OF this] show ?case by simp
qed

definition json_stringify :: "js \<Rightarrow> string option" where
  "json_stringify v = (if v = Undefined then None else Some (show_js v))"

section \<open>Parsing\<close>

definition is_digit :: "char \<Rightarrow> bool" where
  "is_digit c \<longleftrightarrow> 48 \<le> (of_char c :: nat) \<and> (of_char c :: nat) \<le> 57"

definition digits_val :: "string \<Rightarrow> nat" where
  "digits_val ds = foldl (\<lambda>a c. 10 * a + (of_char c - 48)) 0 ds"

definition is_ws :: "char \<Rightarrow> bool" where
  "is_ws c \<longleftrightarrow> (of_char c :: nat) \<in> {32, 9, 10, 13}"

definition skip_ws :: "string \<Rightarrow> string" where
  "skip_ws s = dropWhile is_ws s"

definition parse_exp :: "string \<Rightarrow> (int \<times> string) option" where
  "parse_exp s =
     (case s of
        [] \<Rightarrow> Some (0, s)
      | c # r \<Rightarrow>
          if c = CHR ''e'' \<or> c = CHR ''E'' then
            let (sg, r1) = (case r of [] \<Rightarrow> (1, r) | d # r' \<Rightarrow>
                              if d = CHR ''-'' then (-1, r') else if d = CHR ''+'' then (1, r') else (1, r));
                ds = takeWhile is_digit r1
            in if ds = [] then None else Some (sg * int (digits_val ds), dropWhile is_digit r1)
          else Some (0, s))"

definition parse_frac :: "string \<Rightarrow> (string \<times> string) option" where
  "parse_frac s =
     (case s of
        [] \<Rightarrow> Some ([], s)
      | c # r \<Rightarrow>
          if c = CHR ''.'' then
            let ds = takeWhile is_digit r in if ds = [] then None else Some (ds, dropWhile is_digit r)
          else Some ([], s))"

definition parse_unsigned :: "string \<Rightarrow> (rat \<times> string) option" where
  "parse_unsigned s =
     (let ip = takeWhile is_digit s in
      if ip = [] \<or> (1 < length ip \<and> hd ip = CHR ''0'') then None
      else case parse_frac (dropWhile is_digit s) of
             None \<Rightarrow> None
           | Some (fp, r) \<Rightarrow>
               (case parse_exp r of
                  None \<Rightarrow> None
                | Some (e, r') \<Rightarrow>
                    Some (of_nat (digits_val (ip @ fp)) / 10 ^ length fp *
                          (if 0 \<le> e then 10 ^ nat e else 1 / 10 ^ nat (- e)), r')))"

definition parse_number :: "string \<Rightarrow> (rat \<times> string) option" where
  "parse_number s =
     (case s of
        [] \<Rightarrow> None
      | c # r \<Rightarrow>
          if c = CHR ''-'' then map_option (\<lambda>(q, r'). (- q, r')) (parse_unsigned r)
          else parse_unsigned s)"

definition hex_val :: "char \<Rightarrow> nat option" where
  "hex_val c =
     (let n = (of_char c :: nat) in
      if 48 \<le> n \<and> n \<le> 57 then Some (n - 48)
      else if 97 \<le> n \<and> n \<le> 102 then Some (n - 87)
      else if 65 \<le> n \<and> n \<le> 70 then Some (n - 55)
      else None)"

definition hex4 :: "string \<Rightarrow> (nat \<times> string) option" where
  "hex4 s =
     (case s of
        a # b # c # d # r \<Rightarrow>
          (case (hex_val a, hex_val b, hex_val c, hex_val d) of
             (Some w, Some x, Some y, Some z) \<Rightarrow> Some (((w * 16 + x) * 16 + y) * 16 + z, r)
           | _ \<Rightarrow> None)
      | _ \<Rightarrow> None)"

text \<open>The UTF-8 bytes of a code point.\<close>

definition utf8_encode :: "nat \<Rightarrow> string" where
  "utf8_encode n =
     (if n < 128 then [char_of n]
      else if n < 2048 then [char_of (192 + n div 64), char_of (128 + n mod 64)]
      else if n < 65536 then
        [char_of (224 + n div 4096), char_of (128 + n div 64 mod 64), char_of (128 + n mod 64)]
      else [char_of (240 + n div 262144), char_of (128 + n div 4096 mod 64),
            char_of (128 + n div 64 mod 64), char_of (128 + n mod 64)])"

text \<open>A low surrogate escape that follows a high one.\<close>

definition low_surrogate :: "string \<Rightarrow> (nat \<times> string) option" where
  "low_surrogate s =
     (case s of
        a # b # r \<Rightarrow>
          if a = CHR 0x5C \<and> b = CHR ''u'' then
            (case hex4 r of
               Some (l, r') \<Rightarrow> if 56320 \<le> l \<and> l \<le> 57343 then Some (l, r') else None
             | None \<Rightarrow> None)
          else None
      | _ \<Rightarrow> None)"

definition unescape :: "char \<Rightarrow> char option" where
  "unescape e =
     (if e = CHR 0x22 \<or> e = CHR 0x5C \<or> e = CHR ''/'' then Some e
      else if e = CHR ''b'' then Some (CHR 0x08)
      else if e = CHR ''f'' then Some (CHR 0x0C)
      else if e = CHR ''n'' then Some (CHR 0x0A)
      else if e = CHR ''r'' then Some (CHR 0x0D)
      else if e = CHR ''t'' then Some (CHR 0x09)
      else None)"

lemma hex4_length: "hex4 s = Some (u, r) \<Longrightarrow> length r < length s"
  by (auto simp: hex4_def split: list.splits option.splits)

lemma low_surrogate_length: "low_surrogate s = Some (l, r) \<Longrightarrow> length r < length s"
  by (auto simp: low_surrogate_def split: list.splits option.splits if_splits dest!: hex4_length)

function parse_str :: "string \<Rightarrow> (string \<times> string) option" where
  "parse_str s =
     (case s of
        [] \<Rightarrow> None
      | c # r \<Rightarrow>
          if c = CHR 0x22 then Some ([], r)
          else if c = CHR 0x5C then
            (case r of
               [] \<Rightarrow> None
             | e # r1 \<Rightarrow>
                 if e = CHR ''u'' then
                   (case hex4 r1 of
                      None \<Rightarrow> None
                    | Some (u, r2) \<Rightarrow>
                        (case (if 55296 \<le> u \<and> u \<le> 56319 then low_surrogate r2 else None) of
                           None \<Rightarrow> map_option (\<lambda>(t, r'). (utf8_encode u @ t, r')) (parse_str r2)
                         | Some (l, r3) \<Rightarrow>
                             map_option (\<lambda>(t, r'). (utf8_encode (65536 + (u - 55296) * 1024 + (l - 56320)) @ t, r'))
                               (parse_str r3)))
                 else
                   (case unescape e of
                      None \<Rightarrow> None
                    | Some d \<Rightarrow> map_option (\<lambda>(t, r'). (d # t, r')) (parse_str r1)))
          else if (of_char c :: nat) < 32 then None
          else map_option (\<lambda>(t, r'). (c # t, r')) (parse_str r))"
  by pat_completeness auto
termination
  by (relation "measure length")
     (auto dest!: hex4_length low_surrogate_length split: if_splits)

declare parse_str.simps [simp del]

definition obj_of :: "(string \<times> js) list \<Rightarrow> js" where
  "obj_of ps = Obj (foldl (\<lambda>m p. AList.update (fst p) (snd p) m) [] ps)"

definition parse_lit :: "string \<Rightarrow> js \<Rightarrow> string \<Rightarrow> (js \<times> string) option" where
  "parse_lit l v s = (if take (length l) s = l then Some (v, drop (length l) s) else None)"

fun parse_value :: "nat \<Rightarrow> string \<Rightarrow> (js \<times> string) option"
  and parse_elems :: "nat \<Rightarrow> string \<Rightarrow> (js list \<times> string) option"
  and parse_members :: "nat \<Rightarrow> string \<Rightarrow> ((string \<times> js) list \<times> string) option" where
  "parse_value 0 s = None"
| "parse_value (Suc n) s =
     (case skip_ws s of
        [] \<Rightarrow> None
      | c # r \<Rightarrow>
          if c = CHR 0x22 then map_option (\<lambda>(t, r'). (Str t, r')) (parse_str r)
          else if c = CHR ''['' then
            (case skip_ws r of
               [] \<Rightarrow> None
             | d # r1 \<Rightarrow> if d = CHR '']'' then Some (Arr [], r1)
                          else map_option (\<lambda>(xs, r'). (Arr xs, r')) (parse_elems n r))
          else if c = CHR ''{'' then
            (case skip_ws r of
               [] \<Rightarrow> None
             | d # r1 \<Rightarrow> if d = CHR ''}'' then Some (Obj [], r1)
                          else map_option (\<lambda>(ps, r'). (obj_of ps, r')) (parse_members n r))
          else if c = CHR ''t'' then parse_lit ''true'' (Bool True) (c # r)
          else if c = CHR ''f'' then parse_lit ''false'' (Bool False) (c # r)
          else if c = CHR ''n'' then parse_lit ''null'' Null (c # r)
          else map_option (\<lambda>(q, r'). (Num (Fin q), r')) (parse_number (c # r)))"
| "parse_elems 0 s = None"
| "parse_elems (Suc n) s =
     (case parse_value n s of
        None \<Rightarrow> None
      | Some (v, r) \<Rightarrow>
          (case skip_ws r of
             [] \<Rightarrow> None
           | c # r1 \<Rightarrow>
               if c = CHR '','' then map_option (\<lambda>(vs, r'). (v # vs, r')) (parse_elems n r1)
               else if c = CHR '']'' then Some ([v], r1)
               else None))"
| "parse_members 0 s = None"
| "parse_members (Suc n) s =
     (case skip_ws s of
        [] \<Rightarrow> None
      | q # t \<Rightarrow>
          if q \<noteq> CHR 0x22 then None
          else (case parse_str t of
                  None \<Rightarrow> None
                | Some (k, r) \<Rightarrow>
                    (case skip_ws r of
                       [] \<Rightarrow> None
                     | c # r1 \<Rightarrow>
                         if c \<noteq> CHR '':'' then None
                         else (case parse_value n r1 of
                                 None \<Rightarrow> None
                               | Some (v, r2) \<Rightarrow>
                                   (case skip_ws r2 of
                                      [] \<Rightarrow> None
                                    | d # r3 \<Rightarrow>
                                        if d = CHR '','' then
                                          map_option (\<lambda>(ps, r'). ((k, v) # ps, r')) (parse_members n r3)
                                        else if d = CHR ''}'' then Some ([(k, v)], r3)
                                        else None)))))"

definition json_parse :: "string \<Rightarrow> js option" where
  "json_parse s =
     (case parse_value (2 * length s + 1) s of
        None \<Rightarrow> None
      | Some (v, r) \<Rightarrow> if skip_ws r = [] then Some v else None)"

section \<open>Numbers\<close>

lemma of_char_digit_char [simp]: "d < 10 \<Longrightarrow> (of_char (digit_char d) :: nat) = 48 + d"
  by (simp add: digit_char_def)

lemma is_digit_digit_char [simp]: "d < 10 \<Longrightarrow> is_digit (digit_char d)"
  by (simp add: is_digit_def)

lemma show_nat_digits: "list_all is_digit (show_nat n)"
proof (induction n rule: show_nat.induct)
  case (1 n)
  then show ?case by (subst show_nat.simps) auto
qed

lemma show_nat_not_Nil [simp]: "show_nat n \<noteq> []"
  by (subst show_nat.simps) simp

lemma digits_val_snoc: "digits_val (ds @ [c]) = 10 * digits_val ds + (of_char c - 48)"
  by (simp add: digits_val_def)

lemma digits_val_show_nat: "digits_val (show_nat n) = n"
proof (induction n rule: show_nat.induct)
  case (1 n)
  show ?case
  proof (cases "n < 10")
    case True
    then show ?thesis by (subst show_nat.simps) (simp add: digits_val_def)
  next
    case False
    with 1 show ?thesis by (subst show_nat.simps) (simp add: digits_val_snoc)
  qed
qed

lemma digit_char_eq_0: "d < 10 \<Longrightarrow> digit_char d = CHR ''0'' \<longleftrightarrow> d = 0"
  using of_char_eq_iff [where 'a = nat, of "digit_char d" "CHR ''0''"] by simp

lemma show_nat_hd: "0 < n \<Longrightarrow> hd (show_nat n) \<noteq> CHR ''0''"
proof (induction n rule: show_nat.induct)
  case (1 n)
  show ?case
  proof (cases "n < 10")
    case True
    with 1 show ?thesis by (subst show_nat.simps) (simp add: digit_char_eq_0)
  next
    case False
    then have "0 < n div 10" by (simp add: div_greater_zero_iff)
    with 1 False show ?thesis by (subst show_nat.simps) simp
  qed
qed

lemma show_nat_long: "1 < length (show_nat n) \<Longrightarrow> 0 < n"
  by (subst (asm) show_nat.simps) (auto split: if_splits)

lemma digits_val_pad: "digits_val (replicate i (CHR ''0'') @ ds) = digits_val ds"
proof -
  have "foldl (\<lambda>a c. 10 * a + (of_char c - 48)) 0 (replicate i (CHR ''0'')) = (0 :: nat)"
    by (induction i) auto
  then show ?thesis by (simp add: digits_val_def)
qed

definition num_end :: "string \<Rightarrow> bool" where
  "num_end s \<longleftrightarrow> (case s of [] \<Rightarrow> True | c # r \<Rightarrow>
     \<not> is_digit c \<and> c \<noteq> CHR ''.'' \<and> c \<noteq> CHR ''e'' \<and> c \<noteq> CHR ''E'')"

lemma takeWhile_digits:
  "list_all is_digit ds \<Longrightarrow> (case s of [] \<Rightarrow> True | c # r \<Rightarrow> \<not> is_digit c) \<Longrightarrow>
   takeWhile is_digit (ds @ s) = ds \<and> dropWhile is_digit (ds @ s) = s"
  by (induction ds) (auto split: list.splits)

lemma num_end_not_digit: "num_end s \<Longrightarrow> (case s of [] \<Rightarrow> True | c # r \<Rightarrow> \<not> is_digit c)"
  by (auto simp: num_end_def split: list.splits)

lemma not_digit_point: "\<not> is_digit (CHR ''.'')"
  by (simp add: is_digit_def)

lemma parse_unsigned_int:
  assumes "num_end s"
  shows "parse_unsigned (show_nat n @ s) = Some (of_nat n, s)"
proof -
  have "\<not> (1 < length (show_nat n) \<and> hd (show_nat n) = CHR ''0'')"
    using show_nat_long show_nat_hd by blast
  moreover have "parse_frac s = Some ([], s)" "parse_exp s = Some (0, s)"
    using assms by (auto simp: parse_frac_def parse_exp_def num_end_def split: list.splits)
  ultimately show ?thesis
    using takeWhile_digits [OF show_nat_digits num_end_not_digit [OF assms], of n]
    by (auto simp: parse_unsigned_def digits_val_show_nat)
qed

lemma parse_unsigned_frac:
  assumes s: "num_end s" and k: "0 < k"
  shows "parse_unsigned (show_frac m k @ s) = Some (of_nat m / 10 ^ k, s)"
proof -
  define ds where "ds = show_nat m"
  define pd where "pd = replicate (Suc k - length ds) (CHR ''0'') @ ds"
  define i where "i = length pd - k"
  have len: "length pd = max (Suc k) (length ds)" by (auto simp: pd_def)
  then have i: "0 < i" "length (drop i pd) = k" by (auto simp: i_def)
  have dig: "list_all is_digit pd"
    using show_nat_digits [of m] by (auto simp: pd_def ds_def list_all_iff is_digit_def)
  then have digs: "list_all is_digit (take i pd)" "list_all is_digit (drop i pd)"
    by (auto simp: list_all_iff dest: in_set_takeD in_set_dropD)
  have nz: "\<not> (1 < length (take i pd) \<and> hd (take i pd) = CHR ''0'')"
  proof
    assume a: "1 < length (take i pd) \<and> hd (take i pd) = CHR ''0''"
    then have "Suc k < length pd" by (auto simp: i_def)
    then have "pd = ds" "1 < length ds" using len by (auto simp: pd_def)
    with a i show False
      using show_nat_hd [OF show_nat_long, of m] by (auto simp: ds_def)
  qed
  have val: "digits_val (take i pd @ drop i pd) = m"
    unfolding append_take_drop_id by (simp add: pd_def digits_val_pad ds_def digits_val_show_nat)
  have eq: "show_frac m k @ s = take i pd @ CHR ''.'' # drop i pd @ s"
    by (simp only: show_frac_def Let_def ds_def [symmetric] pd_def [symmetric] i_def [symmetric]) simp
  have 1: "takeWhile is_digit (show_frac m k @ s) = take i pd"
    "dropWhile is_digit (show_frac m k @ s) = CHR ''.'' # drop i pd @ s"
    using takeWhile_digits [OF digs(1), of "CHR ''.'' # drop i pd @ s"]
    by (simp_all only: eq) (simp_all add: not_digit_point)
  have ne: "take i pd \<noteq> []" "drop i pd \<noteq> []" using i len k by auto
  have 2: "parse_frac (CHR ''.'' # drop i pd @ s) = Some (drop i pd, s)"
    using takeWhile_digits [OF digs(2) num_end_not_digit [OF s]] ne(2)
    by (simp add: parse_frac_def)
  have 3: "parse_exp s = Some (0, s)"
    using s by (auto simp: parse_exp_def num_end_def split: list.splits)
  show ?thesis
    unfolding parse_unsigned_def 1 Let_def 2
    using ne(1) nz i(2) val 3 by auto
qed

lemma quotient_of_parts: "quotient_of q = (n, d) \<Longrightarrow> q = of_int n / of_int d \<and> 0 < d"
  using quotient_of_denom_pos quotient_of_div by blast

lemma dec_places_Some: "dec_places d = Some k \<Longrightarrow> d dvd 10 ^ k"
  unfolding dec_places_def by (auto simp: find_Some_iff simp del: upt_Suc)

lemma parse_number_show_rat:
  assumes q: "wf_rat q" and s: "num_end s"
  shows "parse_number (show_rat q @ s) = Some (q, s)"
proof -
  obtain n d where nd: "quotient_of q = (n, d)" by (cases "quotient_of q")
  from quotient_of_parts [OF nd] have qe: "q = of_int n / of_int d" and d: "0 < d" by auto
  define m where "m = nat \<bar>n\<bar>"
  obtain k where k: "dec_places (nat d) = Some k"
    using q nd by (auto simp: wf_rat_def)
  from dec_places_Some [OF k] have dv: "nat d dvd 10 ^ k" .
  define body where "body = (if k = 0 then show_nat m else show_frac (m * (10 ^ k div nat d)) k)"
  have sr: "show_rat q = (if n < 0 then ''-'' else []) @ body"
    by (simp add: show_rat_def nd k m_def body_def)
  have val: "parse_unsigned (body @ s) = Some (of_nat m / of_int d, s)"
  proof (cases "k = 0")
    case True
    with dv d have "d = 1" by simp
    with True show ?thesis using parse_unsigned_int [OF s, of m] by (simp add: body_def)
  next
    case False
    obtain c where c: "10 ^ k = nat d * c" using dv by (auto elim: dvdE)
    have c': "(10 :: rat) ^ k = of_int d * of_nat c"
      using arg_cong [OF c, of "of_nat :: nat \<Rightarrow> rat"] d by simp
    have "c \<noteq> 0" using c by (metis mult_0_right power_not_zero zero_neq_numeral)
    moreover have "(10 :: nat) ^ k div nat d = c" using c d by simp
    ultimately have "of_nat (m * (10 ^ k div nat d)) / 10 ^ k = (of_nat m / of_int d :: rat)"
      using d by (simp add: c')
    with False show ?thesis using parse_unsigned_frac [OF s, of k "m * (10 ^ k div nat d)"]
      by (simp add: body_def)
  qed
  have hd_body: "body \<noteq> [] \<and> hd body \<noteq> CHR ''-''"
  proof -
    have "body \<noteq> []" by (auto simp: body_def show_frac_def Let_def)
    moreover have "parse_unsigned (CHR ''-'' # t) = None" for t
      by (simp add: parse_unsigned_def is_digit_def)
    ultimately show ?thesis using val by (cases body) auto
  qed
  show ?thesis
  proof (cases "n < 0")
    case True
    then have "- (of_nat m / of_int d) = q" by (simp add: m_def qe)
    with True val show ?thesis by (simp add: sr parse_number_def)
  next
    case False
    then have "of_nat m / of_int d = q" by (simp add: m_def qe)
    with False val hd_body show ?thesis
      by (cases body) (auto simp: sr parse_number_def)
  qed
qed

section \<open>Strings\<close>

lemma hex_val_digit [simp]: "d < 16 \<Longrightarrow> hex_val (hex_digit d) = Some d"
  by (simp add: hex_val_def hex_digit_def Let_def)

lemma parse_str_Nil [simp]: "parse_str [] = None"
  by (simp add: parse_str.simps)

lemma parse_str_quote [simp]: "parse_str (CHR 0x22 # r) = Some ([], r)"
  by (simp add: parse_str.simps)

lemma char_eq_code: "c = d \<longleftrightarrow> (of_char c :: nat) = of_char d"
  by simp

lemma parse_str_control:
  assumes "(of_char c :: nat) = n" and "n < 32"
  shows "parse_str (CHR 0x5C # CHR ''u'' # CHR ''0'' # CHR ''0'' # hex_digit (n div 16) # hex_digit (n mod 16) # t) =
    map_option (\<lambda>(u, r). (c # u, r)) (parse_str t)"
proof -
  have z: "hex_val (CHR ''0'') = Some 0" by (simp add: hex_val_def)
  have h: "hex4 (CHR ''0'' # CHR ''0'' # hex_digit (n div 16) # hex_digit (n mod 16) # t) = Some (n, t)"
    using assms(2) by (simp add: hex4_def z)
  have u: "utf8_encode n = [c]"
    using assms by (simp add: utf8_encode_def flip: assms(1))
  show ?thesis
    by (subst parse_str.simps) (use assms(2) in \<open>simp add: h u\<close>)
qed

lemma parse_str_escape:
  "parse_str (escape_char c @ t) = map_option (\<lambda>(u, r). (c # u, r)) (parse_str t)"
proof -
  define n where "n = (of_char c :: nat)"
  consider "n = 34" | "n = 92" | "n = 8" | "n = 12" | "n = 10" | "n = 13" | "n = 9"
    | "n \<notin> {34, 92, 8, 12, 10, 13, 9}" "n < 32" | "n \<notin> {34, 92, 8, 12, 10, 13, 9}" "32 \<le> n"
    by fastforce
  then show ?thesis
  proof cases
    case 1
    then have "c = CHR 0x22" by (simp add: n_def char_eq_code)
    then show ?thesis by (simp add: escape_char_def) (simp add: parse_str.simps [of "_ # _ # t"] unescape_def)
  next
    case 2
    then have "c = CHR 0x5C" by (simp add: n_def char_eq_code)
    then show ?thesis by (simp add: escape_char_def) (simp add: parse_str.simps [of "_ # _ # t"] unescape_def)
  next
    case 3
    then have "c = CHR 0x08" by (simp add: n_def char_eq_code)
    then show ?thesis by (simp add: escape_char_def) (simp add: parse_str.simps [of "_ # _ # t"] unescape_def)
  next
    case 4
    then have "c = CHR 0x0C" by (simp add: n_def char_eq_code)
    then show ?thesis by (simp add: escape_char_def) (simp add: parse_str.simps [of "_ # _ # t"] unescape_def)
  next
    case 5
    then have "c = CHR 0x0A" by (simp add: n_def char_eq_code)
    then show ?thesis by (simp add: escape_char_def) (simp add: parse_str.simps [of "_ # _ # t"] unescape_def)
  next
    case 6
    then have "c = CHR 0x0D" by (simp add: n_def char_eq_code)
    then show ?thesis by (simp add: escape_char_def) (simp add: parse_str.simps [of "_ # _ # t"] unescape_def)
  next
    case 7
    then have "c = CHR 0x09" by (simp add: n_def char_eq_code)
    then show ?thesis by (simp add: escape_char_def) (simp add: parse_str.simps [of "_ # _ # t"] unescape_def)
  next
    case 8
    then have "escape_char c = [CHR 0x5C, CHR ''u'', CHR ''0'', CHR ''0'', hex_digit (n div 16), hex_digit (n mod 16)]"
      by (simp add: escape_char_def flip: n_def)
    with 8 show ?thesis using parse_str_control [OF n_def [symmetric]] by simp
  next
    case 9
    then have "escape_char c = [c]" "c \<noteq> CHR 0x22" "c \<noteq> CHR 0x5C"
      by (auto simp: escape_char_def n_def)
    with 9 show ?thesis by (simp add: parse_str.simps [of "c # t"] flip: n_def)
  qed
qed

lemma parse_str_show: "parse_str (concat (map escape_char s) @ CHR 0x22 # t) = Some (s, t)"
  by (induction s) (simp_all add: parse_str_escape)

section \<open>Values\<close>

lemma skip_ws_Cons [simp]: "\<not> is_ws c \<Longrightarrow> skip_ws (c # s) = c # s"
  by (simp add: skip_ws_def)

lemma skip_ws_Nil [simp]: "skip_ws [] = []"
  by (simp add: skip_ws_def)

lemma not_ws [simp]:
  "\<not> is_ws (CHR 0x22)" "\<not> is_ws (CHR ''['')" "\<not> is_ws (CHR '']'')" "\<not> is_ws (CHR ''{'')"
  "\<not> is_ws (CHR ''}'')" "\<not> is_ws (CHR '','')" "\<not> is_ws (CHR '':'')" "\<not> is_ws (CHR ''t'')"
  "\<not> is_ws (CHR ''f'')" "\<not> is_ws (CHR ''n'')" "\<not> is_ws (CHR ''-'')"
  by (simp_all add: is_ws_def)

text \<open>What may follow a value inside a text: nothing, or a character that ends a number.\<close>

abbreviation value_end :: "string \<Rightarrow> bool" where
  "value_end \<equiv> num_end"

lemma value_end_sep [simp]:
  "value_end []" "value_end (CHR '','' # t)" "value_end (CHR '']'' # t)" "value_end (CHR ''}'' # t)"
  by (simp_all add: num_end_def is_digit_def)

lemma parse_number_start: "parse_number (c # s) = Some r \<Longrightarrow> is_digit c \<or> c = CHR ''-''"
  by (auto simp: parse_number_def parse_unsigned_def Let_def split: if_splits)

lemma parse_value_number:
  assumes "parse_number s = Some (q, r)"
  shows "parse_value (Suc n) s = Some (Num (Fin q), r)"
proof (cases s)
  case Nil
  with assms show ?thesis by (simp add: parse_number_def)
next
  case (Cons c t)
  from parse_number_start [of c t] assms Cons have c: "is_digit c \<or> c = CHR ''-''" by auto
  then have "\<not> is_ws c" "c \<noteq> CHR 0x22" "c \<noteq> CHR ''[''" "c \<noteq> CHR ''{''" "c \<noteq> CHR ''t''"
    "c \<noteq> CHR ''f''" "c \<noteq> CHR ''n''"
    by (auto simp: is_digit_def is_ws_def)
  with Cons assms show ?thesis by simp
qed

lemma obj_of_distinct: "distinct (map fst ps) \<Longrightarrow> obj_of ps = Obj ps"
proof -
  assume "distinct (map fst ps)"
  then have "foldl (\<lambda>m p. AList.update (fst p) (snd p) m) [] ps = ps"
  proof (induction ps rule: rev_induct)
    case (snoc p ps)
    then show ?case by (cases p) (auto simp: update_fresh)
  qed simp
  then show ?thesis by (simp add: obj_of_def)
qed

definition parses :: "js \<Rightarrow> bool" where
  "parses v \<longleftrightarrow> (\<forall>n t. value_end t \<longrightarrow> 2 * length (show_js v @ t) < n \<longrightarrow>
     parse_value n (show_js v @ t) = Some (v, t))"

lemma commas_length: "xs \<noteq> [] \<Longrightarrow> length (hd xs) \<le> length (commas xs)"
  by (cases xs rule: commas.cases) auto

lemma parse_elems_show:
  assumes "\<And>v. v \<in> set xs \<Longrightarrow> parses v" and "xs \<noteq> []"
    and "2 * length (commas (map show_js xs) @ CHR '']'' # t) + 1 < n"
  shows "parse_elems n (commas (map show_js xs) @ CHR '']'' # t) = Some (xs, t)"
  using assms
proof (induction xs arbitrary: n rule: induct_list012)
  case (2 v)
  then obtain n' where n: "n = Suc n'" by (cases n) auto
  have "parse_value n' (show_js v @ CHR '']'' # t) = Some (v, CHR '']'' # t)"
    using 2 n by (auto simp: parses_def)
  then show ?case by (simp add: n)
next
  case (3 v w xs)
  then obtain n' where n: "n = Suc n'" by (cases n) auto
  let ?r = "commas (map show_js (w # xs)) @ CHR '']'' # t"
  have "parse_value n' (show_js v @ CHR '','' # ?r) = Some (v, CHR '','' # ?r)"
    using 3 n by (auto simp: parses_def)
  moreover have "parse_elems n' ?r = Some (w # xs, t)"
    using 3 n by auto
  ultimately show ?case by (simp add: n)
qed simp

abbreviation show_member :: "string \<times> js \<Rightarrow> string" where
  "show_member p \<equiv> show_string (fst p) @ CHR '':'' # show_js (snd p)"

lemma show_member_append:
  "show_member (k, v) @ s = CHR 0x22 # concat (map escape_char k) @ CHR 0x22 # CHR '':'' # show_js v @ s"
  by (simp add: show_string_def)

lemma parse_members_show:
  assumes "\<And>k v. (k, v) \<in> set ps \<Longrightarrow> parses v" and "ps \<noteq> []"
    and "2 * length (commas (map show_member ps) @ CHR ''}'' # t) + 1 < n"
  shows "parse_members n (commas (map show_member ps) @ CHR ''}'' # t) = Some (ps, t)"
  using assms
proof (induction ps arbitrary: n rule: induct_list012)
  case (2 p)
  obtain k v where p: "p = (k, v)" by (cases p)
  from 2 obtain n' where n: "n = Suc n'" by (cases n) auto
  have "parse_value n' (show_js v @ CHR ''}'' # t) = Some (v, CHR ''}'' # t)"
    using 2 n p by (auto simp: parses_def)
  then show ?case by (simp add: n p show_string_def parse_str_show)
next
  case (3 p p' ps)
  obtain k v where p: "p = (k, v)" by (cases p)
  from 3 obtain n' where n: "n = Suc n'" by (cases n) auto
  let ?r = "commas (map show_member (p' # ps)) @ CHR ''}'' # t"
  have "parses v" using "3.prems"(1) p by auto
  moreover have "2 * length (show_js v @ CHR '','' # ?r) < n'"
    using "3.prems"(3) n p by auto
  ultimately have "parse_value n' (show_js v @ CHR '','' # ?r) = Some (v, CHR '','' # ?r)"
    by (simp add: parses_def)
  moreover have "parse_members n' ?r = Some (p' # ps, t)"
  proof (rule "3.IH"(2))
    show "\<And>k v. (k, v) \<in> set (p' # ps) \<Longrightarrow> parses v" using "3.prems"(1) by auto
    show "2 * length ?r + 1 < n'" using "3.prems"(3) n p by auto
  qed simp
  ultimately show ?case by (simp add: n p show_string_def parse_str_show)
qed simp

lemma commas_not_Nil: "xs \<noteq> [] \<Longrightarrow> hd xs \<noteq> [] \<Longrightarrow> commas xs \<noteq> [] \<and> hd (commas xs) = hd (hd xs)"
  by (cases xs rule: commas.cases) auto

lemma show_rat_start:
  assumes "wf_rat q"
  shows "\<exists>c r. show_rat q = c # r \<and> (is_digit c \<or> c = CHR ''-'')"
proof -
  have "parse_number (show_rat q @ []) = Some (q, [])"
    by (rule parse_number_show_rat [OF assms]) (simp add: num_end_def)
  then show ?thesis
    by (cases "show_rat q") (auto simp: parse_number_def [of "[]"] dest: parse_number_start)
qed

text \<open>The first character of a printed value is neither white space nor a closing bracket.\<close>

lemma show_js_start:
  assumes "wf_json v"
  shows "\<exists>c r. show_js v = c # r \<and> \<not> is_ws c \<and> c \<noteq> CHR '']''"
  using assms
proof (cases v rule: show_js.cases)
  case (4 q)
  with assms obtain c r where c: "show_rat q = c # r" "is_digit c \<or> c = CHR ''-''"
    using show_rat_start [of q] by auto
  then have "\<not> is_ws c" "c \<noteq> CHR '']''" by (auto simp: is_digit_def is_ws_def)
  with c 4 show ?thesis by simp
qed (auto simp: show_string_def)

lemma parses_Arr:
  assumes "\<And>v. v \<in> set xs \<Longrightarrow> parses v" and "list_all wf_json xs"
  shows "parses (Arr xs)"
  unfolding parses_def
proof (intro allI impI)
  fix n t assume n: "2 * length (show_js (Arr xs) @ t) < n"
  then obtain m where m: "n = Suc m" by (cases n) auto
  show "parse_value n (show_js (Arr xs) @ t) = Some (Arr xs, t)"
  proof (cases xs)
    case Nil
    then show ?thesis by (simp add: m)
  next
    case (Cons x ys)
    then obtain c r where c: "show_js x = c # r" "\<not> is_ws c" "c \<noteq> CHR '']''"
      using assms(2) show_js_start [of x] by auto
    then obtain r' where cr: "commas (map show_js xs) = c # r'"
      using commas_not_Nil [of "map show_js xs"] Cons by (cases "commas (map show_js xs)") auto
    have "parse_elems m (commas (map show_js xs) @ CHR '']'' # t) = Some (xs, t)"
      using n m Cons assms(1) by (intro parse_elems_show) auto
    then show ?thesis using c cr by (simp add: m)
  qed
qed

lemma filter_defined: "list_all (\<lambda>p. wf_json (snd p)) ps \<Longrightarrow> filter (\<lambda>p. snd p \<noteq> Undefined) ps = ps"
  by (induction ps) auto

lemma parses_Obj:
  assumes "\<And>k v. (k, v) \<in> set ps \<Longrightarrow> parses v" and "wf_json (Obj ps)"
  shows "parses (Obj ps)"
  unfolding parses_def
proof (intro allI impI)
  fix n t assume n: "2 * length (show_js (Obj ps) @ t) < n"
  then obtain m where m: "n = Suc m" by (cases n) auto
  have sh: "show_js (Obj ps) = CHR ''{'' # commas (map show_member ps) @ ''}''"
    using assms(2) by (simp add: filter_defined)
  show "parse_value n (show_js (Obj ps) @ t) = Some (Obj ps, t)"
  proof (cases ps)
    case Nil
    then show ?thesis by (simp add: m)
  next
    case (Cons p qs)
    then obtain r' where cr: "commas (map show_member ps) = CHR 0x22 # r'"
      using commas_not_Nil [of "map show_member ps"]
      by (cases "commas (map show_member ps)") (auto simp: show_string_def)
    have "parse_members m (commas (map show_member ps) @ CHR ''}'' # t) = Some (ps, t)"
      using n m Cons assms(1) unfolding sh by (intro parse_members_show) auto
    then show ?thesis using cr assms(2) unfolding sh by (simp add: m obj_of_distinct)
  qed
qed

lemma parses_wf: "wf_json v \<Longrightarrow> parses v"
proof (induction v rule: show_js.induct)
  case (4 q)
  show ?case
    unfolding parses_def
  proof (intro allI impI)
    fix n t assume "value_end t" and n: "2 * length (show_js (Num (Fin q)) @ t) < n"
    then have "parse_number (show_rat q @ t) = Some (q, t)"
      using 4 by (intro parse_number_show_rat) auto
    then show "parse_value n (show_js (Num (Fin q)) @ t) = Some (Num (Fin q), t)"
      using n by (cases n) (auto simp del: parse_value.simps simp: parse_value_number)
  qed
next
  case (7 s)
  show ?case
    unfolding parses_def
  proof (intro allI impI)
    fix n t assume n: "2 * length (show_js (Str s) @ t) < n"
    then show "parse_value n (show_js (Str s) @ t) = Some (Str s, t)"
      by (cases n) (auto simp: show_string_def parse_str_show)
  qed
next
  case (8 xs)
  then show ?case by (intro parses_Arr) (auto simp: list_all_iff)
next
  case (9 ps)
  then have "filter (\<lambda>p. snd p \<noteq> Undefined) ps = ps" by (simp add: filter_defined)
  with 9 show ?case by (intro parses_Obj) (auto simp: list_all_iff)
next
  case 2
  show ?case
    unfolding parses_def
  proof (intro allI impI)
    fix n t assume "2 * length (show_js Null @ t) < n"
    then show "parse_value n (show_js Null @ t) = Some (Null, t)"
      by (cases n) (auto simp: parse_lit_def)
  qed
next
  case (3 b)
  show ?case
    unfolding parses_def
  proof (intro allI impI)
    fix n t assume "2 * length (show_js (Bool b) @ t) < n"
    then show "parse_value n (show_js (Bool b) @ t) = Some ((Bool b), t)"
      by (cases n) (auto simp: parse_lit_def)
  qed
qed auto

text \<open>Parsing what was printed gives the value back.\<close>

theorem json_roundtrip: "wf_json v \<Longrightarrow> json_parse (show_js v) = Some v"
proof -
  assume "wf_json v"
  then have "value_end [] \<longrightarrow> 2 * length (show_js v @ []) < 2 * length (show_js v) + 1 \<longrightarrow>
      parse_value (2 * length (show_js v) + 1) (show_js v @ []) = Some (v, [])"
    using parses_wf [of v] unfolding parses_def by blast
  then show ?thesis by (simp del: parse_value.simps add: json_parse_def)
qed

lemma json_roundtrip_stringify: "wf_json v \<Longrightarrow> json_stringify v = Some (show_js v)"
  by (cases v) (auto simp: json_stringify_def)

section \<open>Fuel\<close>

lemma skip_ws_length: "length (skip_ws s) \<le> length s"
  by (simp add: skip_ws_def length_dropWhile_le)


lemma parse_str_length: "parse_str s = Some (t, r) \<Longrightarrow> length r < length s"
proof (induction s arbitrary: t r rule: parse_str.induct)
  case (1 s)
  from "1.prems" show ?case
  proof (cases s)
    case Nil
    with "1.prems" show ?thesis by (simp add: parse_str.simps [of s])
  next
    case (Cons c u)
    note d = "1.prems" [unfolded Cons, unfolded parse_str.simps [of "c # u"], simplified]
    consider (quote) "c = CHR 0x22" | (esc) "c = CHR 0x5C" | (plain) "c \<noteq> CHR 0x22" "c \<noteq> CHR 0x5C" by blast
    then show ?thesis
    proof cases
      case quote
      with d Cons show ?thesis by simp
    next
      case plain
      with d Cons "1.IH"(4) [OF Cons] show ?thesis by (auto split: if_splits intro: less_SucI)
    next
      case esc
      with d obtain e r1 where u: "u = e # r1" by (cases u) auto
      show ?thesis
      proof (cases "e = CHR ''u''")
        case False
        with d esc u obtain a where "parse_str r1 = Some (a, r)" by (auto split: option.splits)
        moreover obtain x where "unescape e = Some x" using d esc u False by (auto split: option.splits)
        ultimately show ?thesis using "1.IH"(3) [OF Cons _ esc u False] esc Cons u by fastforce
      next
        case True
        with d esc u obtain w r2 where h: "hex4 r1 = Some (w, r2)" by (auto split: option.splits)
        let ?ls = "if 55296 \<le> w \<and> w \<le> 56319 then low_surrogate r2 else None"
        show ?thesis
        proof (cases ?ls)
          case None
          then obtain a where "parse_str r2 = Some (a, r)" using d esc u True h by auto
          then show ?thesis
            using "1.IH"(1) [OF Cons _ esc u True h refl None] esc hex4_length [OF h] Cons u by fastforce
        next
          case (Some lr)
          obtain l r3 where lr: "lr = (l, r3)" by (cases lr)
          have "low_surrogate r2 = Some (l, r3)" using Some lr by (auto split: if_splits)
          note l = low_surrogate_length [OF this]
          obtain a where "parse_str r3 = Some (a, r)" using d esc u True h Some lr by auto
          then show ?thesis
            using "1.IH"(2) [OF Cons _ esc u True h refl Some] lr esc hex4_length [OF h] l Cons u by fastforce
        qed
      qed
    qed
  qed
qed

lemma parse_lit_length: "l \<noteq> [] \<Longrightarrow> parse_lit l v s = Some (w, r) \<Longrightarrow> length r < length s"
  by (cases s) (auto simp: parse_lit_def split: if_splits)

lemma parse_frac_length: "parse_frac s = Some (f, r) \<Longrightarrow> length r \<le> length s"
  by (auto simp: parse_frac_def Let_def length_dropWhile_le le_SucI split: list.splits if_splits)

lemma parse_exp_length: "parse_exp s = Some (e, r) \<Longrightarrow> length r \<le> length s"
  by (auto simp: parse_exp_def Let_def length_dropWhile_le le_SucI split: list.splits if_splits prod.splits)

lemma parse_unsigned_length: "parse_unsigned s = Some (q, r) \<Longrightarrow> length r < length s"
proof -
  assume a: "parse_unsigned s = Some (q, r)"
  then have "takeWhile is_digit s \<noteq> []" by (auto simp: parse_unsigned_def Let_def)
  then have "length (dropWhile is_digit s) < length s"
    by (cases s) (auto simp: length_dropWhile_le less_Suc_eq_le split: if_splits)
  with a show ?thesis
    by (auto simp: parse_unsigned_def Let_def split: if_splits option.splits
        dest!: parse_frac_length parse_exp_length)
qed

lemma parse_number_length: "parse_number s = Some (q, r) \<Longrightarrow> length r < length s"
  by (auto simp: parse_number_def split: list.splits if_splits dest!: parse_unsigned_length)

lemma skip_ws_Cons_length: "skip_ws s = c # r \<Longrightarrow> length r < length s"
  using skip_ws_length [of s] by simp

lemma parse_length:
  "parse_value n s = Some (v, r) \<Longrightarrow> length r < length s"
  "parse_elems n s = Some (vs, r) \<Longrightarrow> length r < length s"
  "parse_members n s = Some (ps, r) \<Longrightarrow> length r < length s"
proof (induction n s and n s and n s arbitrary: v r and vs r and ps r
    rule: parse_value_parse_elems_parse_members.induct)
  case (2 n s)
  from "2.prems" obtain c u where c: "skip_ws s = c # u" by (cases "skip_ws s") auto
  have len: "length u < length s" using c by (rule skip_ws_Cons_length)
  have em: "length r < length s" if "skip_ws u = d # r" for d
    using skip_ws_Cons_length [OF that] len by simp
  have el: "length r < length s" if "parse_elems n u = Some (vs, r)" "c = CHR ''[''" "skip_ws u = d # w" "d \<noteq> CHR '']''"
    for vs d w
    using "2.IH"(1) [OF c _ _ that(3)] that len by fastforce
  have me: "length r < length s" if "parse_members n u = Some (ps, r)" "c = CHR ''{''" "skip_ws u = d # w" "d \<noteq> CHR ''}''"
    for ps d w
    using "2.IH"(2) [OF c _ _ _ that(3)] that len by fastforce
  show ?case
    using "2.prems" c len
    by (auto split: if_splits list.splits dest!: parse_str_length parse_number_length
        parse_lit_length [rotated] intro: el me em)
next
  case (4 n s)
  from "4.prems" obtain w u where w: "parse_value n s = Some (w, u)" by (cases "parse_value n s") auto
  have l: "length u < length s" using "4.IH"(1) w by simp
  have "length r < length r1" if "skip_ws u = CHR '','' # r1" "parse_elems n r1 = Some (xs, r)" for r1 xs
    using "4.IH"(2) [OF w _ that(1)] that(2) by simp
  then show ?case using "4.prems" w l
    by (auto split: list.splits if_splits dest!: skip_ws_Cons_length intro: less_trans)
next
  case (6 n s)
  from "6.prems" obtain t where e1: "skip_ws s = CHR 0x22 # t"
    by (auto split: list.splits if_splits)
  with "6.prems" obtain k u where e2: "parse_str t = Some (k, u)" by (cases "parse_str t") auto
  with "6.prems" e1 obtain r1 where e3: "skip_ws u = CHR '':'' # r1"
    by (cases "skip_ws u") (auto split: if_splits)
  with "6.prems" e1 e2 obtain w r2 where w: "parse_value n r1 = Some (w, r2)"
    by (cases "parse_value n r1") auto
  note e = e1 e2 e3
  have l: "length r1 < length s"
    using skip_ws_Cons_length [OF e(1)] parse_str_length [OF e(2)] skip_ws_Cons_length [OF e(3)] by simp
  have l2: "length r2 < length r1" using "6.IH"(1) e w by simp
  have "length r < length r3" if "skip_ws r2 = CHR '','' # r3" "parse_members n r3 = Some (xs, r)" for r3 xs
    using "6.IH"(2) [OF e(1) _ e(2) _ e(3) _ w _ that(1)] that(2) by simp
  note rec = this
  from "6.prems" e w obtain d r3 where d: "skip_ws r2 = d # r3" by (cases "skip_ws r2") auto
  have l3: "length r3 < length r2" using d by (rule skip_ws_Cons_length)
  have "r = r3 \<or> (\<exists>xs. d = CHR '','' \<and> parse_members n r3 = Some (xs, r))"
    using "6.prems" e w d by (auto split: if_splits)
  then have "length r \<le> length r3" using rec d less_imp_le by blast
  with l l2 l3 show ?case by simp
qed simp_all

text \<open>From a fuel of twice the length on, more fuel never changes the result: the parser fails
  only on texts that are not JSON.\<close>

lemma parse_fuel:
  "2 * length s < n \<Longrightarrow> 2 * length s < m \<Longrightarrow> parse_value n s = parse_value m s"
  "2 * length s + 1 < n \<Longrightarrow> 2 * length s + 1 < m \<Longrightarrow> parse_elems n s = parse_elems m s"
  "2 * length s + 1 < n \<Longrightarrow> 2 * length s + 1 < m \<Longrightarrow> parse_members n s = parse_members m s"
proof (induction n s and n s and n s arbitrary: m and m and m
    rule: parse_value_parse_elems_parse_members.induct)
  case (2 n s)
  from "2.prems" obtain m' where m: "m = Suc m'" by (cases m) auto
  show ?case
  proof (cases "skip_ws s")
    case (Cons c u)
    have len: "length u < length s" using Cons by (rule skip_ws_Cons_length)
    note c = Cons
    show ?thesis
    proof (cases "skip_ws u")
      case (Cons d v)
      have e: "parse_elems n u = parse_elems m' u" if "c = CHR ''[''" "d \<noteq> CHR '']''"
        using that len "2.prems" m by (intro "2.IH"(1) [OF c _ _ Cons]) auto
      have f: "parse_members n u = parse_members m' u" if "c = CHR ''{''" "d \<noteq> CHR ''}''"
        using that len "2.prems" m by (intro "2.IH"(2) [OF c _ _ _ Cons]) auto
      show ?thesis
        by (simp add: m c Cons e f split del: if_split cong: if_cong)
    qed (simp add: m c)
  qed (simp add: m)
next
  case (4 n s)
  from "4.prems" obtain m' where m: "m = Suc m'" by (cases m) auto
  have v: "parse_value n s = parse_value m' s" using "4.prems" m by (intro "4.IH"(1)) auto
  show ?case
  proof (cases "parse_value n s")
    case (Some vr)
    obtain w r where vr: "vr = (w, r)" by (cases vr)
    have l: "length r < length s" using Some vr parse_length(1) by auto
    have "parse_elems n r1 = parse_elems m' r1" if "skip_ws r = CHR '','' # r1" for r1
      using skip_ws_Cons_length [OF that] l "4.prems" m
      by (intro "4.IH"(2) [OF Some [unfolded vr] refl that]) auto
    note e = this
    show ?thesis
    proof (cases "skip_ws r")
      case (Cons d r1)
      with e [of r1] show ?thesis using Some v [symmetric] vr by (cases "d = CHR '',''") (simp_all add: m)
    qed (use Some v [symmetric] vr in \<open>simp add: m\<close>)
  qed (use v m in simp)
next
  case (6 n s)
  from "6.prems" obtain m' where m: "m = Suc m'" by (cases m) auto
  show ?case
  proof (cases "\<exists>t k r r1. skip_ws s = CHR 0x22 # t \<and> parse_str t = Some (k, r) \<and> skip_ws r = CHR '':'' # r1")
    case True
    then obtain t k r r1 where e: "skip_ws s = CHR 0x22 # t" "parse_str t = Some (k, r)" "skip_ws r = CHR '':'' # r1"
      by blast
    have l: "length r1 < length s"
      using skip_ws_Cons_length [OF e(1)] parse_str_length [OF e(2)] skip_ws_Cons_length [OF e(3)] by simp
    have v: "parse_value n r1 = parse_value m' r1"
      using l "6.prems" m by (intro "6.IH"(1) [OF e(1) _ e(2) refl e(3)]) auto
    show ?thesis
    proof (cases "parse_value n r1")
      case (Some wr)
      obtain w r2 where wr: "wr = (w, r2)" by (cases wr)
      have l2: "length r2 < length r1" using Some wr parse_length(1) by auto
      have "parse_members n r3 = parse_members m' r3" if "skip_ws r2 = CHR '','' # r3" for r3
        using skip_ws_Cons_length [OF that] l l2 "6.prems" m
        by (intro "6.IH"(2) [OF e(1) _ e(2) refl e(3) _ Some [unfolded wr] refl that]) auto
      note f = this
      show ?thesis
      proof (cases "skip_ws r2")
        case (Cons d r3)
        with f [of r3] show ?thesis using e Some v [symmetric] wr by (cases "d = CHR '',''") (simp_all add: m)
      qed (use e Some v [symmetric] wr in \<open>simp add: m\<close>)
    qed (use e v m in simp)
  next
    case False
    show ?thesis
    proof (cases "skip_ws s")
      case (Cons q t)
      note q = Cons
      show ?thesis
      proof (cases "q = CHR 0x22 \<and> parse_str t \<noteq> None")
        case True
        then obtain k r where k: "parse_str t = Some (k, r)" by auto
        then show ?thesis using False q True by (cases "skip_ws r") (auto simp: m)
      qed (use q in \<open>cases "parse_str t"; auto simp: m\<close>)
    qed (simp add: m)
  qed
qed simp_all

lemma parse_value_fuel:
  assumes "2 * length s < n"
  shows "parse_value n s = parse_value (2 * length s + 1) s"
  using assms by (intro parse_fuel) simp_all

text \<open>Clients of the codec use the round trip, never the equations of the parser.\<close>

declare parse_value.simps(2) [simp del] parse_elems.simps(2) [simp del] parse_members.simps(2) [simp del]

section \<open>The codec as an interface\<close>

text \<open>
  What the transports rely on: every value of a domain is printed, and parsing the text gives it
  back.  The locale is the contract; JSON is the instance.
\<close>

locale codec =
  fixes enc :: "'v \<Rightarrow> string option" and dec :: "string \<Rightarrow> 'v option" and dom_ok :: "'v \<Rightarrow> bool"
  assumes enc_total: "dom_ok v \<Longrightarrow> \<exists>s. enc v = Some s"
    and dec_enc: "dom_ok v \<Longrightarrow> enc v = Some s \<Longrightarrow> dec s = Some v"
begin

lemma enc_inj: "dom_ok v \<Longrightarrow> dom_ok w \<Longrightarrow> enc v = enc w \<Longrightarrow> v = w"
  using enc_total dec_enc by (metis option.inject)

lemma dec_list:
  assumes "list_all dom_ok vs"
  shows "map (\<lambda>v. Option.bind (enc v) dec) vs = map Some vs"
  using assms by (induction vs) (use enc_total dec_enc in force)+

end

interpretation json: codec json_stringify json_parse wf_json
  by unfold_locales (auto simp: json_roundtrip_stringify json_roundtrip)

section \<open>Every parsed value is well formed\<close>

lemma coprime_5: "\<not> 5 dvd d \<Longrightarrow> coprime d (5 :: nat)"
proof (rule coprimeI)
  fix c :: nat
  assume d: "\<not> 5 dvd d" and c: "c dvd d" "c dvd 5"
  from c(2) have "c \<le> 5" by (simp add: dvd_imp_le)
  then consider "c = 0" | "c = 1" | "c = 2" | "c = 3" | "c = 4" | "c = 5" by linarith
  then show "is_unit c" using c d by cases auto
qed

lemma dvd_power_bound:
  fixes d p :: nat
  assumes p: "1 < p" and cop: "\<And>e. \<not> p dvd e \<Longrightarrow> coprime e p"
    and d: "0 < d" "d dvd p ^ a * m"
  shows "d dvd p ^ d * m"
  using d
proof (induction d arbitrary: a rule: less_induct)
  case (less d)
  show ?case
  proof (cases "p dvd d \<and> 0 < a")
    case True
    then obtain e where e: "d = p * e" by (auto elim: dvdE)
    obtain b where b: "a = Suc b" using True by (cases a) auto
    have "e dvd p ^ b * m" using less.prems(2) p unfolding e b by (simp add: ac_simps)
    moreover have "0 < e" "e < d" using less.prems(1) p e by auto
    ultimately have "e dvd p ^ e * m" using less.IH by blast
    then have "p * e dvd p ^ Suc e * m" by (simp add: ac_simps mult_dvd_mono)
    moreover have "p ^ Suc e * m dvd p ^ d * m"
      using \<open>e < d\<close> by (intro mult_dvd_mono le_imp_power_dvd) auto
    ultimately show ?thesis unfolding e by (rule dvd_trans)
  next
    case False
    then consider "\<not> p dvd d" | "a = 0" by auto
    then have "d dvd m"
    proof cases
      case 1
      then have "coprime d (p ^ a)" using cop by simp
      with less.prems(2) show ?thesis by (simp add: coprime_dvd_mult_right_iff)
    qed (use less.prems(2) in simp)
    then show ?thesis by (rule dvd_mult)
  qed
qed

lemma dvd_10_bound:
  fixes d :: nat
  assumes "d dvd 10 ^ n" and "0 < d"
  shows "d dvd 10 ^ d"
proof -
  have e: "(10 :: nat) ^ k = 2 ^ k * 5 ^ k" for k
    by (simp add: power_mult_distrib [symmetric])
  have "d dvd 2 ^ d * 5 ^ n"
    using assms unfolding e by (intro dvd_power_bound) (auto simp: coprime_right_2_iff_odd)
  then have "d dvd 5 ^ d * 2 ^ d"
    using assms(2) coprime_5 by (intro dvd_power_bound [where a = n]) (auto simp: mult.commute)
  then show ?thesis unfolding e by (simp add: mult.commute)
qed

lemma wf_rat_decimal:
  assumes "q * 10 ^ n = of_int m"
  shows "wf_rat q"
proof -
  obtain a d where q: "quotient_of q = (a, d)" by (cases "quotient_of q")
  note d = quotient_of_parts [OF q] and c = quotient_of_coprime [OF q]
  have "of_int (a * 10 ^ n) = (of_int (m * d) :: rat)"
    using assms d by (simp add: field_simps)
  then have "a * 10 ^ n = m * d" unfolding of_int_eq_iff .
  then have "d dvd a * 10 ^ n" by simp
  with c have "d dvd 10 ^ n"
    by (metis coprime_commute coprime_dvd_mult_right_iff)
  then have "nat d dvd 10 ^ n"
    using d by (metis int_dvd_int_iff nat_0_le of_nat_numeral of_nat_power less_imp_le)
  with dvd_10_bound have "nat d dvd 10 ^ nat d" using d by simp
  then have "\<exists>k \<in> set [0..<Suc (nat d)]. nat d dvd 10 ^ k" by (intro bexI [of _ "nat d"]) auto
  then have "dec_places (nat d) \<noteq> None" unfolding dec_places_def find_None_iff by auto
  then show ?thesis by (simp add: wf_rat_def q)
qed

lemma parse_unsigned_wf: "parse_unsigned s = Some (q, r) \<Longrightarrow> wf_rat q \<and> wf_rat (- q)"
proof -
  assume "parse_unsigned s = Some (q, r)"
  then have "\<exists>n k e. q = of_nat n / 10 ^ k * (if 0 \<le> e then 10 ^ nat e else 1 / 10 ^ nat (- e))"
    unfolding parse_unsigned_def Let_def by (simp split: if_split_asm option.split_asm prod.split_asm) blast+
  then obtain n :: nat and k :: nat and e :: int
    where q: "q = of_nat n / 10 ^ k * (if 0 \<le> e then 10 ^ nat e else 1 / 10 ^ nat (- e))" by blast
  have "\<exists>m j. q * 10 ^ j = of_int m"
  proof (cases "0 \<le> e")
    case True
    then have "q * 10 ^ k = of_int (int n * 10 ^ nat e)" by (simp add: q)
    then show ?thesis by blast
  next
    case False
    then have "q * 10 ^ (k + nat (- e)) = of_int (int n)" by (simp add: q power_add)
    then show ?thesis by blast
  qed
  then obtain m j where m: "q * 10 ^ j = of_int m" by blast
  then have "(- q) * 10 ^ j = of_int (- m)" by simp
  with m show ?thesis using wf_rat_decimal by blast
qed

lemma parse_number_wf: "parse_number s = Some (q, r) \<Longrightarrow> wf_rat q"
  using parse_unsigned_wf by (fastforce simp: parse_number_def split: list.splits if_splits)

lemma obj_of_wf:
  assumes "list_all (\<lambda>p. wf_json (snd p)) ps"
  shows "wf_json (obj_of ps)"
proof -
  have "wf_json (Obj (foldl (\<lambda>m p. AList.update (fst p) (snd p) m) qs ps))" if "wf_json (Obj qs)" for qs
    using assms that
  proof (induction ps arbitrary: qs)
    case (Cons p ps)
    have "wf_json (jput (Obj qs) (fst p) (snd p))" using Cons.prems by (intro wf_json_jput) auto
    then have "wf_json (Obj (AList.update (fst p) (snd p) qs))" by simp
    with Cons show ?case by (simp del: wf_json.simps)
  qed simp
  from this [of "[]"] show ?thesis by (simp add: obj_of_def)
qed

lemma parse_lit_wf: "parse_lit l v s = Some (w, r) \<Longrightarrow> wf_json v \<Longrightarrow> wf_json w"
  by (auto simp: parse_lit_def split: if_splits)

lemma parse_wf:
  "parse_value n s = Some (v, r) \<Longrightarrow> wf_json v"
  "parse_elems n s = Some (vs, r) \<Longrightarrow> list_all wf_json vs"
  "parse_members n s = Some (ps, r) \<Longrightarrow> list_all (\<lambda>p. wf_json (snd p)) ps"
proof (induction n s and n s and n s arbitrary: v r and vs r and ps r
    rule: parse_value_parse_elems_parse_members.induct)
  case (2 n s)
  show ?case
  proof (cases "skip_ws s")
    case (Cons c u)
    note c = Cons
    show ?thesis
    proof (cases "skip_ws u")
      case (Cons d w)
      have e: "list_all wf_json xs" if "c = CHR ''[''" "d \<noteq> CHR '']''" "parse_elems n u = Some (xs, r')" for xs r'
        using that by (intro "2.IH"(1) [OF c _ _ Cons]) auto
      have f: "wf_json (obj_of ps)" if "c = CHR ''{''" "d \<noteq> CHR ''}''" "parse_members n u = Some (ps, r')" for ps r'
        using that by (intro obj_of_wf "2.IH"(2) [OF c _ _ _ Cons]) auto
      show ?thesis
        using "2.prems" e f c Cons
        by (auto simp: parse_value.simps(2) dest: parse_number_wf parse_lit_wf split: if_splits)
    qed (use "2.prems" c in \<open>auto simp: parse_value.simps(2) dest: parse_number_wf parse_lit_wf split: if_splits\<close>)
  qed (use "2.prems" in \<open>simp add: parse_value.simps(2)\<close>)
next
  case (4 n s)
  from "4.prems" obtain w r0 where w: "parse_value n s = Some (w, r0)"
    by (auto simp: parse_elems.simps(2) split: option.splits)
  then obtain c r1 where c: "skip_ws r0 = c # r1"
    using "4.prems" by (auto simp: parse_elems.simps(2) split: list.splits)
  have "wf_json w" using "4.IH"(1) w by blast
  then show ?case
    using "4.prems" w c "4.IH"(2) [OF w refl c]
    by (auto simp: parse_elems.simps(2) split: if_splits)
next
  case (6 n s)
  from "6.prems" obtain t where t: "skip_ws s = CHR 0x22 # t"
    by (auto simp: parse_members.simps(2) split: list.splits if_splits)
  with "6.prems" obtain k r0 where k: "parse_str t = Some (k, r0)"
    by (auto simp: parse_members.simps(2) split: option.splits)
  with "6.prems" t obtain r1 where c: "skip_ws r0 = CHR '':'' # r1"
    by (auto simp: parse_members.simps(2) split: list.splits if_splits)
  with "6.prems" t k obtain w r2 where w: "parse_value n r1 = Some (w, r2)"
    by (auto simp: parse_members.simps(2) split: option.splits)
  with "6.prems" t k c obtain d r3 where d: "skip_ws r2 = d # r3"
    by (auto simp: parse_members.simps(2) split: list.splits)
  have "wf_json w" using "6.IH"(1) [OF t _ k refl c _ w] by simp
  then show ?case
    using "6.prems" t k c w d "6.IH"(2) [OF t _ k refl c _ w refl d]
    by (auto simp: parse_members.simps(2) split: if_splits)
qed simp_all

lemma json_parse_wf: "json_parse s = Some v \<Longrightarrow> wf_json v"
  by (auto simp: json_parse_def split: option.splits if_splits prod.splits dest: parse_wf(1))

end
