(* ===== verification/Js_Number.thy ===== *)
theory Js_Number
  imports Js_Json
begin

text \<open>
  Texts of numbers: \<^verbatim>\<open>String.prototype.trim\<close> (for the ASCII white space), the conversion
  \<^verbatim>\<open>Number(text)\<close> and the template \<^verbatim>\<open>${i}\<close> of an integer, which is inverse to it.
\<close>

definition trim_ws :: "char \<Rightarrow> bool" where
  "trim_ws c \<longleftrightarrow> (of_char c :: nat) \<in> {9, 10, 11, 12, 13, 32}"

definition js_trim :: "string \<Rightarrow> string" where
  "js_trim s = rev (dropWhile trim_ws (rev (dropWhile trim_ws s)))"

definition unsigned_decimal :: "string \<Rightarrow> rat option" where
  "unsigned_decimal s =
     (let ip = takeWhile is_digit s; r = dropWhile is_digit s;
          (fp, r2) = (case r of [] \<Rightarrow> ([], r) | c # r' \<Rightarrow>
                        if c = CHR ''.'' then (takeWhile is_digit r', dropWhile is_digit r') else ([], r))
      in if ip = [] \<and> fp = [] then None
         else case parse_exp r2 of
                Some (e, []) \<Rightarrow>
                  Some (of_nat (digits_val (ip @ fp)) / 10 ^ length fp *
                        (if 0 \<le> e then 10 ^ nat e else 1 / 10 ^ nat (- e)))
              | _ \<Rightarrow> None)"

definition radix_value :: "nat \<Rightarrow> string \<Rightarrow> nat option" where
  "radix_value b s =
     (if s = [] \<or> \<not> list_all (\<lambda>c. case hex_val c of None \<Rightarrow> False | Some d \<Rightarrow> d < b) s then None
      else Some (foldl (\<lambda>a c. a * b + the (hex_val c)) 0 s))"

definition radix_of :: "string \<Rightarrow> (nat \<times> string) option" where
  "radix_of t =
     (case t of
        z # x # r \<Rightarrow>
          if z \<noteq> CHR ''0'' then None
          else if x = CHR ''x'' \<or> x = CHR ''X'' then Some (16, r)
          else if x = CHR ''o'' \<or> x = CHR ''O'' then Some (8, r)
          else if x = CHR ''b'' \<or> x = CHR ''B'' then Some (2, r)
          else None
      | _ \<Rightarrow> None)"

definition signed_decimal :: "string \<Rightarrow> jsnum" where
  "signed_decimal t =
     (let (neg, u) = (case t of [] \<Rightarrow> (False, t) | c # r \<Rightarrow>
                        if c = CHR ''-'' then (True, r) else if c = CHR ''+'' then (False, r) else (False, t))
      in if u = ''Infinity'' then Infinity neg
         else case unsigned_decimal u of None \<Rightarrow> NaN | Some q \<Rightarrow> Fin (if neg then - q else q))"

definition js_Number :: "string \<Rightarrow> jsnum" where
  "js_Number s =
     (let t = js_trim s in
      if t = [] then Fin 0
      else case radix_of t of
             Some (b, r) \<Rightarrow> (case radix_value b r of None \<Rightarrow> NaN | Some n \<Rightarrow> Fin (of_nat n))
           | None \<Rightarrow> signed_decimal t)"

text \<open>\<^verbatim>\<open>${i}\<close>\<close>

definition show_int :: "int \<Rightarrow> string" where
  "show_int i = show_rat (of_int i)"

lemma show_int_nat: "0 \<le> i \<Longrightarrow> show_int i = show_nat (nat i)"
  by (simp add: show_int_def show_rat_def dec_places_def)

lemma js_trim_id: "list_all (\<lambda>c. \<not> trim_ws c) s \<Longrightarrow> js_trim s = s"
proof -
  assume a: "list_all (\<lambda>c. \<not> trim_ws c) s"
  have id: "dropWhile trim_ws t = t" if "list_all (\<lambda>c. \<not> trim_ws c) t" for t
    using that by (cases t) auto
  show ?thesis using a by (simp add: js_trim_def id)
qed

lemma digit_not_trim: "is_digit c \<Longrightarrow> \<not> trim_ws c"
  by (auto simp: is_digit_def trim_ws_def)

lemma takeWhile_all: "list_all P s \<Longrightarrow> takeWhile P s = s \<and> dropWhile P s = []"
  by (induction s) auto

lemma js_Number_digits:
  assumes "list_all is_digit s" and "s \<noteq> []"
  shows "js_Number s = Fin (of_nat (digits_val s))"
proof -
  have t: "js_trim s = s"
    using assms(1) by (intro js_trim_id) (auto simp: list_all_iff digit_not_trim)
  obtain c r where s: "s = c # r" using assms(2) by (cases s) auto
  have nr: "radix_of s = None"
    using assms(1) by (auto simp: s radix_of_def is_digit_def split: list.splits)
  have sg: "c \<noteq> CHR ''-''" "c \<noteq> CHR ''+''" "c \<noteq> CHR ''I''"
    using assms(1) by (auto simp: s is_digit_def)
  have tw: "takeWhile is_digit s = s" "dropWhile is_digit s = []" using takeWhile_all [OF assms(1)] by auto
  have "unsigned_decimal s = Some (of_nat (digits_val s))"
    unfolding unsigned_decimal_def tw using assms(2) by (simp add: Let_def parse_exp_def)
  moreover have "s \<noteq> ''Infinity''" using s sg by auto
  ultimately have "signed_decimal s = Fin (of_nat (digits_val s))"
    using s sg by (simp add: signed_decimal_def)
  then show ?thesis using assms(2) t nr by (simp add: js_Number_def)
qed

lemma js_Number_show_int: "0 \<le> i \<Longrightarrow> js_Number (show_int i) = Fin (of_int i)"
  using js_Number_digits [OF show_nat_digits [of "nat i"]]
  by (simp add: show_int_nat digits_val_show_nat)

end
