(* ===== verification/Process_Locks.thy ===== *)
theory Process_Locks
  imports Js_Number
begin

text \<open>
  The two directory locks of the program: \<open>FileLock\<close>, the start-up lock of the multiplexer
  (\<^verbatim>\<open>multiplexer/utils/FileLock.ts\<close>), and the lock of the legacy driver (\<^verbatim>\<open>utils/file_lock.ts\<close>).

  The file system seen by a lock is a record: whether the lock directory exists, its modification
  time, the content of \<^verbatim>\<open>owner.json\<close> in it, and which calls fail.  The clock, the process id, the
  random bytes of a token and the liveness of processes are arguments.  An exception that leaves
  an operation is \<open>Inl\<close>.
\<close>

section \<open>FileLock\<close>

record lock_owner =
  owner_pid :: int
  owner_createdAt :: int
  token :: string

record lock_fs =
  lock_dir :: bool
  lock_mtime :: int
  owner_json :: "string option"
  parent_error :: "string option"
  write_error :: "string option"
  remove_fails :: bool
  stat_error :: "string option"

record file_lock =
  locked :: bool
  lock_owner_of :: "lock_owner option"

definition new_FileLock :: file_lock where
  "new_FileLock = \<lparr>locked = False, lock_owner_of = None\<rparr>"

definition createDefaultToken :: "int \<Rightarrow> int \<Rightarrow> string \<Rightarrow> string" where
  "createDefaultToken pid created rnd = show_int pid @ ''-'' @ show_int created @ ''-'' @ rnd"

definition createOwner :: "int \<Rightarrow> int \<Rightarrow> string \<Rightarrow> lock_owner" where
  "createOwner pid now rnd =
     \<lparr>owner_pid = pid, owner_createdAt = now, token = createDefaultToken pid now rnd\<rparr>"

text \<open>\<^verbatim>\<open>isSameOwner\<close>: equal records, or both \<^verbatim>\<open>null\<close>.\<close>

definition isSameOwner :: "lock_owner option \<Rightarrow> lock_owner option \<Rightarrow> bool" where
  "isSameOwner l r =
     (case (l, r) of
        (Some a, Some b) \<Rightarrow> owner_pid a = owner_pid b \<and> owner_createdAt a = owner_createdAt b \<and> token a = token b
      | (None, None) \<Rightarrow> True
      | _ \<Rightarrow> False)"

definition isProcessAlive :: "(int \<Rightarrow> bool) \<Rightarrow> int \<Rightarrow> bool" where
  "isProcessAlive alive pid = (if pid \<le> 0 then False else alive pid)"

definition owner_to_js :: "lock_owner \<Rightarrow> js" where
  "owner_to_js ow = Obj [(''pid'', int_num (owner_pid ow)), (''createdAt'', int_num (owner_createdAt ow)),
                         (''token'', Str (token ow))]"

definition owner_of_js :: "js \<Rightarrow> lock_owner option" where
  "owner_of_js v =
     (case (safe_integer (jget v ''pid''), safe_integer (jget v ''createdAt''), jget v ''token'') of
        (Some p, Some c, Str t) \<Rightarrow>
          if p > 0 \<and> c > 0 \<and> length t > 0
          then Some \<lparr>owner_pid = p, owner_createdAt = c, token = t\<rparr> else None
      | _ \<Rightarrow> None)"

definition readOwner :: "lock_fs \<Rightarrow> lock_owner option" where
  "readOwner f =
     (case owner_json f of
        None \<Rightarrow> None
      | Some text \<Rightarrow> (case json_parse text of None \<Rightarrow> None | Some v \<Rightarrow> owner_of_js v))"

definition writeOwner :: "lock_owner \<Rightarrow> lock_fs \<Rightarrow> string + lock_fs" where
  "writeOwner ow f =
     (case write_error f of
        Some e \<Rightarrow> Inl e
      | None \<Rightarrow> Inr (f\<lparr>owner_json := json_stringify (owner_to_js ow)\<rparr>))"

text \<open>\<^verbatim>\<open>fs.mkdirSync(lockPath)\<close>: \<open>None\<close> is the error \<^verbatim>\<open>EEXIST\<close>.\<close>

definition mkdir_lock :: "int \<Rightarrow> lock_fs \<Rightarrow> lock_fs option" where
  "mkdir_lock now f = (if lock_dir f then None else Some (f\<lparr>lock_dir := True, lock_mtime := now, owner_json := None\<rparr>))"

definition acquire_new ::
    "int \<Rightarrow> int \<Rightarrow> string \<Rightarrow> file_lock \<Rightarrow> lock_fs \<Rightarrow> (string + bool) \<times> file_lock \<times> lock_fs" where
  "acquire_new pid now rnd l f =
     (case parent_error f of
        Some e \<Rightarrow> (if e = ''EEXIST'' then Inr False else Inl e, l, f)
      | None \<Rightarrow>
          (case mkdir_lock now f of
             None \<Rightarrow> (Inr False, l, f)
           | Some f1 \<Rightarrow>
               let ow = createOwner pid now rnd in
               (case writeOwner ow f1 of
                  Inl e \<Rightarrow> (if e = ''EEXIST'' then Inr False else Inl e, l, f1)
                | Inr f2 \<Rightarrow> (Inr True, \<lparr>locked = True, lock_owner_of = Some ow\<rparr>, f2))))"

definition acquire ::
    "int \<Rightarrow> int \<Rightarrow> string \<Rightarrow> file_lock \<Rightarrow> lock_fs \<Rightarrow> (string + bool) \<times> file_lock \<times> lock_fs" where
  "acquire pid now rnd l f =
     (if locked l then
        if lock_owner_of l \<noteq> None \<and> isSameOwner (readOwner f) (lock_owner_of l) then (Inr True, l, f)
        else acquire_new pid now rnd new_FileLock f
      else acquire_new pid now rnd l f)"

definition tryRemove :: "lock_owner option \<Rightarrow> lock_fs \<Rightarrow> bool \<times> lock_fs" where
  "tryRemove expectedOwner f =
     (if \<not> lock_dir f then (True, f)
      else if \<not> isSameOwner expectedOwner (readOwner f) then (False, f)
      else if remove_fails f then (False, f)
      else (True, f\<lparr>lock_dir := False, owner_json := None\<rparr>))"

text \<open>\<open>Inl ()\<close>: the error \<^verbatim>\<open>Failed to release file lock\<close> is thrown.\<close>

definition release :: "file_lock \<Rightarrow> lock_fs \<Rightarrow> (unit + unit) \<times> file_lock \<times> lock_fs" where
  "release l f =
     (if \<not> locked l then (Inr (), l, f)
      else case lock_owner_of l of
             None \<Rightarrow> (Inr (), new_FileLock, f)
           | Some ow \<Rightarrow>
               (case tryRemove (Some ow) f of
                  (True, f1) \<Rightarrow> (Inr (), new_FileLock, f1)
                | (False, f1) \<Rightarrow>
                    if \<not> isSameOwner (readOwner f1) (Some ow) then (Inr (), new_FileLock, f1)
                    else (Inl (), l, f1)))"

definition isLockStateStale :: "(int \<Rightarrow> bool) \<Rightarrow> lock_owner option \<Rightarrow> int \<Rightarrow> int \<Rightarrow> lock_fs \<Rightarrow> bool" where
  "isLockStateStale alive ow timeout now f =
     (if \<not> lock_dir f then False
      else case ow of
             Some ow \<Rightarrow>
               if \<not> isProcessAlive alive (owner_pid ow) then True else now - owner_createdAt ow > timeout
           | None \<Rightarrow>
               (case stat_error f of
                  None \<Rightarrow> now - lock_mtime f > timeout
                | Some code \<Rightarrow> code \<noteq> ''ENOENT''))"

definition cleanupStale :: "(int \<Rightarrow> bool) \<Rightarrow> int \<Rightarrow> int \<Rightarrow> lock_fs \<Rightarrow> bool \<times> lock_fs" where
  "cleanupStale alive timeout now f =
     (let staleOwner = readOwner f in
      if \<not> isLockStateStale alive staleOwner timeout now f then (False, f) else tryRemove staleOwner f)"

subsection \<open>Laws\<close>

lemma isSameOwner_iff: "isSameOwner l r \<longleftrightarrow> l = r"
  by (auto simp: isSameOwner_def split: option.splits)

definition valid_owner :: "lock_owner \<Rightarrow> bool" where
  "valid_owner ow \<longleftrightarrow> 0 < owner_pid ow \<and> owner_pid ow \<le> max_safe_integer \<and>
     0 < owner_createdAt ow \<and> owner_createdAt ow \<le> max_safe_integer \<and> token ow \<noteq> []"

lemma owner_roundtrip: "valid_owner ow \<Longrightarrow> owner_of_js (owner_to_js ow) = Some ow"
  by (simp add: owner_of_js_def owner_to_js_def valid_owner_def)

lemma owner_to_js_wf: "wf_json (owner_to_js ow)"
  by (simp add: owner_to_js_def)

lemma readOwner_written:
  assumes "valid_owner ow" and "owner_json f = json_stringify (owner_to_js ow)"
  shows "readOwner f = Some ow"
  using assms owner_to_js_wf [of ow]
  by (simp add: readOwner_def json_roundtrip_stringify json_roundtrip owner_roundtrip)

lemma createDefaultToken_nonempty [simp]: "createDefaultToken p c r \<noteq> []"
  by (simp add: createDefaultToken_def)

lemma valid_createOwner:
  "0 < pid \<Longrightarrow> pid \<le> max_safe_integer \<Longrightarrow> 0 < now \<Longrightarrow> now \<le> max_safe_integer \<Longrightarrow> valid_owner (createOwner pid now rnd)"
  by (simp add: valid_owner_def createOwner_def)

section \<open>The lock of the legacy driver\<close>

text \<open>The module's variable \<^verbatim>\<open>hasLock\<close>, the directory, and whether the calls on it fail.\<close>

record legacy_lock =
  hasLock :: bool
  legacy_dir :: bool
  mkdir_denied :: bool
  rm_error :: bool
  rmdir_error :: bool

definition lock :: "legacy_lock \<Rightarrow> bool \<times> legacy_lock" where
  "lock s =
     (if hasLock s then (True, s)
      else if legacy_dir s \<or> mkdir_denied s then (False, s)
      else (True, s\<lparr>legacy_dir := True, hasLock := True\<rparr>))"

text \<open>\<^verbatim>\<open>unlock\<close>: the arguments its callback is called with (\<open>True\<close>: no error), in order.\<close>

definition unlock :: "legacy_lock \<Rightarrow> bool list \<times> legacy_lock" where
  "unlock s =
     (let first = (if \<not> hasLock s then [True] else []) in
      if rm_error s then (first @ [False], s)
      else (first @ [True], s\<lparr>legacy_dir := False, hasLock := False\<rparr>))"

definition resetLockStatus :: "legacy_lock \<Rightarrow> legacy_lock" where
  "resetLockStatus s = s\<lparr>hasLock := False\<rparr>"

definition clearLockFile :: "legacy_lock \<Rightarrow> legacy_lock" where
  "clearLockFile s = (if rmdir_error s then s else s\<lparr>legacy_dir := False\<rparr>)"

text \<open>The exit handler of \<^verbatim>\<open>clearLockFileWhenProcessExit\<close>.\<close>

definition cleanup_on_exit :: "legacy_lock \<Rightarrow> legacy_lock" where
  "cleanup_on_exit s = (if hasLock s then clearLockFile s else s)"

section \<open>Properties\<close>

text \<open>
  (C12) The life of the start-up lock: taking a free lock publishes the caller as its owner, taking
  it again succeeds without touching it, every other process is refused and changes nothing, the
  owner's release removes it and any process can take it then.
\<close>

theorem file_lock_lifecycle:
  assumes "\<not> lock_dir f" and "parent_error f = None" and "write_error f = None" and "\<not> remove_fails f"
    and "0 < pid" and "pid \<le> max_safe_integer" and "0 < now" and "now \<le> max_safe_integer"
    and "acquire pid now rnd new_FileLock f = (res, l, f1)"
  shows "res = Inr True \<and> readOwner f1 = Some (createOwner pid now rnd) \<and>
    acquire pid now2 rnd2 l f1 = (Inr True, l, f1) \<and>
    acquire pid' now' rnd' new_FileLock f1 = (Inr False, new_FileLock, f1) \<and>
    (\<exists>f2. release l f1 = (Inr (), new_FileLock, f2) \<and> \<not> lock_dir f2 \<and>
       fst (acquire pid' now' rnd' new_FileLock f2) = Inr True)"
proof -
  let ?ow = "createOwner pid now rnd"
  let ?f = "f\<lparr>lock_dir := True, lock_mtime := now, owner_json := json_stringify (owner_to_js ?ow)\<rparr>"
  have a: "res = Inr True" "l = \<lparr>locked = True, lock_owner_of = Some ?ow\<rparr>" "f1 = ?f"
    using assms by (auto simp: acquire_def acquire_new_def new_FileLock_def mkdir_lock_def writeOwner_def Let_def)
  have r: "readOwner f1 = Some ?ow"
    using valid_createOwner [OF assms(5-8), of rnd] by (intro readOwner_written) (simp_all add: a)
  show ?thesis
    using r assms(2-4) a
    by (auto simp: acquire_def acquire_new_def isSameOwner_iff new_FileLock_def mkdir_lock_def release_def tryRemove_def
        writeOwner_def Let_def)
qed

definition free_fs :: lock_fs where
  "free_fs = \<lparr>lock_dir = False, lock_mtime = 0, owner_json = None, parent_error = None, write_error = None,
              remove_fails = False, stat_error = None\<rparr>"

theorem file_lock_lifecycle_witness:
  "fst (acquire 9 200 ''c'' new_FileLock (snd (snd (acquire 7 100 ''ab'' new_FileLock free_fs)))) = Inr False"
  using file_lock_lifecycle [of free_fs 7 100 "''ab''" "fst (acquire 7 100 ''ab'' new_FileLock free_fs)"
      "fst (snd (acquire 7 100 ''ab'' new_FileLock free_fs))" "snd (snd (acquire 7 100 ''ab'' new_FileLock free_fs))"
      0 "[]" 9 200 "''c''"]
  by (simp add: free_fs_def)

text \<open>
  (C13) Nobody's lock is stolen: a lock whose valid owner is alive and not older than the timeout
  survives every other process's attempts to acquire it, to release a lock it believes it holds
  and to clean up stale locks.
\<close>

theorem file_lock_not_stolen:
  assumes "lock_dir f" and "readOwner f = Some ow" and "parent_error f = None"
    and "alive (owner_pid ow)" and "now - owner_createdAt ow \<le> timeout"
    and "lock_owner_of l \<noteq> Some ow"
  shows "acquire pid now' rnd l f = (Inr False, if locked l then new_FileLock else l, f) \<and>
    snd (snd (release l f)) = f \<and> fst (release l f) = Inr () \<and>
    cleanupStale alive timeout now f = (False, f)"
proof -
  have "0 < owner_pid ow"
    using assms(2) by (auto simp: readOwner_def owner_of_js_def split: option.splits js.splits if_splits)
  then show ?thesis
    using assms
    by (auto simp: acquire_def acquire_new_def mkdir_lock_def release_def tryRemove_def isSameOwner_iff cleanupStale_def
        isLockStateStale_def isProcessAlive_def new_FileLock_def split: option.splits)
qed

theorem file_lock_not_stolen_witness:
  "let f = free_fs\<lparr>lock_dir := True, owner_json := json_stringify (owner_to_js (createOwner 7 100 ''ab''))\<rparr> in
   cleanupStale (\<lambda>p. p = 7) 5000 3000 f = (False, f)"
proof -
  let ?f = "free_fs\<lparr>lock_dir := True, owner_json := json_stringify (owner_to_js (createOwner 7 100 ''ab''))\<rparr>"
  have "readOwner ?f = Some (createOwner 7 100 ''ab'')"
    by (rule readOwner_written) (simp_all add: valid_createOwner)
  then show ?thesis
    using file_lock_not_stolen [of ?f "createOwner 7 100 ''ab''" "\<lambda>p. p = 7" 3000 5000 new_FileLock 1 1 "[]"]
    by (simp add: free_fs_def createOwner_def new_FileLock_def Let_def)
qed

text \<open>
  (C14) The legacy \<^verbatim>\<open>unlock\<close>, called by a process that does not hold the lock, deletes the lock
  directory another process holds and runs its callback twice, so that a third process can then
  take the lock while its holder still believes it has it.
\<close>

theorem legacy_unlock_steals:
  assumes "\<not> hasLock mine" and "legacy_dir mine" and "\<not> rm_error mine" and "\<not> mkdir_denied mine"
  shows "unlock mine = ([True, True], mine\<lparr>legacy_dir := False\<rparr>) \<and>
    fst (lock (snd (unlock mine))) = True"
  using assms by (cases mine) (auto simp: unlock_def lock_def Let_def)

theorem legacy_unlock_steals_witness:
  "fst (lock (snd (unlock \<lparr>hasLock = False, legacy_dir = True, mkdir_denied = False, rm_error = False, rmdir_error = False\<rparr>)))
   = True"
  by (rule legacy_unlock_steals [THEN conjunct2]) simp_all

end
