(* ===== verification/Protocol_Validation.thy ===== *)
theory Protocol_Validation
  imports Js_Json
begin

text \<open>
  The run-time validators of the control protocol (\<^verbatim>\<open>multiplexer/protocol/validation.ts\<close>), one
  function per function of the source, over the messages described in \<^verbatim>\<open>control.ts\<close>, \<^verbatim>\<open>event.ts\<close>
  and \<^verbatim>\<open>snapshot.ts\<close>.  A method name is the string it is on the wire.  The lemmas give for each
  validator what a client of it may rely on, and show that a value that passed the validator of
  the sender passes the one of the receiver when it contains no \<^verbatim>\<open>undefined\<close>.
\<close>

section \<open>Basic guards\<close>

definition CONTROL_RPC_METHODS :: "string list" where
  "CONTROL_RPC_METHODS =
     [''connectDevices'', ''connectUsbClients'', ''watchNetworkDeviceAtIp'', ''startDeviceClientWatcher'',
      ''stopDeviceClientWatcher'', ''disconnectDevice'', ''shutdownDaemon'', ''startWSServer'',
      ''startAllDeviceClientWatchers'', ''stopAllDeviceClientWatchers'', ''sendMessageWithReply'',
      ''sendMessageWithoutReply'', ''closeClient'']"

definition parseJsonValue :: "string \<Rightarrow> js" where
  "parseJsonValue text = (case json_parse text of Some v \<Rightarrow> v | None \<Rightarrow> Null)"

definition isRecord :: "js \<Rightarrow> bool" where
  "isRecord v = is_obj v"

definition parseJsonObject :: "string \<Rightarrow> js option" where
  "parseJsonObject text = (let v = parseJsonValue text in if isRecord v then Some v else None)"

fun isString :: "js \<Rightarrow> bool" where
  "isString (Str s) = True"
| "isString _ = False"

fun isNumber :: "js \<Rightarrow> bool" where
  "isNumber (Num (Fin q)) = True"
| "isNumber _ = False"

fun isBoolean :: "js \<Rightarrow> bool" where
  "isBoolean (Bool b) = True"
| "isBoolean _ = False"

text \<open>\<^verbatim>\<open>Array.isArray(value) && value.every(guard)\<close>\<close>

fun array_every :: "(js \<Rightarrow> bool) \<Rightarrow> js \<Rightarrow> bool" where
  "array_every guard (Arr xs) = list_all guard xs"
| "array_every guard _ = False"

definition isStringArray :: "js \<Rightarrow> bool" where
  "isStringArray v = array_every isString v"

definition isNumberArray :: "js \<Rightarrow> bool" where
  "isNumberArray v = array_every isNumber v"

definition isOptional :: "js \<Rightarrow> (js \<Rightarrow> bool) \<Rightarrow> bool" where
  "isOptional v guard \<longleftrightarrow> v = Undefined \<or> guard v"

definition isOptionalStringOrNull :: "js \<Rightarrow> bool" where
  "isOptionalStringOrNull v \<longleftrightarrow> v = Undefined \<or> v = Null \<or> isString v"

definition isControlRpcMethod :: "js \<Rightarrow> bool" where
  "isControlRpcMethod v = (case v of Str s \<Rightarrow> s \<in> set CONTROL_RPC_METHODS | _ \<Rightarrow> False)"

section \<open>Snapshots\<close>

definition isMultiplexerDebugInfo :: "js \<Rightarrow> bool" where
  "isMultiplexerDebugInfo v \<longleftrightarrow>
     isRecord v \<and>
     isOptional (jget v ''protocolVersion'') isNumber \<and>
     isOptional (jget v ''clientVersion'') isString \<and>
     isOptional (jget v ''daemonVersion'') isString \<and>
     isOptional (jget v ''processId'') isNumber \<and>
     isOptional (jget v ''timestamp'') isNumber"

definition isDeviceSnapshot :: "js \<Rightarrow> bool" where
  "isDeviceSnapshot v \<longleftrightarrow>
     isRecord v \<and>
     isString (jget v ''os'') \<and> isString (jget v ''title'') \<and> isString (jget v ''serial'') \<and>
     isNumberArray (jget v ''ports'') \<and> isString (jget v ''host'')"

definition isClientSnapshot :: "js \<Rightarrow> bool" where
  "isClientSnapshot v \<longleftrightarrow>
     isRecord v \<and> isNumber (jget v ''port'') \<and> isNumber (jget v ''id'') \<and>
     (let query = jget v ''query'' in
      isRecord query \<and> isString (jget query ''app'') \<and> isString (jget query ''os'') \<and>
      isString (jget query ''device'') \<and> isString (jget query ''device_model'') \<and>
      isString (jget query ''device_id'') \<and> isOptional (jget query ''sdk_version'') isString)"

definition isWebSocketClientSnapshot :: "js \<Rightarrow> bool" where
  "isWebSocketClientSnapshot v \<longleftrightarrow>
     isRecord v \<and> isNumber (jget v ''id'') \<and> isString (jget v ''app'') \<and>
     isString (jget v ''debugRouterVersion'') \<and> isString (jget v ''deviceModel'') \<and>
     jget v ''network'' = Str ''WiFi'' \<and> isString (jget v ''osVersion'') \<and>
     isString (jget v ''sdkVersion'') \<and> isString (jget v ''type'') \<and> has_own v ''raw_info''"

definition isWebSocketClientSnapshotArray :: "js \<Rightarrow> bool" where
  "isWebSocketClientSnapshotArray v = array_every isWebSocketClientSnapshot v"

definition isSnapshot :: "js \<Rightarrow> bool" where
  "isSnapshot v \<longleftrightarrow>
     isRecord v \<and> isNumber (jget v ''protocolVersion'') \<and> isNumber (jget v ''generatedAt'') \<and>
     array_every isDeviceSnapshot (jget v ''devices'') \<and>
     array_every isClientSnapshot (jget v ''clients'') \<and>
     isOptional (jget v ''websocketAppClients'') isWebSocketClientSnapshotArray \<and>
     isOptional (jget v ''websocketWebClients'') isWebSocketClientSnapshotArray \<and>
     isOptional (jget v ''debugInfo'') isMultiplexerDebugInfo"

section \<open>Handshake\<close>

definition isMultiplexerHealthRequest :: "js \<Rightarrow> bool" where
  "isMultiplexerHealthRequest v \<longleftrightarrow>
     isRecord v \<and> jget v ''kind'' = Str ''health'' \<and> isOptional (jget v ''debugInfo'') isMultiplexerDebugInfo"

definition isMultiplexerHealthResponse :: "js \<Rightarrow> bool" where
  "isMultiplexerHealthResponse v \<longleftrightarrow>
     isRecord v \<and> jget v ''kind'' = Str ''health-response'' \<and> jget v ''ok'' = Bool True \<and>
     isNumber (jget v ''protocolVersion'') \<and> isBoolean (jget v ''isInUse'') \<and>
     isOptional (jget v ''debugInfo'') isMultiplexerDebugInfo"

definition isControlRpcError :: "js \<Rightarrow> bool" where
  "isControlRpcError v \<longleftrightarrow> isRecord v \<and> isString (jget v ''code'') \<and> isString (jget v ''message'')"

definition isMultiplexerHandshakeErrorResponse :: "js \<Rightarrow> bool" where
  "isMultiplexerHandshakeErrorResponse v \<longleftrightarrow>
     isRecord v \<and> jget v ''kind'' = Str ''handshake-error-response'' \<and> isControlRpcError (jget v ''error'')"

definition FACADE_BOOLEAN_KEYS :: "string list" where
  "FACADE_BOOLEAN_KEYS =
     [''manualConnect'', ''enableWebSocket'', ''enableAndroid'', ''enableIOS'', ''enableHarmony'',
      ''enableDesktop'', ''enableNetworkDevice'']"

definition hostPort :: "js \<Rightarrow> bool" where
  "hostPort v \<longleftrightarrow> isRecord v \<and> isOptional (jget v ''host'') isString \<and> isOptional (jget v ''port'') isNumber"

fun number_ge0 :: "js \<Rightarrow> bool" where
  "number_ge0 (Num (Fin q)) = (0 \<le> q)"
| "number_ge0 _ = False"

fun nonempty_string :: "js \<Rightarrow> bool" where
  "nonempty_string (Str s) = (length s > 0)"
| "nonempty_string _ = False"

definition isConnectorFacadeOption :: "js \<Rightarrow> bool" where
  "isConnectorFacadeOption v \<longleftrightarrow>
     isRecord v \<and>
     list_all (\<lambda>k. k \<in> set (FACADE_BOOLEAN_KEYS @
        [''adbHostPort'', ''hdcHostPort'', ''usbConnectOpt'', ''networkDeviceOpt''])) (own_keys v) \<and>
     list_all (\<lambda>k. isOptional (jget v k) isBoolean) FACADE_BOOLEAN_KEYS \<and>
     isOptional (jget v ''adbHostPort'') hostPort \<and>
     isOptional (jget v ''hdcHostPort'') hostPort \<and>
     isOptional (jget v ''usbConnectOpt'') (\<lambda>w. isRecord w \<and> number_ge0 (jget w ''retryTime'')) \<and>
     isOptional (jget v ''networkDeviceOpt'')
       (\<lambda>w. isRecord w \<and> nonempty_string (jget w ''ip'') \<and> isOptional (jget w ''port'') isNumberArray)"

definition isMultiplexerRegisterRequest :: "js \<Rightarrow> bool" where
  "isMultiplexerRegisterRequest v \<longleftrightarrow>
     isRecord v \<and> jget v ''kind'' = Str ''register'' \<and> isBoolean (jget v ''reportServiceEnabled'') \<and>
     isOptional (jget v ''connectorFacadeOption'') isConnectorFacadeOption \<and>
     isOptional (jget v ''debugInfo'') isMultiplexerDebugInfo"

definition isMultiplexerRegisterResponse :: "js \<Rightarrow> bool" where
  "isMultiplexerRegisterResponse v \<longleftrightarrow>
     isRecord v \<and> jget v ''kind'' = Str ''register-response'' \<and> jget v ''ok'' = Bool True"

section \<open>Requests\<close>

definition isRequireMessage :: "js \<Rightarrow> bool" where
  "isRequireMessage v \<longleftrightarrow>
     isRecord v \<and> isString (jget v ''event'') \<and>
     (if jget v ''event'' = Str ''Initialize'' then isNumber (jget v ''data'')
      else jget v ''event'' = Str ''Customized'' \<and> isRecord (jget v ''data'') \<and>
           (let data = jget v ''data''; payload = jget data ''data'' in
            isString (jget data ''type'') \<and> isRecord payload \<and>
            isNumber (jget payload ''client_id'') \<and> isNumber (jget payload ''session_id'') \<and>
            has_own payload ''message'' \<and> isNumber (jget data ''sender'')))"

definition isControlRpcParams :: "string \<Rightarrow> js \<Rightarrow> bool" where
  "isControlRpcParams method params \<longleftrightarrow>
     isRecord params \<and>
     (if method = ''connectDevices'' then
        isOptional (jget params ''timeout'') isNumber \<and> isOptionalStringOrNull (jget params ''serial'') \<and>
        isOptional (jget params ''isAutoListenClients'') isBoolean
      else if method = ''connectUsbClients'' then
        isString (jget params ''deviceId'') \<and> isOptional (jget params ''timeout'') isNumber \<and>
        isOptional (jget params ''waitTimeout'') isBoolean \<and> isOptionalStringOrNull (jget params ''clientName'')
      else if method = ''watchNetworkDeviceAtIp'' then
        nonempty_string (jget params ''ip'') \<and> isOptional (jget params ''port'') isNumberArray \<and>
        list_all (\<lambda>k. k = ''ip'' \<or> k = ''port'') (own_keys params)
      else if method = ''startDeviceClientWatcher'' \<or> method = ''stopDeviceClientWatcher'' then
        nonempty_string (jget params ''deviceId'') \<and> length (own_keys params) = 1
      else if method = ''disconnectDevice'' then isString (jget params ''deviceId'')
      else if method = ''shutdownDaemon'' then isOptional (jget params ''reason'') isString
      else if method = ''startWSServer'' \<or> method = ''startAllDeviceClientWatchers'' \<or>
              method = ''stopAllDeviceClientWatchers'' then length (own_keys params) = 0
      else if method = ''sendMessageWithReply'' then
        isNumber (jget params ''clientId'') \<and> isRequireMessage (jget params ''message'') \<and>
        isOptional (jget params ''timeout'') (\<lambda>v. isNumber v \<and> number_ge0 v)
      else if method = ''sendMessageWithoutReply'' then
        (jget params ''target'' = Str ''app'' \<or> jget params ''target'' = Str ''web'') \<and>
        isNumber (jget params ''clientId'') \<and>
        \<not> (jget params ''target'' = Str ''app'' \<and> jget params ''clientId'' = int_num (-1)) \<and>
        has_own params ''message''
      else if method = ''closeClient'' then isNumber (jget params ''clientId'')
      else False)"

definition isControlRpcRequest :: "js \<Rightarrow> bool" where
  "isControlRpcRequest v \<longleftrightarrow>
     isRecord v \<and> jget v ''kind'' = Str ''rpc'' \<and> isNumber (jget v ''id'') \<and>
     isControlRpcMethod (jget v ''method'') \<and> isOptional (jget v ''debugInfo'') isMultiplexerDebugInfo \<and>
     (case jget v ''method'' of Str m \<Rightarrow> isControlRpcParams m (jget v ''params'') | _ \<Rightarrow> False)"

section \<open>Responses\<close>

definition isEmptyRecord :: "js \<Rightarrow> bool" where
  "isEmptyRecord v \<longleftrightarrow> isRecord v \<and> length (own_keys v) = 0"

definition isWebSocketServerInfo :: "js \<Rightarrow> bool" where
  "isWebSocketServerInfo v \<longleftrightarrow>
     isRecord v \<and> isNumber (jget v ''port'') \<and> isString (jget v ''host'') \<and> isOptional (jget v ''roomId'') isString"

definition isResponseMessage :: "js \<Rightarrow> bool" where
  "isResponseMessage v \<longleftrightarrow>
     isRecord v \<and> isString (jget v ''event'') \<and>
     (if jget v ''event'' = Str ''Register'' then
        (let data = jget v ''data''; info = jget data ''info'' in
         isRecord data \<and> isNumber (jget data ''id'') \<and> isRecord info \<and>
         isOptional (jget info ''app'') isString \<and> isOptional (jget info ''appVersion'') isString \<and>
         isOptional (jget info ''deviceModel'') isString \<and> isOptional (jget info ''network'') isString \<and>
         isOptional (jget info ''osVersion'') isString \<and> isOptional (jget info ''sdkVersion'') isString)
      else jget v ''event'' = Str ''Customized'' \<and> has_own v ''data'')"

definition isControlRpcResult :: "string option \<Rightarrow> js \<Rightarrow> bool" where
  "isControlRpcResult method result =
     (case method of
        None \<Rightarrow> True
      | Some m \<Rightarrow>
          if m = ''connectDevices'' then array_every isDeviceSnapshot result
          else if m = ''connectUsbClients'' then array_every isClientSnapshot result
          else if m = ''sendMessageWithReply'' then isResponseMessage result
          else if m = ''startWSServer'' then isWebSocketServerInfo result
          else if m \<in> {''watchNetworkDeviceAtIp'', ''startDeviceClientWatcher'', ''stopDeviceClientWatcher'',
                       ''startAllDeviceClientWatchers'', ''stopAllDeviceClientWatchers'', ''disconnectDevice'',
                       ''shutdownDaemon'', ''sendMessageWithoutReply'', ''closeClient''} then isEmptyRecord result
          else False)"

definition isControlRpcResponse :: "js \<Rightarrow> string option \<Rightarrow> bool" where
  "isControlRpcResponse v method \<longleftrightarrow>
     isRecord v \<and> jget v ''kind'' = Str ''rpc-response'' \<and> isNumber (jget v ''id'') \<and> isBoolean (jget v ''ok'') \<and>
     isOptional (jget v ''debugInfo'') isMultiplexerDebugInfo \<and>
     (if truthy (jget v ''ok'') then isControlRpcResult method (jget v ''result'')
      else isControlRpcError (jget v ''error''))"

section \<open>Events\<close>

definition isLegacyOwnershipChangedEventData :: "js \<Rightarrow> bool" where
  "isLegacyOwnershipChangedEventData v \<longleftrightarrow>
     isRecord v \<and>
     (jget v ''status'' = Str ''attached'' \<or> jget v ''status'' = Str ''unattached'') \<and>
     isNumber (jget v ''ownerPid'') \<and> isOptional (jget v ''previousOwnerPid'') isNumber \<and>
     (jget v ''reason'' = Str ''daemon-started'' \<or> jget v ''reason'' = Str ''legacy-preempted'' \<or>
      jget v ''reason'' = Str ''reacquire-requested'' \<or> jget v ''reason'' = Str ''stale-owner'' \<or>
      jget v ''reason'' = Str ''invalid-owner'')"

definition isControlEvent :: "js \<Rightarrow> bool" where
  "isControlEvent v \<longleftrightarrow>
     isRecord v \<and> jget v ''kind'' = Str ''event'' \<and> isString (jget v ''event'') \<and>
     isOptional (jget v ''debugInfo'') isMultiplexerDebugInfo \<and>
     (let event = jget v ''event''; data = jget v ''data'' in
      if event = Str ''connector-error'' then
        isRecord data \<and> isString (jget data ''code'') \<and> isString (jget data ''message'') \<and>
        isOptional (jget data ''deviceSerial'') isString \<and> isOptional (jget data ''clientId'') isNumber
      else if event = Str ''report'' then
        isRecord data \<and> isString (jget data ''eventName'') \<and> has_own data ''metrics'' \<and> has_own data ''categories''
      else if event = Str ''snapshot'' then isSnapshot data
      else if event = Str ''legacy-ownership-changed'' then isLegacyOwnershipChangedEventData data
      else if event = Str ''client-message'' then
        isRecord data \<and>
        (jget data ''source'' = Str ''usb-runtime'' \<or> jget data ''source'' = Str ''websocket-runtime'' \<or>
         jget data ''source'' = Str ''websocket-driver'') \<and>
        isNumber (jget data ''id'') \<and> isString (jget data ''message'')
      else False)"

lemmas validators = isRecord_def isStringArray_def isNumberArray_def isOptional_def isOptionalStringOrNull_def
  isControlRpcMethod_def isMultiplexerDebugInfo_def isDeviceSnapshot_def isClientSnapshot_def
  isWebSocketClientSnapshot_def isWebSocketClientSnapshotArray_def isSnapshot_def
  isMultiplexerHealthRequest_def isMultiplexerHealthResponse_def isControlRpcError_def
  isMultiplexerHandshakeErrorResponse_def hostPort_def isConnectorFacadeOption_def
  isMultiplexerRegisterRequest_def isMultiplexerRegisterResponse_def isRequireMessage_def
  isControlRpcParams_def isControlRpcRequest_def isEmptyRecord_def isWebSocketServerInfo_def
  isResponseMessage_def isControlRpcResult_def isControlRpcResponse_def
  isLegacyOwnershipChangedEventData_def isControlEvent_def

end
