(* ===== verification/Message_Rewrite.thy ===== *)
theory Message_Rewrite
  imports Js_Json Protocol_Validation
begin

text \<open>
  The message functions at the end of \<^verbatim>\<open>multiplexer/daemon/MultiplexerDaemonHost.ts\<close>: finding the
  inner message of a \<^verbatim>\<open>Customized\<close> envelope, replacing its id on the way to a runtime and putting
  it back on the way home, and adapting client ids.

  The source changes objects in place: \<^verbatim>\<open>payload.container\<close> is the object \<^verbatim>\<open>data.data.data\<close> and, when
  it was not a string, \<^verbatim>\<open>payload.message\<close> is the object \<^verbatim>\<open>data.data.data.message\<close>.  The model
  writes the changed container back into the envelope (\<open>put_container\<close>), which is what every
  holder of the envelope sees.
\<close>

section \<open>Definitions\<close>

definition cloneJsonValue :: "js \<Rightarrow> js" where
  "cloneJsonValue v =
     (if v = Undefined \<or> v = Null then v
      else case Option.bind (json_stringify v) json_parse of None \<Rightarrow> Undefined | Some w \<Rightarrow> w)"

definition parseJsonMessageOrNull :: "string \<Rightarrow> js" where
  "parseJsonMessageOrNull s = (case json_parse s of None \<Rightarrow> Null | Some v \<Rightarrow> v)"

record customized_payload =
  container :: js
  inner :: js
  messageWasString :: bool

definition getCustomizedPayload :: "js \<Rightarrow> customized_payload option" where
  "getCustomizedPayload data =
     (let c = jget (jget data ''data'') ''data'' in
      if \<not> truthy c \<or> \<not> has_own c ''message'' then None
      else let raw = jget c ''message'';
               wasString = isString raw;
               m = (case raw of Str s \<Rightarrow> parseJsonMessageOrNull s | _ \<Rightarrow> raw)
           in if \<not> is_object m then None
              else Some \<lparr>container = c, inner = m, messageWasString = wasString\<rparr>)"

definition getValidMessageId :: "js \<Rightarrow> int option" where
  "getValidMessageId message = safe_integer (jget message ''id'')"

definition getRoutableCustomizedPayload :: "js \<Rightarrow> customized_payload option" where
  "getRoutableCustomizedPayload data =
     (case getCustomizedPayload data of
        None \<Rightarrow> None
      | Some p \<Rightarrow> if getValidMessageId (inner p) = None then None else Some p)"

definition put_container :: "js \<Rightarrow> js \<Rightarrow> js" where
  "put_container data c = jput data ''data'' (jput (jget data ''data'') ''data'' c)"

text \<open>
  \<open>set_message_id i p\<close> is \<^verbatim>\<open>customized.message.id = i\<close>.  \<open>writeCustomizedMessage\<close> returns the
  envelope after the payload was changed.
\<close>

definition set_message_id :: "int \<Rightarrow> customized_payload \<Rightarrow> customized_payload" where
  "set_message_id i p = p\<lparr>inner := jput (inner p) ''id'' (int_num i)\<rparr>"

definition writeCustomizedMessage :: "customized_payload \<Rightarrow> js \<Rightarrow> js" where
  "writeCustomizedMessage p data =
     put_container data (jput (container p) ''message''
       (if messageWasString p then Str (show_js (inner p)) else inner p))"

text \<open>\<^verbatim>\<open>{...v}\<close>: the own enumerable properties; the keys of an array or a string are its indices.\<close>

fun own_props :: "js \<Rightarrow> (string \<times> js) list" where
  "own_props (Obj ps) = ps"
| "own_props (Arr xs) = zip (map show_nat [0..<length xs]) xs"
| "own_props (Str s) = zip (map show_nat [0..<length s]) (map (\<lambda>c. Str [c]) s)"
| "own_props _ = []"

definition normalizeRawResponse :: "js \<Rightarrow> int \<Rightarrow> js" where
  "normalizeRawResponse data clientId =
     (let payload = jget (jget data ''data'') ''data'' in
      if \<not> truthy payload then data
      else let r = Obj (own_props payload);
               r1 = (if has_own r ''client_id'' then jput r ''client_id'' (int_num clientId) else r);
               r2 = (if has_own r1 ''message'' \<and> \<not> isString (jget r1 ''message'')
                     then jput r1 ''message''
                            (case json_stringify (jget r1 ''message'') of None \<Rightarrow> Undefined | Some s \<Rightarrow> Str s)
                     else r1)
           in put_container data r2)"

definition rewriteRuntimeClientIdData :: "js \<Rightarrow> int \<Rightarrow> js" where
  "rewriteRuntimeClientIdData data clientId =
     (let d = jget data ''data'';
          data1 = (if truthy d \<and> has_own d ''sender''
                   then jput data ''data'' (jput d ''sender'' (int_num clientId)) else data);
          c = jget (jget data1 ''data'') ''data''
      in if truthy c \<and> has_own c ''client_id''
         then put_container data1 (jput c ''client_id'' (int_num clientId)) else data1)"

section \<open>What a payload is\<close>

lemma wf_rat_numeral [simp]: "wf_rat 0" "wf_rat 1" "wf_rat (numeral n)" "wf_rat (- 1)" "wf_rat (- numeral n)"
  using wf_rat_int [of 0] wf_rat_int [of 1] wf_rat_int [of "numeral n"] wf_rat_int [of "- 1"]
    wf_rat_int [of "- numeral n"]
  by simp_all

lemma clone_wf: "wf_json v \<Longrightarrow> cloneJsonValue v = v"
  by (cases "v = Undefined") (auto simp: cloneJsonValue_def json_roundtrip_stringify json_roundtrip)

lemma parseOrNull_wf: "wf_json (parseJsonMessageOrNull s)"
  by (auto simp: parseJsonMessageOrNull_def json_parse_wf split: option.split)

lemma put_container_get:
  assumes "is_obj data" and "is_obj (jget data ''data'')"
  shows "jget (jget (put_container data c) ''data'') ''data'' = c"
    and "is_obj (put_container data c)" and "is_obj (jget (put_container data c) ''data'')"
  using assms by (simp_all add: put_container_def)

lemma put_container_put:
  assumes "is_obj data" and "is_obj (jget data ''data'')"
  shows "put_container (put_container data c) c' = put_container data c'"
  using assms by (simp add: put_container_def)

lemma is_obj_has_own: "is_obj v \<Longrightarrow> jget v k \<noteq> Undefined \<Longrightarrow> has_own v k"
  by (cases v) (auto split: option.splits)

lemma jget_obj_own: "is_obj (jget v k) \<Longrightarrow> is_obj v \<and> has_own v k"
  by (cases v) (auto split: option.splits)

lemma put_container_same:
  assumes "is_obj (jget (jget data ''data'') ''data'')"
  shows "put_container data (jget (jget data ''data'') ''data'') = data"
proof -
  note d = jget_obj_own [OF assms]
  note dd = jget_obj_own [OF d [THEN conjunct1]]
  from d dd show ?thesis by (simp add: put_container_def)
qed

lemma payload_shape:
  assumes "getCustomizedPayload data = Some p"
  shows "container p = jget (jget data ''data'') ''data''" and "has_own (container p) ''message''"
    and "is_obj (container p)" and "is_obj (jget data ''data'')" and "is_obj data"
    and "is_object (inner p)"
    and "messageWasString p = isString (jget (container p) ''message'')"
    and "\<not> messageWasString p \<Longrightarrow> inner p = jget (container p) ''message''"
    and "wf_json data \<Longrightarrow> wf_json (inner p)"
proof -
  let ?c = "jget (jget data ''data'') ''data''"
  from assms have c: "container p = ?c" and m: "has_own (container p) ''message''"
    and o: "is_object (inner p)" and s: "messageWasString p = isString (jget (container p) ''message'')"
    by (auto simp: getCustomizedPayload_def Let_def split: if_splits)
  show "container p = ?c" "has_own (container p) ''message''" "is_object (inner p)"
    "messageWasString p = isString (jget (container p) ''message'')" by fact+
  show obj: "is_obj (container p)" using m by (rule has_own_is_obj)
  then show d: "is_obj (jget data ''data'')" unfolding c using jget_obj_own by blast
  then show dd: "is_obj data" using jget_obj_own by blast
  show "\<not> messageWasString p \<Longrightarrow> inner p = jget (container p) ''message''"
    using assms by (auto simp: getCustomizedPayload_def Let_def split: if_splits js.splits)
  assume wf: "wf_json data"
  have "wf_json ?c"
    using wf jget_obj_own [OF obj [unfolded c]] jget_obj_own [OF d] by (intro wf_json_jget) auto
  then have "wf_json (jget ?c ''message'')" using m unfolding c by (rule wf_json_jget)
  then show "wf_json (inner p)"
    using assms by (auto simp: getCustomizedPayload_def Let_def parseOrNull_wf split: if_splits js.splits)
qed


section \<open>Rewriting and restoring the id\<close>

lemma is_obj_is_object: "is_obj v \<Longrightarrow> is_object v"
  by (cases v) auto

lemma is_object_id: "is_object m \<Longrightarrow> getValidMessageId m = Some i \<Longrightarrow> is_obj m"
  by (cases m) (auto simp: getValidMessageId_def)

lemma writeCustomized_get:
  assumes p: "getCustomizedPayload data = Some p" and q: "container q = container p"
    "messageWasString q = messageWasString p" "is_object (inner q)" "wf_json (inner q)"
  shows "getCustomizedPayload (writeCustomizedMessage q data) =
    Some (q\<lparr>container := jput (container p) ''message''
           (if messageWasString p then Str (show_js (inner q)) else inner q)\<rparr>)"
proof -
  note sh = payload_shape [OF p]
  define raw where "raw = (if messageWasString p then Str (show_js (inner q)) else inner q)"
  have r: "isString raw = messageWasString p"
    "(case raw of Str s \<Rightarrow> parseJsonMessageOrNull s | _ \<Rightarrow> raw) = inner q"
    unfolding raw_def using q(3) json_roundtrip [OF q(4)]
    by (cases "messageWasString p"; cases "inner q"; simp add: parseJsonMessageOrNull_def del: show_js.simps)+
  have g: "jget (jput (container p) ''message'' raw) ''message'' = raw" using sh(3) by simp
  have "getCustomizedPayload (put_container data (jput (container p) ''message'' raw)) =
    Some (q\<lparr>container := jput (container p) ''message'' raw\<rparr>)"
    unfolding getCustomizedPayload_def Let_def put_container_get [OF sh(5,4)] g
    using sh(3) r q by (cases q) simp
  then show ?thesis unfolding writeCustomizedMessage_def q(1,2) raw_def .
qed


lemma write_write:
  assumes "getCustomizedPayload data = Some p" and "container q = jput (container p) ''message'' w"
    and "container q' = container p" "messageWasString q' = messageWasString q"
    and "inner q' = inner q"
  shows "writeCustomizedMessage q (put_container data c) = writeCustomizedMessage q' data"
  using payload_shape [OF assms(1)] assms(2-)
  by (simp add: writeCustomizedMessage_def put_container_put)

lemma routable_inner_obj:
  assumes "getRoutableCustomizedPayload data = Some p"
  shows "getCustomizedPayload data = Some p" and "is_obj (inner p)"
proof -
  show p: "getCustomizedPayload data = Some p"
    using assms by (auto simp: getRoutableCustomizedPayload_def split: option.splits if_splits)
  obtain i where "getValidMessageId (inner p) = Some i"
    using assms by (auto simp: getRoutableCustomizedPayload_def split: option.splits if_splits)
  then show "is_obj (inner p)" using payload_shape(6) [OF p] by (rule is_object_id [rotated])
qed

lemma set_id_payload:
  assumes wf: "wf_json data" and p: "getRoutableCustomizedPayload data = Some p" and g: "\<bar>g\<bar> \<le> max_safe_integer"
  obtains p' where "getCustomizedPayload (writeCustomizedMessage (set_message_id g p) data) = Some p'"
    "inner p' = inner (set_message_id g p)" "messageWasString p' = messageWasString p"
    "\<exists>w. container p' = jput (container p) ''message'' w"
    "getValidMessageId (inner p') = Some g" "\<forall>k. k \<noteq> ''id'' \<longrightarrow> jget (inner p') k = jget (inner p) k"
proof -
  note q = routable_inner_obj [OF p]
  have w: "wf_json (inner (set_message_id g p))" "is_object (inner (set_message_id g p))"
    using q(2) payload_shape(9) [OF q(1) wf] wf_json_int [of g] unfolding set_message_id_def
    by (simp_all add: is_obj_is_object wf_json_jput del: wf_json.simps)
  have "getValidMessageId (inner (set_message_id g p)) = Some g"
    "\<forall>k. k \<noteq> ''id'' \<longrightarrow> jget (inner (set_message_id g p)) k = jget (inner p) k"
    using q(2) g by (simp_all add: set_message_id_def getValidMessageId_def)
  then show thesis
    using that writeCustomized_get [OF q(1) _ _ w(2,1)] by (force simp: set_message_id_def)
qed

text \<open>
  (C19) The round trip of a message id.  Replacing the id of a routable message by a global id gives
  an envelope in which that global id is found again, and writing the original id back gives the
  original envelope; a message that was a string is the string JSON prints for it.  Nothing but
  the id changes in between.
\<close>

theorem message_id_roundtrip:
  assumes wf: "wf_json data" and p: "getRoutableCustomizedPayload data = Some p"
    and i: "getValidMessageId (inner p) = Some i" and g: "\<bar>g\<bar> \<le> max_safe_integer"
  shows "\<exists>p'. getCustomizedPayload (writeCustomizedMessage (set_message_id g p) data) = Some p' \<and>
     getValidMessageId (inner p') = Some g \<and>
     (\<forall>k. k \<noteq> ''id'' \<longrightarrow> jget (inner p') k = jget (inner p) k) \<and>
     writeCustomizedMessage (set_message_id i p') (writeCustomizedMessage (set_message_id g p) data) =
       writeCustomizedMessage p data \<and>
     (\<not> messageWasString p \<longrightarrow> writeCustomizedMessage p data = data) \<and>
     map_option inner (getCustomizedPayload (writeCustomizedMessage p data)) = Some (inner p)"
proof -
  note pp = routable_inner_obj [OF p]
  note sh = payload_shape [OF pp(1)]
  let ?q = "set_message_id g p"
  obtain p' where p': "getCustomizedPayload (writeCustomizedMessage ?q data) = Some p'"
    "inner p' = inner ?q" "messageWasString p' = messageWasString p"
    "\<exists>w. container p' = jput (container p) ''message'' w"
    "getValidMessageId (inner p') = Some g" "\<forall>k. k \<noteq> ''id'' \<longrightarrow> jget (inner p') k = jget (inner p) k"
    using set_id_payload [OF wf p g] by blast
  have iv: "jget (inner p) ''id'' = int_num i" using safe_integer_SomeD i by (auto simp: getValidMessageId_def)
  then have "has_own (inner p) ''id''" using pp(2) by (auto intro!: is_obj_has_own)
  from jput_same [OF this] have orig: "inner (set_message_id i p') = inner p"
    by (simp add: p'(2) set_message_id_def iv)
  have "writeCustomizedMessage (set_message_id i p') (writeCustomizedMessage ?q data) = writeCustomizedMessage p data"
    using p'(4) unfolding writeCustomizedMessage_def [of ?q]
    by (elim exE, intro write_write [OF pp(1)]) (use orig p'(3) in \<open>simp_all add: set_message_id_def\<close>)
  moreover have "writeCustomizedMessage p data = data" if "\<not> messageWasString p"
    using that sh(8) [OF that] jput_same [OF sh(2)] put_container_same [of data] sh(1,3)
    by (simp add: writeCustomizedMessage_def)
  moreover have "map_option inner (getCustomizedPayload (writeCustomizedMessage p data)) = Some (inner p)"
    using writeCustomized_get [OF pp(1) refl refl sh(6) sh(9) [OF wf]] by simp
  ultimately show ?thesis using p'(1,5,6) by blast
qed

definition sample_request :: js where
  "sample_request = Obj [(''event'', Str ''Customized''), (''data'', Obj [(''type'', Str ''CDP''),
     (''data'', Obj [(''client_id'', int_num 3), (''message'', Obj [(''id'', int_num 7)])]), (''sender'', int_num 1)])]"

theorem message_id_roundtrip_witness:
  "\<exists>p p'. getRoutableCustomizedPayload sample_request = Some p \<and>
     getCustomizedPayload (writeCustomizedMessage (set_message_id 41 p) sample_request) = Some p' \<and>
     getValidMessageId (inner p') = Some 41"
proof -
  have wf: "wf_json sample_request"
    by (simp add: sample_request_def)
  have p: "getRoutableCustomizedPayload sample_request =
    Some \<lparr>container = Obj [(''client_id'', int_num 3), (''message'', Obj [(''id'', int_num 7)])],
          inner = Obj [(''id'', int_num 7)], messageWasString = False\<rparr>"
    by (simp add: sample_request_def getRoutableCustomizedPayload_def getCustomizedPayload_def getValidMessageId_def Let_def)
  show ?thesis
    using message_id_roundtrip [OF wf p, of 7 41] p by (auto simp: getValidMessageId_def)
qed

section \<open>Replies and notifications\<close>

text \<open>
  (C20) The reply given to a requester.  For a \<^verbatim>\<open>Customized\<close> envelope with an inner message, the
  normalized reply passes the connector's \<^verbatim>\<open>isResponseMessage\<close>, its client id, if it has one, is the
  daemon's id of the runtime, its message is a string from which the connector parses the very
  message the runtime sent, and every other field of the payload is unchanged.
\<close>

theorem normalized_reply:
  fixes c :: int
  assumes wf: "wf_json data" and p: "getCustomizedPayload data = Some p"
    and e: "jget data ''event'' = Str ''Customized''"
  defines "r \<equiv> normalizeRawResponse data c"
  shows "isControlRpcResult (Some ''sendMessageWithReply'') r \<and>
     (let payload = jget (jget r ''data'') ''data'' in
      jget payload ''client_id'' = (if has_own (container p) ''client_id'' then int_num c else Undefined) \<and>
      (\<exists>s. jget payload ''message'' = Str s \<and> parseJsonMessageOrNull s = inner p) \<and>
      (\<forall>k. k \<notin> {''client_id'', ''message''} \<longrightarrow> jget payload k = jget (container p) k))"
proof -
  note sh = payload_shape [OF p]
  obtain ps where ps: "container p = Obj ps" using sh(3) by (cases "container p") auto
  then have own: "Obj (own_props (container p)) = container p" by simp
  define r1 where "r1 = (if has_own (container p) ''client_id'' then jput (container p) ''client_id'' (int_num c)
    else container p)"
  have r1: "is_obj r1" "has_own r1 ''message''" "jget r1 ''message'' = jget (container p) ''message''"
    using sh(2,3) by (auto simp: r1_def)
  define w where "w = (if isString (jget r1 ''message'') then jget r1 ''message''
    else case json_stringify (jget r1 ''message'') of None \<Rightarrow> Undefined | Some s \<Rightarrow> Str s)"
  have r: "r = put_container data (jput r1 ''message'' w)"
    using sh(1,3) r1(2) jput_same [OF r1(2)]
    unfolding r_def normalizeRawResponse_def w_def Let_def sh(1) [symmetric] own r1_def [symmetric] by simp
  have "\<exists>s. w = Str s \<and> parseJsonMessageOrNull s = inner p"
  proof (cases "messageWasString p")
    case True
    then obtain s where "jget (container p) ''message'' = Str s"
      using sh(7) by (cases "jget (container p) ''message''") auto
    then show ?thesis
      using p r1(3) ps sh(1) by (auto simp: w_def getCustomizedPayload_def Let_def split: if_splits)
  next
    case False
    then show ?thesis
      using sh(7) sh(8) [OF False] sh(9) [OF wf] r1(3)
      by (simp add: w_def json_roundtrip_stringify json_roundtrip parseJsonMessageOrNull_def del: show_js.simps)
  qed
  moreover have "isControlRpcResult (Some ''sendMessageWithReply'') r"
    using sh(5) e by (simp add: isControlRpcResult_def isResponseMessage_def r put_container_def isRecord_def)
  moreover have "\<forall>k. k \<notin> {''client_id'', ''message''} \<longrightarrow> jget r1 k = jget (container p) k"
    "jget r1 ''client_id'' = (if has_own (container p) ''client_id'' then int_num c else Undefined)"
    using sh(3) ps by (auto simp: r1_def)
  ultimately show ?thesis
    using put_container_get(1) [OF sh(5,4)] r1(1) by (simp add: r)
qed

theorem normalized_reply_witness:
  "isControlRpcResult (Some ''sendMessageWithReply'') (normalizeRawResponse sample_request 12) \<and>
   jget (jget (jget (normalizeRawResponse sample_request 12) ''data'') ''data'') ''client_id'' = int_num 12"
proof -
  have p: "getCustomizedPayload sample_request =
    Some \<lparr>container = Obj [(''client_id'', int_num 3), (''message'', Obj [(''id'', int_num 7)])],
          inner = Obj [(''id'', int_num 7)], messageWasString = False\<rparr>"
    by (simp add: sample_request_def getCustomizedPayload_def Let_def)
  have "wf_json sample_request" "jget sample_request ''event'' = Str ''Customized''"
    by (simp_all add: sample_request_def)
  from normalized_reply [OF this(1) p this(2), of 12] show ?thesis by (simp add: Let_def)
qed

text \<open>What a Web frontend is given differs from what the runtime sent only in the runtime's identity.\<close>

lemma rewriteRuntimeClientId_payload:
  assumes p: "getCustomizedPayload data = Some p"
  shows "\<exists>p'. getCustomizedPayload (rewriteRuntimeClientIdData data c) = Some p' \<and> inner p' = inner p \<and>
    (has_own (container p) ''client_id'' \<longrightarrow> jget (container p') ''client_id'' = int_num c)"
proof -
  note sh = payload_shape [OF p]
  define data1 where "data1 = (if truthy (jget data ''data'') \<and> has_own (jget data ''data'') ''sender''
    then jput data ''data'' (jput (jget data ''data'') ''sender'' (int_num c)) else data)"
  have d1: "is_obj data1" "is_obj (jget data1 ''data'')" "jget (jget data1 ''data'') ''data'' = container p"
    using sh(1,4,5) by (auto simp: data1_def)
  define k where "k = (if has_own (container p) ''client_id'' then jput (container p) ''client_id'' (int_num c)
    else container p)"
  have k: "is_obj k" "has_own k ''message''" "jget k ''message'' = jget (container p) ''message''"
    using sh(2,3) by (auto simp: k_def)
  have "jget (jget (rewriteRuntimeClientIdData data c) ''data'') ''data'' = k"
    using d1 sh(3) put_container_get(1) [OF d1(1,2)]
    unfolding rewriteRuntimeClientIdData_def Let_def data1_def [symmetric] k_def by simp
  then have "getCustomizedPayload (rewriteRuntimeClientIdData data c) = Some (p\<lparr>container := k\<rparr>)"
    using p k sh(1,2) unfolding getCustomizedPayload_def by (auto simp: Let_def split: if_splits)
  then show ?thesis using sh(3) by (auto simp: k_def)
qed

end
