(* ===== verification/Pending_Routes.thy ===== *)
theory Pending_Routes
  imports Mux_Prelude
begin

text \<open>
  The pending-route table of the daemon (\<^verbatim>\<open>multiplexer/daemon/PendingRouteTable.ts\<close>).  A request
  forwarded to a runtime is registered under a fresh global message id; the response, the
  timeout or a bulk removal takes the route out again.

  The state holds the map of routes, the id counter and, as an explicit store, the Node.js timers
  the table has armed: a handle, the time it is due and the global message id its callback closes
  over.  The callbacks \<^verbatim>\<open>resolve\<close> and \<^verbatim>\<open>reject\<close> of a route are the number of the promise they
  settle.  \<open>wf_table\<close> is the invariant; in it the armed timers are determined by the routes.
  \<open>table_run\<close> runs any sequence of operations and collects the routes that left the table.
\<close>

section \<open>State\<close>

datatype requester_kind = Control | Websocket

record pending_route_input =
  kind :: requester_kind
  requesterId :: int
  originalId :: int
  route_clientId :: int
  route_timeoutMs :: "int option"
  resolve :: "nat option"
  reject :: "nat option"

record pending_route = pending_route_input +
  globalMessageId :: int
  createdAt :: int
  timer :: nat

record pending_route_table =
  routes :: "(int, pending_route) jsmap"
  nextGlobalMessageId :: int
  table_timeoutMs :: int
  armed :: "(nat, int \<times> int) jsmap"
  next_handle :: nat

definition DEFAULT_PENDING_ROUTE_TIMEOUT_MS :: int where
  "DEFAULT_PENDING_ROUTE_TIMEOUT_MS = 100000"

definition new_PendingRouteTable :: "int option \<Rightarrow> pending_route_table" where
  "new_PendingRouteTable ms =
     \<lparr>routes = [], nextGlobalMessageId = 1,
      table_timeoutMs = (case ms of None \<Rightarrow> DEFAULT_PENDING_ROUTE_TIMEOUT_MS | Some d \<Rightarrow> d),
      armed = [], next_handle = 0\<rparr>"

section \<open>Operations\<close>

definition createGlobalMessageId :: "pending_route_table \<Rightarrow> int \<times> pending_route_table" where
  "createGlobalMessageId t =
     (nextGlobalMessageId t, t\<lparr>nextGlobalMessageId := nextGlobalMessageId t + 1\<rparr>)"

text \<open>\<open>createTimer\<close> arms the timer; \<open>timer_callback\<close> below is the function it will run.\<close>

definition createTimer :: "int \<Rightarrow> int \<Rightarrow> int \<Rightarrow> pending_route_table \<Rightarrow> nat \<times> pending_route_table" where
  "createTimer now gid ms t =
     (next_handle t,
      t\<lparr>armed := AList.update (next_handle t) (now + node_delay ms, gid) (armed t),
        next_handle := Suc (next_handle t)\<rparr>)"

definition clear_timer :: "nat \<Rightarrow> pending_route_table \<Rightarrow> pending_route_table" where
  "clear_timer h t = t\<lparr>armed := AList.delete h (armed t)\<rparr>"

definition effective_timeout :: "pending_route_table \<Rightarrow> 'a pending_route_input_scheme \<Rightarrow> int" where
  "effective_timeout t i = (case route_timeoutMs i of None \<Rightarrow> table_timeoutMs t | Some d \<Rightarrow> d)"

definition add_route ::
    "int \<Rightarrow> pending_route_input \<Rightarrow> pending_route_table \<Rightarrow> pending_route \<times> pending_route_table" where
  "add_route now input t =
     (let (gid, t1) = createGlobalMessageId t;
          (h, t2) = createTimer now gid (effective_timeout t1 input) t1;
          route = pending_route_input.extend input \<lparr>globalMessageId = gid, createdAt = now, timer = h\<rparr>
      in (route, t2\<lparr>routes := AList.update gid route (routes t2)\<rparr>))"

definition get_route :: "int \<Rightarrow> pending_route_table \<Rightarrow> pending_route option" where
  "get_route gid t = map_of (routes t) gid"

definition remove_route ::
    "int \<Rightarrow> bool \<Rightarrow> pending_route_table \<Rightarrow> pending_route option \<times> pending_route_table" where
  "remove_route gid shouldClearTimer t =
     (case map_of (routes t) gid of
        None \<Rightarrow> (None, t)
      | Some route \<Rightarrow>
          let t1 = t\<lparr>routes := AList.delete gid (routes t)\<rparr>
          in (Some route, if shouldClearTimer then clear_timer (timer route) t1 else t1))"

definition take_route :: "int \<Rightarrow> pending_route_table \<Rightarrow> pending_route option \<times> pending_route_table" where
  "take_route gid t = remove_route gid True t"

text \<open>The loop of \<^verbatim>\<open>clearMatching\<close> over the values the map had when it started.\<close>

fun clear_loop ::
    "(pending_route \<Rightarrow> bool) \<Rightarrow> pending_route list \<Rightarrow> pending_route_table
     \<Rightarrow> pending_route list \<times> pending_route_table" where
  "clear_loop matches [] t = ([], t)"
| "clear_loop matches (r # rs) t =
     (if \<not> matches r then clear_loop matches rs t
      else let (route, t1) = remove_route (globalMessageId r) True t;
               (removed, t2) = clear_loop matches rs t1
           in ((case route of None \<Rightarrow> removed | Some x \<Rightarrow> x # removed), t2))"

definition clearMatching ::
    "(pending_route \<Rightarrow> bool) \<Rightarrow> pending_route_table \<Rightarrow> pending_route list \<times> pending_route_table" where
  "clearMatching matches t = clear_loop matches (map_values (routes t)) t"

definition clearByControlId :: "int \<Rightarrow> pending_route_table \<Rightarrow> pending_route list \<times> pending_route_table" where
  "clearByControlId controlId = clearMatching (\<lambda>r. kind r = Control \<and> requesterId r = controlId)"

definition clearByWebClientId :: "int \<Rightarrow> pending_route_table \<Rightarrow> pending_route list \<times> pending_route_table" where
  "clearByWebClientId webClientId = clearMatching (\<lambda>r. kind r = Websocket \<and> requesterId r = webClientId)"

definition clearByClientId :: "int \<Rightarrow> pending_route_table \<Rightarrow> pending_route list \<times> pending_route_table" where
  "clearByClientId cid = clearMatching (\<lambda>r. route_clientId r = cid)"

definition clear_routes :: "pending_route_table \<Rightarrow> pending_route list \<times> pending_route_table" where
  "clear_routes = clearMatching (\<lambda>r. True)"

text \<open>
  The timer's callback: the promise it rejects, if any.  \<open>fire_timer\<close> is the event loop running
  the callback of an armed handle, which is no longer armed then.
\<close>

definition timer_callback :: "int \<Rightarrow> pending_route_table \<Rightarrow> nat option \<times> pending_route_table" where
  "timer_callback gid t =
     (case remove_route gid False t of
        (None, t1) \<Rightarrow> (None, t1)
      | (Some route, t1) \<Rightarrow> ((if kind route = Control then reject route else None), t1))"

definition fire_timer :: "nat \<Rightarrow> pending_route_table \<Rightarrow> nat option \<times> pending_route_table" where
  "fire_timer h t =
     (case map_of (armed t) h of
        None \<Rightarrow> (None, t)
      | Some (due, gid) \<Rightarrow> timer_callback gid (clear_timer h t))"

section \<open>The invariant\<close>

text \<open>The timers the routes of a table account for, in the order of the routes.\<close>

definition timers_of :: "int \<Rightarrow> (int, pending_route) jsmap \<Rightarrow> (nat, int \<times> int) jsmap" where
  "timers_of dflt rs =
     map (\<lambda>(k, r). (timer r, (createdAt r +
            node_delay (case route_timeoutMs r of None \<Rightarrow> dflt | Some d \<Rightarrow> d), k))) rs"

definition wf_table :: "pending_route_table \<Rightarrow> bool" where
  "wf_table t \<longleftrightarrow>
     sorted_wrt (<) (map_keys (routes t)) \<and>
     (\<forall>(k, r) \<in> set (routes t). globalMessageId r = k \<and> 1 \<le> k \<and> k < nextGlobalMessageId t \<and>
        timer r < next_handle t) \<and>
     distinct (map (timer \<circ> snd) (routes t)) \<and>
     armed t = timers_of (table_timeoutMs t) (routes t) \<and>
     1 \<le> nextGlobalMessageId t"

lemma wf_tableD:
  assumes "wf_table t"
  shows "sorted_wrt (<) (map_keys (routes t))"
    and "\<And>k r. (k, r) \<in> set (routes t) \<Longrightarrow>
      globalMessageId r = k \<and> 1 \<le> k \<and> k < nextGlobalMessageId t \<and> timer r < next_handle t"
    and "distinct (map (timer \<circ> snd) (routes t))"
    and "armed t = timers_of (table_timeoutMs t) (routes t)"
    and "1 \<le> nextGlobalMessageId t"
  using assms by (auto simp: wf_table_def)

lemma wf_table_map: "wf_table t \<Longrightarrow> wf_map (routes t)"
  using strict_sorted_imp_sorted by (auto simp: wf_table_def wf_map_def strict_sorted_iff)

lemma wf_table_lookup:
  assumes "wf_table t" and "map_of (routes t) k = Some r"
  shows "(k, r) \<in> set (routes t)" and "globalMessageId r = k" and "1 \<le> k"
    and "k < nextGlobalMessageId t" and "timer r < next_handle t"
  using assms wf_tableD(2) [OF assms(1)] by (auto dest!: map_of_SomeD)

lemma wf_table_fresh: "wf_table t \<Longrightarrow> nextGlobalMessageId t \<le> k \<Longrightarrow> map_of (routes t) k = None"
  using wf_table_lookup(4) [of t k] by (cases "map_of (routes t) k") (auto simp: not_less)

lemma wf_new [simp]: "wf_table (new_PendingRouteTable ms)"
  by (simp add: wf_table_def new_PendingRouteTable_def timers_of_def)

text \<open>
  On a well-formed table every way out of it restricts it to some of its routes and disarms
  exactly the timers of the others.
\<close>

definition keep :: "(int \<times> pending_route \<Rightarrow> bool) \<Rightarrow> pending_route_table \<Rightarrow> pending_route_table" where
  "keep P t = t\<lparr>routes := filter P (routes t),
                 armed := timers_of (table_timeoutMs t) (filter P (routes t))\<rparr>"

lemma keep_simps [simp, mux_simps]:
  "routes (keep P t) = filter P (routes t)"
  "nextGlobalMessageId (keep P t) = nextGlobalMessageId t"
  "table_timeoutMs (keep P t) = table_timeoutMs t"
  "next_handle (keep P t) = next_handle t"
  by (simp_all add: keep_def)

lemma keep_cong: "(\<And>p. p \<in> set (routes t) \<Longrightarrow> P p = Q p) \<Longrightarrow> keep P t = keep Q t"
  by (simp add: keep_def cong: filter_cong)

lemma keep_all: "wf_table t \<Longrightarrow> (\<And>p. p \<in> set (routes t) \<Longrightarrow> P p) \<Longrightarrow> keep P t = t"
  by (simp add: keep_def wf_table_def)

lemma keep_keep: "keep P (keep Q t) = keep (\<lambda>p. Q p \<and> P p) t"
  by (simp add: keep_def conj_commute)

lemma wf_keep [simp]: "wf_table t \<Longrightarrow> wf_table (keep P t)"
  by (auto simp: wf_table_def keep_def distinct_map_filter sorted_wrt_filter sorted_wrt_map
      sorted_wrt_filter)

lemma timers_of_delete:
  assumes "distinct (map (timer \<circ> snd) rs)" and "(k, r) \<in> set rs" and "distinct (map fst rs)"
  shows "AList.delete (timer r) (timers_of d rs) = timers_of d (filter (\<lambda>p. fst p \<noteq> k) rs)"
proof -
  have "timer r = timer (snd p) \<longleftrightarrow> fst p = k" if "p \<in> set rs" for p
  proof
    assume "timer r = timer (snd p)"
    then show "fst p = k" using assms(1,2) that unfolding distinct_map inj_on_def by fastforce
  next
    assume "fst p = k"
    then show "timer r = timer (snd p)" using assms(2,3) that
      by (metis distinct_map inj_onD fst_conv snd_conv)
  qed
  then have "filter (\<lambda>p. timer r \<noteq> timer (snd p)) rs = filter (\<lambda>p. fst p \<noteq> k) rs"
    by (intro filter_cong refl) auto
  then show ?thesis
    by (simp add: timers_of_def AList.delete_eq filter_map o_def case_prod_beta)
qed

lemma remove_route_keep:
  assumes t: "wf_table t"
  shows "remove_route k True t = (map_of (routes t) k, keep (\<lambda>p. fst p \<noteq> k) t)"
proof (cases "map_of (routes t) k")
  case None
  then have "keep (\<lambda>p. fst p \<noteq> k) t = t"
    by (intro keep_all t) (auto simp: map_of_eq_None_iff)
  with None show ?thesis by (simp add: remove_route_def)
next
  case (Some r)
  note wf = wf_tableD [OF t] and m = wf_table_map [OF t]
  have "AList.delete (timer r) (armed t) = timers_of (table_timeoutMs t) (filter (\<lambda>p. fst p \<noteq> k) (routes t))"
    unfolding wf(4) using wf(3) Some m by (intro timers_of_delete) (auto simp: wf_map_def dest: map_of_SomeD)
  with Some show ?thesis
    by (auto simp: remove_route_def clear_timer_def keep_def Let_def delete_filter)
qed

lemma take_route_keep:
  "wf_table t \<Longrightarrow> take_route k t = (map_of (routes t) k, keep (\<lambda>p. fst p \<noteq> k) t)"
  by (simp add: take_route_def remove_route_keep)

lemma clear_loop_keep:
  assumes "wf_table t" and "distinct (map globalMessageId rs)"
    and "\<And>r. r \<in> set rs \<Longrightarrow> map_of (routes t) (globalMessageId r) = Some r"
  shows "clear_loop P rs t =
    (filter P rs, keep (\<lambda>p. \<not> (snd p \<in> set rs \<and> P (snd p))) t)"
  using assms
proof (induction rs arbitrary: t)
  case Nil
  then show ?case by (simp add: keep_all)
next
  case (Cons r rs)
  note r = Cons.prems(3) [of r, simplified]
  have uniq: "snd p = r \<longleftrightarrow> fst p = globalMessageId r" if "p \<in> set (routes t)" for p
  proof -
    have "map_of (routes t) (fst p) = Some (snd p)"
      using that wf_table_map [OF Cons.prems(1)] by (simp add: map_of_wf_iff)
    then show ?thesis
      using r wf_tableD(2) [OF Cons.prems(1), of "fst p" "snd p"] that
      by (metis option.inject prod.collapse)
  qed
  show ?case
  proof (cases "P r")
    case False
    have "clear_loop P rs t = (filter P rs, keep (\<lambda>p. \<not> (snd p \<in> set rs \<and> P (snd p))) t)"
      using Cons.prems by (intro Cons.IH) auto
    moreover have "keep (\<lambda>p. \<not> (snd p \<in> set rs \<and> P (snd p))) t =
        keep (\<lambda>p. \<not> (snd p \<in> set (r # rs) \<and> P (snd p))) t"
      using False by (intro keep_cong) auto
    ultimately show ?thesis using False by simp
  next
    case True
    let ?t = "keep (\<lambda>p. fst p \<noteq> globalMessageId r) t"
    have "clear_loop P rs ?t = (filter P rs, keep (\<lambda>p. \<not> (snd p \<in> set rs \<and> P (snd p))) ?t)"
      using Cons.prems wf_table_map [OF Cons.prems(1)]
      by (intro Cons.IH) (auto simp: map_of_filter_wf image_iff)
    moreover have "keep (\<lambda>p. \<not> (snd p \<in> set rs \<and> P (snd p))) ?t =
        keep (\<lambda>p. \<not> (snd p \<in> set (r # rs) \<and> P (snd p))) t"
      unfolding keep_keep using uniq True by (intro keep_cong) auto
    ultimately show ?thesis
      using True r by (simp add: remove_route_keep [OF Cons.prems(1)])
  qed
qed

lemma clearMatching_keep:
  assumes "wf_table t"
  shows "clearMatching P t = (filter P (map_values (routes t)), keep (\<lambda>p. \<not> P (snd p)) t)"
proof -
  have g: "map (globalMessageId \<circ> snd) (routes t) = map_keys (routes t)"
    using wf_tableD(2) [OF assms] by (intro map_cong) auto
  have "clear_loop P (map_values (routes t)) t =
     (filter P (map_values (routes t)), keep (\<lambda>p. \<not> (snd p \<in> set (map_values (routes t)) \<and> P (snd p))) t)"
    using wf_table_map [OF assms] wf_tableD(2) [OF assms]
    by (intro clear_loop_keep assms) (auto simp: g wf_map_def)
  moreover have "keep (\<lambda>p. \<not> (snd p \<in> set (map_values (routes t)) \<and> P (snd p))) t = keep (\<lambda>p. \<not> P (snd p)) t"
    by (intro keep_cong) auto
  ultimately show ?thesis by (simp add: clearMatching_def)
qed


lemma timer_callback_keep:
  assumes "wf_table t"
  shows "fire_timer h t =
    (case map_of (armed t) h of
       None \<Rightarrow> (None, t)
     | Some (due, k) \<Rightarrow>
         (case map_of (routes t) k of
            None \<Rightarrow> (None, t)
          | Some r \<Rightarrow> (if kind r = Control then reject r else None, keep (\<lambda>p. fst p \<noteq> k) t)))"
proof (cases "map_of (armed t) h")
  case None
  then show ?thesis by (simp add: fire_timer_def)
next
  case (Some dk)
  obtain due k where dk: "dk = (due, k)" by (cases dk)
  note wf = wf_tableD [OF assms]
  from Some dk obtain r where r: "(k, r) \<in> set (routes t)" "timer r = h"
    by (auto simp: wf(4) timers_of_def dest!: map_of_SomeD)
  then have l: "map_of (routes t) k = Some r"
    using wf_table_map [OF assms] by (simp add: map_of_wf_iff)
  have "AList.delete h (armed t) = timers_of (table_timeoutMs t) (filter (\<lambda>p. fst p \<noteq> k) (routes t))"
    unfolding wf(4) r(2) [symmetric] using wf(3) r(1) wf_table_map [OF assms]
    by (intro timers_of_delete) (auto simp: wf_map_def)
  with Some dk l show ?thesis
    by (simp add: fire_timer_def timer_callback_def remove_route_def clear_timer_def keep_def delete_filter)
qed

lemma effective_timeout_update [simp]:
  "effective_timeout (t\<lparr>nextGlobalMessageId := n\<rparr>) i = effective_timeout t i"
  by (simp add: effective_timeout_def split: option.split)

lemma add_route_simps:
  assumes "add_route now input t = (r, t')"
  shows "r = pending_route_input.extend input
      \<lparr>globalMessageId = nextGlobalMessageId t, createdAt = now, timer = next_handle t\<rparr>"
    and "nextGlobalMessageId t' = nextGlobalMessageId t + 1"
    and "next_handle t' = Suc (next_handle t)"
    and "table_timeoutMs t' = table_timeoutMs t"
    and "routes t' = AList.update (nextGlobalMessageId t) r (routes t)"
    and "armed t' = AList.update (next_handle t) (now + node_delay (effective_timeout t input), nextGlobalMessageId t) (armed t)"
  using assms
  by (auto simp: add_route_def createGlobalMessageId_def createTimer_def Let_def)

lemma extend_sel [simp]:
  "globalMessageId (pending_route_input.extend i \<lparr>globalMessageId = g, createdAt = c, timer = h\<rparr>) = g"
  "createdAt (pending_route_input.extend i \<lparr>globalMessageId = g, createdAt = c, timer = h\<rparr>) = c"
  "timer (pending_route_input.extend i \<lparr>globalMessageId = g, createdAt = c, timer = h\<rparr>) = h"
  "kind (pending_route_input.extend i \<lparr>globalMessageId = g, createdAt = c, timer = h\<rparr>) = kind i"
  "requesterId (pending_route_input.extend i \<lparr>globalMessageId = g, createdAt = c, timer = h\<rparr>) = requesterId i"
  "originalId (pending_route_input.extend i \<lparr>globalMessageId = g, createdAt = c, timer = h\<rparr>) = originalId i"
  "route_clientId (pending_route_input.extend i \<lparr>globalMessageId = g, createdAt = c, timer = h\<rparr>) = route_clientId i"
  "route_timeoutMs (pending_route_input.extend i \<lparr>globalMessageId = g, createdAt = c, timer = h\<rparr>) = route_timeoutMs i"
  "resolve (pending_route_input.extend i \<lparr>globalMessageId = g, createdAt = c, timer = h\<rparr>) = resolve i"
  "reject (pending_route_input.extend i \<lparr>globalMessageId = g, createdAt = c, timer = h\<rparr>) = reject i"
  for i :: pending_route_input
  by (simp_all add: pending_route_input.extend_def)

lemma wf_add_route:
  assumes t: "wf_table t" and a: "add_route now input t = (r, t')"
  shows "wf_table t'" and "routes t' = routes t @ [(nextGlobalMessageId t, r)]"
proof -
  note wf = wf_tableD [OF t] and d = add_route_simps [OF a]
  have k: "k < nextGlobalMessageId t" if "k \<in> set (map_keys (routes t))" for k
    using that wf(2) by auto
  show rs: "routes t' = routes t @ [(nextGlobalMessageId t, r)]"
    unfolding d(5) using k by (intro update_fresh) auto
  have "next_handle t \<notin> set (map_keys (armed t))"
    using wf(2) by (auto simp: wf(4) timers_of_def) fastforce
  then have ar: "armed t' = timers_of (table_timeoutMs t') (routes t')"
    unfolding d(6) rs d(4)
    by (simp add: update_fresh wf(4)) (simp add: timers_of_def d(1) effective_timeout_def)
  have "sorted_wrt (<) (map_keys (routes t'))"
    using wf(1) k by (auto simp: rs sorted_wrt_append)
  moreover have "distinct (map (timer \<circ> snd) (routes t'))"
    using wf(2,3) by (auto simp: rs d(1)) fastforce
  moreover have "\<forall>(k, r) \<in> set (routes t'). globalMessageId r = k \<and> 1 \<le> k \<and> k < nextGlobalMessageId t' \<and>
      timer r < next_handle t'"
    using wf(2,5) d(1) by (fastforce simp: rs d(2,3))
  ultimately show "wf_table t'"
    using ar wf(5) by (simp add: wf_table_def d(2))
qed

section \<open>Sequences of operations\<close>

datatype table_op =
    Add int pending_route_input
  | Take int
  | Fire nat
  | ClearControl int
  | ClearWeb int
  | ClearClient int
  | ClearAll

text \<open>One operation: the routes it takes out, and the table after it.\<close>

fun table_step :: "table_op \<Rightarrow> pending_route_table \<Rightarrow> pending_route list \<times> pending_route_table" where
  "table_step (Add now i) t = ([], snd (add_route now i t))"
| "table_step (Take k) t = (case take_route k t of (r, t') \<Rightarrow> ((case r of None \<Rightarrow> [] | Some x \<Rightarrow> [x]), t'))"
| "table_step (Fire h) t =
     ((case map_of (armed t) h of
         None \<Rightarrow> []
       | Some (due, k) \<Rightarrow> (case get_route k t of None \<Rightarrow> [] | Some x \<Rightarrow> [x])), snd (fire_timer h t))"
| "table_step (ClearControl c) t = clearByControlId c t"
| "table_step (ClearWeb c) t = clearByWebClientId c t"
| "table_step (ClearClient c) t = clearByClientId c t"
| "table_step ClearAll t = clear_routes t"

fun table_run :: "table_op list \<Rightarrow> pending_route_table \<Rightarrow> pending_route list \<times> pending_route_table" where
  "table_run [] t = ([], t)"
| "table_run (op # ops) t =
     (let (gone, t1) = table_step op t; (gone', t2) = table_run ops t1 in (gone @ gone', t2))"

text \<open>An operation that is not an \<open>Add\<close> moves some routes out and keeps the others, timers included.\<close>

lemma table_step_keep:
  assumes t: "wf_table t" and op: "\<And>now i. op \<noteq> Add now i"
  shows "\<exists>P. snd (table_step op t) = keep (\<lambda>p. \<not> P p) t \<and>
     fst (table_step op t) = map snd (filter P (routes t))"
proof -
  have cm: "\<exists>P. snd (clearMatching Q t) = keep (\<lambda>p. \<not> P p) t \<and>
      fst (clearMatching Q t) = map snd (filter P (routes t))" for Q
    by (intro exI [of _ "\<lambda>p. Q (snd p)"]) (simp add: clearMatching_keep [OF t] filter_map o_def)
  show ?thesis
proof (cases op)
  case (Take k)
  have "(case map_of (routes t) k of None \<Rightarrow> [] | Some x \<Rightarrow> [x]) = map snd (filter (\<lambda>p. fst p = k) (routes t))"
    using wf_table_map [OF t] by (rule map_of_filter_key)
  then show ?thesis using Take take_route_keep [OF t] by (intro exI [of _ "\<lambda>p. fst p = k"]) simp
next
  case (Fire h)
  show ?thesis
  proof (cases "\<exists>due k r. map_of (armed t) h = Some (due, k) \<and> map_of (routes t) k = Some r")
    case True
    then obtain due k r where e: "map_of (armed t) h = Some (due, k)" "map_of (routes t) k = Some r" by blast
    then have "map snd (filter (\<lambda>p. fst p = k) (routes t)) = [r]"
      using map_of_filter_key [OF wf_table_map [OF t], of k] by simp
    with e Fire show ?thesis
      by (intro exI [of _ "\<lambda>p. fst p = k"]) (simp add: timer_callback_keep [OF t] get_route_def)
  next
    case False
    then show ?thesis using Fire
      by (intro exI [of _ "\<lambda>p. False"])
         (auto simp: timer_callback_keep [OF t] get_route_def keep_all [OF t] split: option.splits)
  qed
qed (use op cm in \<open>simp_all add: clearByControlId_def clearByWebClientId_def clearByClientId_def clear_routes_def\<close>)
qed

lemma wf_table_step: "wf_table t \<Longrightarrow> wf_table (snd (table_step op t))"
proof (cases "\<exists>now i. op = Add now i")
  case True
  assume "wf_table t"
  with True show ?thesis using wf_add_route(1) by (metis prod.collapse snd_conv table_step.simps(1))
next
  case False
  assume "wf_table t"
  with False table_step_keep show ?thesis by (metis wf_keep)
qed


section \<open>The table as a one-shot registry\<close>

text \<open>
  The contract the router relies on: a key that was issued and is gone never comes back, and the
  entry of a key never changes while it is there.
\<close>

locale one_shot_registry =
  fixes ok :: "'t \<Rightarrow> bool" and look :: "'t \<Rightarrow> 'k \<Rightarrow> 'r option" and issued :: "'t \<Rightarrow> 'k \<Rightarrow> bool"
    and step :: "'op \<Rightarrow> 't \<Rightarrow> 't"
  assumes ok_step: "ok t \<Longrightarrow> ok (step op t)"
    and look_issued: "ok t \<Longrightarrow> look t k = Some r \<Longrightarrow> issued t k"
    and issued_step: "ok t \<Longrightarrow> issued t k \<Longrightarrow> issued (step op t) k"
    and entry_step: "ok t \<Longrightarrow> issued t k \<Longrightarrow> look (step op t) k \<in> {None, look t k}"
begin

lemma entry_run:
  assumes "ok t" and "issued t k"
  shows "look (fold step ops t) k \<in> {None, look t k}"
  using assms
proof (induction ops arbitrary: t)
  case (Cons op ops)
  then have "look (fold step ops (step op t)) k \<in> {None, look (step op t) k}"
    by (intro Cons.IH ok_step issued_step)
  with entry_step [OF Cons.prems, of op] show ?case by auto
qed simp

lemma gone_forever:
  assumes "ok t" and "issued t k" and "look t k = None"
  shows "look (fold step ops t) k = None"
  using entry_run [OF assms(1,2), of ops] assms(3) by simp

lemma never_changes:
  assumes "ok t" and "look t k = Some r" and "look (fold step ops t) k = Some r'"
  shows "r' = r"
  using entry_run [OF assms(1) look_issued [OF assms(1,2)], of ops] assms(2,3) by simp

end

abbreviation table_exec :: "table_op \<Rightarrow> pending_route_table \<Rightarrow> pending_route_table" where
  "table_exec op t \<equiv> snd (table_step op t)"

lemma table_step_lookup:
  assumes t: "wf_table t" and k: "k < nextGlobalMessageId t"
  shows "map_of (routes (table_exec op t)) k \<in> {None, map_of (routes t) k}"
    and "nextGlobalMessageId t \<le> nextGlobalMessageId (table_exec op t)"
proof -
  have "map_of (routes (table_exec op t)) k \<in> {None, map_of (routes t) k} \<and>
      nextGlobalMessageId t \<le> nextGlobalMessageId (table_exec op t)"
  proof (cases "\<exists>now i. op = Add now i")
    case True
    then obtain now i where op: "op = Add now i" by blast
    obtain r t' where a: "add_route now i t = (r, t')" by (cases "add_route now i t")
    show ?thesis using k add_route_simps(2,5) [OF a] by (simp add: op a)
  next
    case False
    then obtain P where "table_exec op t = keep (\<lambda>p. \<not> P p) t"
      using table_step_keep [OF t, of op] by blast
    then show ?thesis
      using wf_table_map [OF t] by (auto simp: map_of_filter_wf split: option.splits)
  qed
  then show "map_of (routes (table_exec op t)) k \<in> {None, map_of (routes t) k}"
    and "nextGlobalMessageId t \<le> nextGlobalMessageId (table_exec op t)" by auto
qed

interpretation route_registry: one_shot_registry wf_table "\<lambda>t k. get_route k t"
    "\<lambda>t k. k < nextGlobalMessageId t" table_exec
proof
  fix t :: pending_route_table and k r op
  assume t: "wf_table t"
  show "wf_table (table_exec op t)" using t by (rule wf_table_step)
  show "k < nextGlobalMessageId t" if "get_route k t = Some r"
    using that wf_table_lookup(4) [OF t] by (simp add: get_route_def)
  show "k < nextGlobalMessageId (table_exec op t)" if "k < nextGlobalMessageId t"
    using that table_step_lookup(2) [OF t that, of op] by simp
  show "get_route k (table_exec op t) \<in> {None, get_route k t}" if "k < nextGlobalMessageId t"
    using table_step_lookup(1) [OF t that, of op] by (simp add: get_route_def)
qed

lemma table_run_exec: "snd (table_run ops t) = fold table_exec ops t"
  by (induction ops arbitrary: t) (simp_all add: Let_def case_prod_beta)

lemma wf_table_run: "wf_table t \<Longrightarrow> wf_table (snd (table_run ops t))"
  by (induction ops arbitrary: t) (simp_all add: Let_def case_prod_beta wf_table_step)

text \<open>Every id issued so far is either the id of one route still pending or of one route that left.\<close>

definition accounted :: "pending_route list \<Rightarrow> pending_route_table \<Rightarrow> bool" where
  "accounted gone t \<longleftrightarrow>
     distinct (map globalMessageId gone @ map_keys (routes t)) \<and>
     set (map globalMessageId gone @ map_keys (routes t)) = {1..<nextGlobalMessageId t}"

lemma accounted_step:
  assumes t: "wf_table t" and a: "accounted gone t"
  shows "accounted (gone @ fst (table_step op t)) (snd (table_step op t))"
proof (cases "\<exists>now i. op = Add now i")
  case True
  then obtain now i where op: "op = Add now i" by blast
  obtain r t' where r: "add_route now i t = (r, t')" by (cases "add_route now i t")
  have "set (map globalMessageId gone) \<subseteq> {1..<nextGlobalMessageId t}"
    and "set (map_keys (routes t)) \<subseteq> {1..<nextGlobalMessageId t}"
    using a by (auto simp: accounted_def)
  then show ?thesis
    using a wf_add_route(2) [OF t r] add_route_simps(2) [OF r] wf_tableD(5) [OF t]
    by (auto simp: accounted_def op r)
next
  case False
  then obtain P where P: "snd (table_step op t) = keep (\<lambda>p. \<not> P p) t"
      "fst (table_step op t) = map snd (filter P (routes t))"
    using table_step_keep [OF t, of op] by blast
  define A where "A = map_keys (filter P (routes t))"
  define B where "B = map_keys (filter (\<lambda>p. \<not> P p) (routes t))"
  have "map globalMessageId (fst (table_step op t)) = A"
    unfolding P A_def using wf_tableD(2) [OF t] by auto
  moreover have "map_keys (routes (snd (table_step op t))) = B" by (simp add: P B_def)
  moreover have "distinct A" "distinct B"
    using wf_map_filter [OF wf_table_map [OF t]] by (auto simp: A_def B_def wf_map_def)
  moreover have "set A \<inter> set B = {}"
    using wf_table_map [OF t] by (auto simp: A_def B_def wf_map_def distinct_map inj_on_def)
  moreover have "set (map_keys (routes t)) = set A \<union> set B" by (auto simp: A_def B_def)
  moreover have "nextGlobalMessageId (snd (table_step op t)) = nextGlobalMessageId t" by (simp add: P)
  ultimately show ?thesis
    using a by (auto simp: accounted_def)
qed

lemma accounted_run:
  assumes "wf_table t" and "accounted gone t"
  shows "accounted (gone @ fst (table_run ops t)) (snd (table_run ops t))"
  using assms
proof (induction ops arbitrary: t gone)
  case (Cons op ops)
  from Cons.IH [OF wf_table_step [OF Cons.prems(1)] accounted_step [OF Cons.prems]]
  show ?case by (simp add: Let_def case_prod_beta)
qed simp

section \<open>Properties\<close>

text \<open>
  (C1) Whatever sequence of requests, responses, timeouts and bulk removals the table goes
  through, every global message id issued so far belongs to exactly one route, which is either
  still pending or left the table exactly once; and the timers armed at the end are exactly one
  per pending route, due at its creation time plus its clamped timeout.
\<close>

theorem route_accounting:
  "let (gone, t) = table_run ops (new_PendingRouteTable ms) in
     distinct (map globalMessageId gone @ map fst (routes t)) \<and>
     set (map globalMessageId gone @ map fst (routes t)) = {1..<nextGlobalMessageId t} \<and>
     armed t = map (\<lambda>(k, r). (timer r, (createdAt r + node_delay (effective_timeout t r), k))) (routes t) \<and>
     distinct (map fst (armed t))"
proof -
  let ?t = "new_PendingRouteTable ms"
  have "accounted [] ?t" by (simp add: accounted_def new_PendingRouteTable_def)
  from accounted_run [OF wf_new this, of ops] wf_table_run [OF wf_new, of ops ms]
  show ?thesis
    by (auto simp: accounted_def wf_table_def timers_of_def effective_timeout_def Let_def case_prod_beta
        o_def)
qed

text \<open>
  (C2) A response is routed at most once: once a route has been taken by its global message id,
  no later sequence of operations makes a second take of that id return a route.
\<close>

theorem take_route_once:
  assumes "t0 = snd (table_run before (new_PendingRouteTable ms))" and "fst (take_route k t0) \<noteq> None"
  shows "fst (take_route k (snd (table_run after (snd (take_route k t0))))) = None"
proof -
  let ?t0 = "snd (table_run before (new_PendingRouteTable ms))"
  define t where "t = snd (take_route k t0)"
  have w0: "wf_table ?t0" by (rule wf_table_run) simp
  have k: "k < nextGlobalMessageId ?t0" and t: "t = keep (\<lambda>p. fst p \<noteq> k) ?t0"
    using assms wf_table_lookup(4) [OF w0] by (auto simp: take_route_keep [OF w0] t_def)
  have w: "wf_table t" using w0 t by simp
  have "get_route k t = None"
    using wf_table_map [OF w0] by (auto simp: t get_route_def map_of_filter_wf split: option.split)
  then have "get_route k (snd (table_run after t)) = None"
    unfolding table_run_exec using w k t by (intro route_registry.gone_forever) auto
  then show ?thesis
    by (simp add: take_route_keep [OF wf_table_run [OF w]] get_route_def flip: t_def)
qed

definition sample_input :: "requester_kind \<Rightarrow> int \<Rightarrow> int \<Rightarrow> pending_route_input" where
  "sample_input k req cid =
     \<lparr>kind = k, requesterId = req, originalId = 7, route_clientId = cid, route_timeoutMs = None,
      resolve = Some 0, reject = Some 0\<rparr>"

lemmas table_eval = table_run.simps table_step.simps add_route_def createGlobalMessageId_def
  createTimer_def effective_timeout_def new_PendingRouteTable_def DEFAULT_PENDING_ROUTE_TIMEOUT_MS_def
  remove_route_def take_route_def clear_timer_def sample_input_def pending_route_input.defs node_delay_def
  clearMatching_def clearByClientId_def get_route_def fire_timer_def timer_callback_def Let_def

theorem take_route_once_witness:
  "fst (take_route 1 (snd (table_run [Add 5 (sample_input Control 3 4), Take 1]
     (snd (take_route 1 (snd (table_run [Add 0 (sample_input Control 3 4)] (new_PendingRouteTable None)))))))) = None"
  by (rule take_route_once [OF refl]) (simp add: table_eval)

text \<open>
  (C3) The timeout of a pending route: its timer is armed; when it fires, the promise of a
  control requester is rejected (a WebSocket frontend gets nothing), that route and that timer
  disappear and every other route and timer stays.
\<close>

theorem route_timeout:
  assumes "t = snd (table_run ops (new_PendingRouteTable ms))" and "get_route k t = Some r"
  shows "map_of (armed t) (timer r) = Some (createdAt r + node_delay (effective_timeout t r), k) \<and>
    fst (fire_timer (timer r) t) = (if kind r = Control then reject r else None) \<and>
    get_route k (snd (fire_timer (timer r) t)) = None \<and>
    (\<forall>k'. k' \<noteq> k \<longrightarrow> get_route k' (snd (fire_timer (timer r) t)) = get_route k' t) \<and>
    armed (snd (fire_timer (timer r) t)) = AList.delete (timer r) (armed t)"
proof -
  have w: "wf_table t" unfolding assms(1) by (rule wf_table_run) simp
  note wf = wf_tableD [OF w]
  have r: "(k, r) \<in> set (routes t)" and m: "map_of (routes t) k = Some r"
    using assms(2) by (auto simp: get_route_def map_of_SomeD)
  have "distinct (map fst (armed t))" using wf(3) by (simp add: wf(4) timers_of_def case_prod_beta o_def)
  moreover have "(timer r, createdAt r + node_delay (effective_timeout t r), k) \<in> set (armed t)"
    using r unfolding wf(4) timers_of_def effective_timeout_def by force
  ultimately have a: "map_of (armed t) (timer r) = Some (createdAt r + node_delay (effective_timeout t r), k)"
    by simp
  then have f: "fire_timer (timer r) t =
      (if kind r = Control then reject r else None, keep (\<lambda>p. fst p \<noteq> k) t)"
    by (simp add: timer_callback_keep [OF w] m)
  have "AList.delete (timer r) (armed t) = armed (keep (\<lambda>p. fst p \<noteq> k) t)"
    unfolding wf(4) keep_def using wf(3) r wf_table_map [OF w]
    by (simp add: timers_of_delete wf_map_def)
  then show ?thesis
    using a f wf_table_map [OF w]
    by (auto simp: get_route_def map_of_filter_wf split: option.split)
qed

theorem route_timeout_witness:
  "fst (fire_timer 0 (snd (table_run [Add 0 (sample_input Control 3 4)] (new_PendingRouteTable None)))) = Some 0"
  using route_timeout [OF refl, of 1 "[Add 0 (sample_input Control 3 4)]" None]
  by (simp add: table_eval)

text \<open>
  (C4) Removing by target client returns exactly the routes to that client, oldest first, keeps
  exactly the others in their order, and leaves armed exactly the timers of those kept; the
  removals by control connection and by WebSocket frontend do the same for their requester and
  never touch a route of the other kind.
\<close>

theorem clear_partition:
  assumes "t = snd (table_run ops (new_PendingRouteTable ms))"
    and "(clr, sel) \<in> {(clearByClientId i, \<lambda>r. route_clientId r = i),
                      (clearByControlId i, \<lambda>r. kind r = Control \<and> requesterId r = i),
                      (clearByWebClientId i, \<lambda>r. kind r = Websocket \<and> requesterId r = i),
                      (clear_routes, \<lambda>r. True)}"
  shows "fst (clr t) = filter sel (map snd (routes t)) \<and>
    routes (snd (clr t)) = filter (\<lambda>p. \<not> sel (snd p)) (routes t) \<and>
    armed (snd (clr t)) = filter (\<lambda>p. \<exists>r. get_route (snd (snd p)) t = Some r \<and> \<not> sel r) (armed t)"
proof -
  have w: "wf_table t" unfolding assms(1) by (rule wf_table_run) simp
  have c: "clr t = clearMatching sel t"
    using assms(2) by (auto simp: clearByClientId_def clearByControlId_def clearByWebClientId_def clear_routes_def)
  have "filter (\<lambda>p. \<exists>r. get_route (snd (snd p)) t = Some r \<and> \<not> sel r) (armed t) =
      timers_of (table_timeoutMs t) (filter (\<lambda>p. \<not> sel (snd p)) (routes t))"
    unfolding wf_tableD(4) [OF w] timers_of_def filter_map
    using wf_table_map [OF w]
    by (intro arg_cong [where f = "map _"] filter_cong)
       (auto simp: get_route_def wf_map_def dest: eq_key_imp_eq_value)
  then show ?thesis by (simp add: c clearMatching_keep [OF w]) (simp add: keep_def)
qed

theorem clear_partition_witness:
  "length (fst (clearByClientId 4 (snd (table_run [Add 0 (sample_input Control 3 4), Add 1 (sample_input Control 3 5),
     Add 2 (sample_input Websocket 9 4)] (new_PendingRouteTable None))))) = 2"
  using clear_partition [OF refl, of "clearByClientId 4" "\<lambda>r. route_clientId r = 4" 4
      "[Add 0 (sample_input Control 3 4), Add 1 (sample_input Control 3 5), Add 2 (sample_input Websocket 9 4)]" None]
  by (simp add: table_eval)

end
