(* ===== verification/Memoized_Queries.thy ===== *)
theory Memoized_Queries
  imports Js_Value
begin

text \<open>
  The memoized-query table of the daemon (\<^verbatim>\<open>multiplexer/daemon/MemoizedQueryTable.ts\<close>): it
  coalesces equivalent queries to one client while an answer is pending and reuses a recent
  notification.

  A \<^verbatim>\<open>PendingQuery\<close> is a mutable object that the map and the closure of its retry timer share, so
  the state has a store of these objects, and \<open>pendingQueries\<close> holds references into it.  The
  retry timers are an explicit store of handles, each with the variables its callback closes
  over.  The function \<^verbatim>\<open>retry\<close> given to \<^verbatim>\<open>setRetryTimer\<close> is an argument of the operation that runs
  the callback; it may change the table.  \<open>wf_memo\<close> is the invariant; \<open>memo_exec\<close> runs
  one operation of the daemon on the table.
\<close>

section \<open>State\<close>

datatype memo_decision =
    NotMemoized
  | Forward string
  | Pending
  | Cached string js

record memo_notification =
  note_message :: string
  note_parsedValue :: js
  receivedAt :: int

record pending_query =
  sentAt :: int
  pq_timer :: "nat option"

record retry_closure =
  rc_due :: int
  rc_client :: int
  rc_type :: string
  rc_query :: nat

record memo_table =
  definitions :: "(string \<times> string) list"
  notifications :: "(int, (string, memo_notification) jsmap) jsmap"
  pendingQueries :: "(int, (string, nat) jsmap) jsmap"
  validityPeriodMs :: int
  query_store :: "(nat, pending_query) jsmap"
  next_query :: nat
  retry_timers :: "(nat, retry_closure) jsmap"
  next_retry :: nat

definition DEFAULT_MEMOIZED_QUERY_TTL_MS :: int where
  "DEFAULT_MEMOIZED_QUERY_TTL_MS = 1000"

definition DEFAULT_QUERY_DEFINITIONS :: "(string \<times> string) list" where
  "DEFAULT_QUERY_DEFINITIONS = [(''ListSession'', ''SessionList'')]"

definition new_MemoizedQueryTable :: "(string \<times> string) list option \<Rightarrow> int option \<Rightarrow> memo_table" where
  "new_MemoizedQueryTable defs ttl =
     \<lparr>definitions = (case defs of None \<Rightarrow> DEFAULT_QUERY_DEFINITIONS | Some ds \<Rightarrow> ds),
      notifications = [], pendingQueries = [],
      validityPeriodMs = (case ttl of None \<Rightarrow> DEFAULT_MEMOIZED_QUERY_TTL_MS | Some d \<Rightarrow> d),
      query_store = [], next_query = 0, retry_timers = [], next_retry = 0\<rparr>"

section \<open>Message types\<close>

definition getCustomizedType :: "js \<Rightarrow> string option" where
  "getCustomizedType message =
     (if jget message ''event'' \<noteq> Str ''Customized'' then None
      else case jget (jget message ''data'') ''type'' of Str s \<Rightarrow> Some s | _ \<Rightarrow> None)"

text \<open>The two lookups \<^verbatim>\<open>definitions.find(...)?....\<close>; an empty string is falsy.\<close>

definition notification_of :: "memo_table \<Rightarrow> string option \<Rightarrow> (string \<times> string) option" where
  "notification_of t rt =
     (case rt of
        None \<Rightarrow> None
      | Some r \<Rightarrow>
          (case find (\<lambda>d. fst d = r) (definitions t) of
             None \<Rightarrow> None
           | Some d \<Rightarrow> if r = [] \<or> snd d = [] then None else Some (r, snd d)))"

definition request_of :: "memo_table \<Rightarrow> string option \<Rightarrow> (string \<times> string) option" where
  "request_of t nt =
     (case nt of
        None \<Rightarrow> None
      | Some n \<Rightarrow>
          (case find (\<lambda>d. snd d = n) (definitions t) of
             None \<Rightarrow> None
           | Some d \<Rightarrow> if n = [] \<or> fst d = [] then None else Some (fst d, n)))"

section \<open>Operations\<close>

definition lookup2 :: "('a, ('b, 'c) jsmap) jsmap \<Rightarrow> 'a \<Rightarrow> 'b \<Rightarrow> 'c option" where
  "lookup2 m a b = Option.bind (map_of m a) (\<lambda>n. map_of n b)"

definition getFreshNotification :: "int \<Rightarrow> int \<Rightarrow> string \<Rightarrow> memo_table \<Rightarrow> memo_notification option" where
  "getFreshNotification now clientId ntype t =
     (case lookup2 (notifications t) clientId ntype of
        None \<Rightarrow> None
      | Some n \<Rightarrow> if now - receivedAt n > validityPeriodMs t then None else Some n)"

definition clearRetryTimer :: "nat \<Rightarrow> memo_table \<Rightarrow> memo_table" where
  "clearRetryTimer q t =
     (case map_of (query_store t) q of
        None \<Rightarrow> t
      | Some pq \<Rightarrow>
          (case pq_timer pq of
             None \<Rightarrow> t
           | Some h \<Rightarrow> t\<lparr>retry_timers := AList.delete h (retry_timers t),
                        query_store := AList.update q (pq\<lparr>pq_timer := None\<rparr>) (query_store t)\<rparr>))"

definition clearPending :: "int \<Rightarrow> string \<Rightarrow> memo_table \<Rightarrow> memo_table" where
  "clearPending clientId rtype t =
     (case map_of (pendingQueries t) clientId of
        None \<Rightarrow> t
      | Some qs \<Rightarrow>
          (case map_of qs rtype of
             None \<Rightarrow> t
           | Some q \<Rightarrow>
               let t1 = clearRetryTimer q t; qs' = AList.delete rtype qs
               in t1\<lparr>pendingQueries :=
                      (if qs' = [] then AList.delete clientId (pendingQueries t1)
                       else AList.update clientId qs' (pendingQueries t1))\<rparr>))"

definition isPending :: "int \<Rightarrow> int \<Rightarrow> string \<Rightarrow> memo_table \<Rightarrow> bool \<times> memo_table" where
  "isPending now clientId rtype t =
     (case Option.bind (lookup2 (pendingQueries t) clientId rtype) (map_of (query_store t)) of
        None \<Rightarrow> (False, t)
      | Some pq \<Rightarrow>
          if now - sentAt pq > validityPeriodMs t then (False, clearPending clientId rtype t)
          else (True, t))"

definition markPending :: "int \<Rightarrow> int \<Rightarrow> string \<Rightarrow> memo_table \<Rightarrow> memo_table" where
  "markPending now clientId rtype t =
     (let qs = (case map_of (pendingQueries t) clientId of None \<Rightarrow> [] | Some qs \<Rightarrow> qs); q = next_query t
      in t\<lparr>pendingQueries := AList.update clientId (AList.update rtype q qs) (pendingQueries t),
           query_store := AList.update q \<lparr>sentAt = now, pq_timer = None\<rparr> (query_store t),
           next_query := Suc q\<rparr>)"

definition memo_query :: "int \<Rightarrow> int \<Rightarrow> js \<Rightarrow> memo_table \<Rightarrow> memo_decision \<times> memo_table" where
  "memo_query now clientId message t =
     (case notification_of t (getCustomizedType message) of
        None \<Rightarrow> (NotMemoized, t)
      | Some (rtype, ntype) \<Rightarrow>
          (case getFreshNotification now clientId ntype t of
             Some n \<Rightarrow> (Cached (note_message n) (note_parsedValue n), t)
           | None \<Rightarrow>
               (case isPending now clientId rtype t of
                  (True, t1) \<Rightarrow> (Pending, t1)
                | (False, t1) \<Rightarrow> (Forward rtype, markPending now clientId rtype t1))))"

definition recordNotification :: "int \<Rightarrow> int \<Rightarrow> string \<Rightarrow> js \<Rightarrow> memo_table \<Rightarrow> memo_table" where
  "recordNotification now clientId message parsedValue t =
     (case request_of t (getCustomizedType parsedValue) of
        None \<Rightarrow> t
      | Some (rtype, ntype) \<Rightarrow>
          let ns = (case map_of (notifications t) clientId of None \<Rightarrow> [] | Some ns \<Rightarrow> ns);
              t1 = t\<lparr>notifications := AList.update clientId
                      (AList.update ntype
                         \<lparr>note_message = message, note_parsedValue = parsedValue, receivedAt = now\<rparr> ns)
                      (notifications t)\<rparr>
          in clearPending clientId rtype t1)"

definition handleSendFailure :: "int \<Rightarrow> string \<Rightarrow> memo_table \<Rightarrow> memo_table" where
  "handleSendFailure clientId rtype t = clearPending clientId rtype t"

definition createRetryTimer :: "int \<Rightarrow> int \<Rightarrow> string \<Rightarrow> nat \<Rightarrow> memo_table \<Rightarrow> nat \<times> memo_table" where
  "createRetryTimer now clientId rtype q t =
     (next_retry t,
      t\<lparr>retry_timers := AList.update (next_retry t)
          \<lparr>rc_due = now + node_delay (validityPeriodMs t), rc_client = clientId, rc_type = rtype, rc_query = q\<rparr>
          (retry_timers t),
        next_retry := Suc (next_retry t)\<rparr>)"

definition set_query_timer :: "nat \<Rightarrow> nat \<Rightarrow> memo_table \<Rightarrow> memo_table" where
  "set_query_timer q h t =
     (case map_of (query_store t) q of
        None \<Rightarrow> t
      | Some pq \<Rightarrow> t\<lparr>query_store := AList.update q (pq\<lparr>pq_timer := Some h\<rparr>) (query_store t)\<rparr>)"

text \<open>\<open>None\<close>: the non-null assertion meets \<^verbatim>\<open>undefined\<close> and the access throws.\<close>

definition setRetryTimer :: "int \<Rightarrow> int \<Rightarrow> string \<Rightarrow> memo_table \<Rightarrow> memo_table option" where
  "setRetryTimer now clientId rtype t =
     (case lookup2 (pendingQueries t) clientId rtype of
        None \<Rightarrow> None
      | Some q \<Rightarrow> (case createRetryTimer now clientId rtype q t of (h, t1) \<Rightarrow> Some (set_query_timer q h t1)))"

text \<open>The event loop runs the callback of the retry timer \<open>h\<close>.\<close>

definition fire_retry :: "int \<Rightarrow> (memo_table \<Rightarrow> bool \<times> memo_table) \<Rightarrow> nat \<Rightarrow> memo_table \<Rightarrow> memo_table" where
  "fire_retry now retry h t =
     (case map_of (retry_timers t) h of
        None \<Rightarrow> t
      | Some c \<Rightarrow>
          let t1 = t\<lparr>retry_timers := AList.delete h (retry_timers t),
                     query_store := (case map_of (query_store t) (rc_query c) of
                                       None \<Rightarrow> query_store t
                                     | Some pq \<Rightarrow> AList.update (rc_query c) (pq\<lparr>sentAt := now\<rparr>) (query_store t))\<rparr>;
              (ok, t2) = retry t1
          in if \<not> ok then clearPending (rc_client c) (rc_type c) t2
             else case createRetryTimer now (rc_client c) (rc_type c) (rc_query c) t2 of
                    (h', t3) \<Rightarrow> set_query_timer (rc_query c) h' t3)"

definition memo_clearClient :: "int \<Rightarrow> memo_table \<Rightarrow> memo_table" where
  "memo_clearClient clientId t =
     (let t1 = t\<lparr>notifications := AList.delete clientId (notifications t)\<rparr> in
      case map_of (pendingQueries t1) clientId of
        None \<Rightarrow> t1
      | Some qs \<Rightarrow> fold (clearPending clientId) (map_keys qs) t1)"

definition memo_clear :: "memo_table \<Rightarrow> memo_table" where
  "memo_clear t =
     fold (\<lambda>(clientId, qs). fold (clearPending clientId) (map_keys qs)) (pendingQueries t)
       (t\<lparr>notifications := []\<rparr>)"

section \<open>What the operations do to the lookups\<close>

abbreviation pend :: "memo_table \<Rightarrow> int \<Rightarrow> string \<Rightarrow> nat option" where
  "pend t \<equiv> lookup2 (pendingQueries t)"

abbreviation noted :: "memo_table \<Rightarrow> int \<Rightarrow> string \<Rightarrow> memo_notification option" where
  "noted t \<equiv> lookup2 (notifications t)"

lemma lookup2_update:
  "lookup2 (AList.update a (AList.update b v (case map_of m a of None \<Rightarrow> [] | Some n \<Rightarrow> n)) m) a' b' =
     (if a' = a \<and> b' = b then Some v else lookup2 m a' b')"
  by (auto simp: lookup2_def split: option.splits)

lemma clearRetryTimer_simps [simp]:
  "notifications (clearRetryTimer q t) = notifications t"
  "pendingQueries (clearRetryTimer q t) = pendingQueries t"
  "definitions (clearRetryTimer q t) = definitions t"
  "validityPeriodMs (clearRetryTimer q t) = validityPeriodMs t"
  "next_query (clearRetryTimer q t) = next_query t"
  "next_retry (clearRetryTimer q t) = next_retry t"
  by (auto simp: clearRetryTimer_def split: option.splits)

lemma clearPending_simps [simp]:
  "notifications (clearPending c r t) = notifications t"
  "definitions (clearPending c r t) = definitions t"
  "validityPeriodMs (clearPending c r t) = validityPeriodMs t"
  "next_query (clearPending c r t) = next_query t"
  "next_retry (clearPending c r t) = next_retry t"
  by (auto simp: clearPending_def Let_def split: option.splits)

lemma pend_clearPending [simp]:
  "pend (clearPending c r t) c' r' = (if c' = c \<and> r' = r then None else pend t c' r')"
proof -
  have e: "map_of qs x = None" if "AList.delete r qs = []" "x \<noteq> r" for qs :: "(string, nat) jsmap" and x
    using map_of_delete [of r qs x] that by simp
  show ?thesis
    by (auto simp: clearPending_def lookup2_def Let_def e split: option.splits)
qed

lemma store_clearPending:
  "map_of (query_store (clearPending c r t)) q =
     (if pend t c r = Some q then map_option (\<lambda>pq. pq\<lparr>pq_timer := None\<rparr>) (map_of (query_store t) q)
      else map_of (query_store t) q)"
  by (auto simp: clearPending_def clearRetryTimer_def lookup2_def Let_def split: option.splits)

lemma timers_clearPending:
  "map_of (retry_timers (clearPending c r t)) h =
     (if Option.bind (Option.bind (pend t c r) (map_of (query_store t))) pq_timer = Some h then None
      else map_of (retry_timers t) h)"
  by (auto simp: clearPending_def clearRetryTimer_def lookup2_def Let_def split: option.splits)

lemma wf_clearPending_maps:
  "wf_map (query_store t) \<Longrightarrow> wf_map (query_store (clearPending c r t))"
  "wf_map (retry_timers t) \<Longrightarrow> wf_map (retry_timers (clearPending c r t))"
  by (auto simp: clearPending_def clearRetryTimer_def Let_def split: option.splits)

section \<open>The invariant\<close>

text \<open>Two-level maps without empty inner maps.\<close>

definition wf_map2 :: "('a, ('b, 'c) jsmap) jsmap \<Rightarrow> bool" where
  "wf_map2 m \<longleftrightarrow> wf_map m \<and> (\<forall>(a, n) \<in> set m. n \<noteq> [] \<and> wf_map n)"

lemma wf_map2_Nil [simp]: "wf_map2 []"
  by (simp add: wf_map2_def)

lemma set_update_subset: "set (AList.update k v m) \<subseteq> insert (k, v) (set m)"
  by (induction m) auto

lemma set_delete_subset: "set (AList.delete k m) \<subseteq> set m"
  by (auto simp: delete_filter)

lemma wf_map2_delete [simp]: "wf_map2 m \<Longrightarrow> wf_map2 (AList.delete k m)"
  using set_delete_subset [of k m] by (auto simp: wf_map2_def)

lemma wf_map2_update [simp]: "wf_map2 m \<Longrightarrow> n \<noteq> [] \<Longrightarrow> wf_map n \<Longrightarrow> wf_map2 (AList.update k n m)"
  using set_update_subset [of k n m] by (auto simp: wf_map2_def)

lemma wf_map2_inner: "wf_map2 m \<Longrightarrow> map_of m a = Some n \<Longrightarrow> n \<noteq> [] \<and> wf_map n"
  by (auto simp: wf_map2_def dest!: map_of_SomeD)

lemma wf_map2_get [simp]: "wf_map2 m \<Longrightarrow> wf_map (case map_of m a of None \<Rightarrow> [] | Some n \<Rightarrow> n)"
  using wf_map2_inner [of m a] by (auto split: option.split)

lemma wf_map2_clearPending: "wf_map2 (pendingQueries t) \<Longrightarrow> wf_map2 (pendingQueries (clearPending c r t))"
  using wf_map2_inner [of "pendingQueries t" c]
  by (auto simp: clearPending_def Let_def split: option.splits)

text \<open>
  The references of pending queries are distinct objects of the store, and the armed retry
  timers are exactly the timers that the pending queries hold.
\<close>

definition memo_refs :: "memo_table \<Rightarrow> bool" where
  "memo_refs t \<longleftrightarrow>
     (\<forall>c r q. pend t c r = Some q \<longrightarrow> q < next_query t \<and> map_of (query_store t) q \<noteq> None) \<and>
     (\<forall>c r c' r' q. pend t c r = Some q \<longrightarrow> pend t c' r' = Some q \<longrightarrow> c' = c \<and> r' = r)"

definition memo_timers :: "memo_table \<Rightarrow> bool" where
  "memo_timers t \<longleftrightarrow>
     (\<forall>h cl. map_of (retry_timers t) h = Some cl \<longrightarrow> h < next_retry t \<and>
        pend t (rc_client cl) (rc_type cl) = Some (rc_query cl) \<and>
        Option.bind (map_of (query_store t) (rc_query cl)) pq_timer = Some h) \<and>
     (\<forall>c r q h. pend t c r = Some q \<longrightarrow> Option.bind (map_of (query_store t) q) pq_timer = Some h \<longrightarrow>
        (\<exists>cl. map_of (retry_timers t) h = Some cl \<and> rc_client cl = c \<and> rc_type cl = r \<and> rc_query cl = q))"

definition wf_memo :: "memo_table \<Rightarrow> bool" where
  "wf_memo t \<longleftrightarrow> wf_map2 (notifications t) \<and> wf_map2 (pendingQueries t) \<and> wf_map (query_store t) \<and>
     wf_map (retry_timers t) \<and> memo_refs t \<and> memo_timers t"

lemma wf_memo_new [simp]: "wf_memo (new_MemoizedQueryTable defs ttl)"
  by (simp add: wf_memo_def new_MemoizedQueryTable_def memo_refs_def memo_timers_def lookup2_def)

lemma memo_refs_clearPending: "memo_refs t \<Longrightarrow> memo_refs (clearPending c r t)"
  unfolding memo_refs_def by (auto simp: store_clearPending)

lemma memo_timers_clearPending:
  assumes "memo_refs t" and "memo_timers t"
  shows "memo_timers (clearPending c r t)"
proof -
  have other: "pend t c r \<noteq> Some q" if "pend t c' r' = Some q" "c' \<noteq> c \<or> r' \<noteq> r" for c' r' q
    using assms(1) that unfolding memo_refs_def by blast
  show ?thesis
    unfolding memo_timers_def
  proof (intro conjI allI impI)
    fix h cl assume a: "map_of (retry_timers (clearPending c r t)) h = Some cl"
    then have b: "map_of (retry_timers t) h = Some cl"
        "Option.bind (Option.bind (pend t c r) (map_of (query_store t))) pq_timer \<noteq> Some h"
      by (auto simp: timers_clearPending split: if_splits)
    with assms(2) have d: "h < next_retry t" "pend t (rc_client cl) (rc_type cl) = Some (rc_query cl)"
        "Option.bind (map_of (query_store t) (rc_query cl)) pq_timer = Some h"
      by (auto simp: memo_timers_def)
    with b have ne: "rc_client cl \<noteq> c \<or> rc_type cl \<noteq> r" by auto
    show "h < next_retry (clearPending c r t)" using d by simp
    show "pend (clearPending c r t) (rc_client cl) (rc_type cl) = Some (rc_query cl)" using d ne by auto
    show "Option.bind (map_of (query_store (clearPending c r t)) (rc_query cl)) pq_timer = Some h"
      using d other [OF d(2) ne] by (simp add: store_clearPending)
  next
    fix c' r' q h
    assume a: "pend (clearPending c r t) c' r' = Some q"
      and b: "Option.bind (map_of (query_store (clearPending c r t)) q) pq_timer = Some h"
    from a have p: "pend t c' r' = Some q" and ne: "c' \<noteq> c \<or> r' \<noteq> r" by (auto split: if_splits)
    note o = other [OF p ne]
    have s: "Option.bind (map_of (query_store t) q) pq_timer = Some h"
      using b o by (simp add: store_clearPending)
    obtain cl where cl: "map_of (retry_timers t) h = Some cl" "rc_client cl = c'" "rc_type cl = r'" "rc_query cl = q"
      using assms(2) p s unfolding memo_timers_def by blast
    have "Option.bind (Option.bind (pend t c r) (map_of (query_store t))) pq_timer \<noteq> Some h"
    proof
      assume "Option.bind (Option.bind (pend t c r) (map_of (query_store t))) pq_timer = Some h"
      then obtain q0 where "pend t c r = Some q0" "Option.bind (map_of (query_store t) q0) pq_timer = Some h"
        by (auto simp: Option.bind_eq_Some_conv)
      then have "\<exists>cl. map_of (retry_timers t) h = Some cl \<and> rc_client cl = c \<and> rc_type cl = r"
        using assms(2) unfolding memo_timers_def by blast
      with cl ne show False by auto
    qed
    then show "\<exists>cl. map_of (retry_timers (clearPending c r t)) h = Some cl \<and> rc_client cl = c' \<and> rc_type cl = r' \<and> rc_query cl = q"
      using cl by (auto simp: timers_clearPending)
  qed
qed

lemma wf_memo_clearPending [simp]: "wf_memo t \<Longrightarrow> wf_memo (clearPending c r t)"
  by (simp add: wf_memo_def wf_map2_clearPending wf_clearPending_maps memo_refs_clearPending
      memo_timers_clearPending)

section \<open>Preservation\<close>

lemma pend_markPending [simp]:
  "pend (markPending now c r t) c' r' = (if c' = c \<and> r' = r then Some (next_query t) else pend t c' r')"
  by (simp add: markPending_def Let_def lookup2_update)

lemma markPending_simps [simp]:
  "notifications (markPending now c r t) = notifications t"
  "definitions (markPending now c r t) = definitions t"
  "validityPeriodMs (markPending now c r t) = validityPeriodMs t"
  "retry_timers (markPending now c r t) = retry_timers t"
  "next_retry (markPending now c r t) = next_retry t"
  "next_query (markPending now c r t) = Suc (next_query t)"
  "query_store (markPending now c r t) = AList.update (next_query t) \<lparr>sentAt = now, pq_timer = None\<rparr> (query_store t)"
  by (simp_all add: markPending_def Let_def)

lemma wf_memo_markPending:
  assumes "wf_memo t" and "pend t c r = None"
  shows "wf_memo (markPending now c r t)"
proof -
  have refs: "memo_refs t" and tm: "memo_timers t" using assms(1) by (auto simp: wf_memo_def)
  have lt: "q < next_query t" if "pend t c' r' = Some q" for c' r' q
    using refs that unfolding memo_refs_def by blast
  have m2: "wf_map2 (pendingQueries (markPending now c r t))"
    using assms(1) by (simp add: markPending_def Let_def wf_memo_def)
  have "memo_refs (markPending now c r t)"
    using refs lt unfolding memo_refs_def by (auto simp: less_Suc_eq split: if_splits)
  moreover have "memo_timers (markPending now c r t)"
    unfolding memo_timers_def
  proof (intro conjI allI impI)
    fix h cl assume "map_of (retry_timers (markPending now c r t)) h = Some cl"
    then have d: "h < next_retry t" "pend t (rc_client cl) (rc_type cl) = Some (rc_query cl)"
        "Option.bind (map_of (query_store t) (rc_query cl)) pq_timer = Some h"
      using tm by (auto simp: memo_timers_def)
    show "h < next_retry (markPending now c r t)" using d by simp
    show "pend (markPending now c r t) (rc_client cl) (rc_type cl) = Some (rc_query cl)"
      using d assms(2) by auto
    show "Option.bind (map_of (query_store (markPending now c r t)) (rc_query cl)) pq_timer = Some h"
      using d lt [OF d(2)] by simp
  next
    fix c' r' q h
    assume "pend (markPending now c r t) c' r' = Some q"
      and "Option.bind (map_of (query_store (markPending now c r t)) q) pq_timer = Some h"
    then have "pend t c' r' = Some q" "Option.bind (map_of (query_store t) q) pq_timer = Some h"
      by (auto split: if_splits)
    then show "\<exists>cl. map_of (retry_timers (markPending now c r t)) h = Some cl \<and> rc_client cl = c' \<and> rc_type cl = r' \<and> rc_query cl = q"
      using tm unfolding memo_timers_def by auto
  qed
  ultimately show ?thesis using assms(1) m2 by (simp add: wf_memo_def)
qed

lemma isPending_False:
  assumes "wf_memo t" and "isPending now c r t = (False, t')"
  shows "wf_memo t'" and "pend t' c r = None" and "t' = clearPending c r t"
proof -
  have "t' = clearPending c r t"
  proof (cases "pend t c r")
    case None
    then show ?thesis using assms(2)
      by (auto simp: isPending_def clearPending_def lookup2_def split: option.splits)
  next
    case (Some q)
    with assms(1) have "map_of (query_store t) q \<noteq> None" unfolding wf_memo_def memo_refs_def by blast
    with Some assms(2) show ?thesis by (auto simp: isPending_def split: if_splits option.splits)
  qed
  then show "t' = clearPending c r t" "wf_memo t'" "pend t' c r = None" using assms(1) by auto
qed

lemma isPending_True: "isPending now c r t = (True, t') \<Longrightarrow> t' = t"
  by (auto simp: isPending_def split: option.splits if_splits)

lemma wf_memo_query: "wf_memo t \<Longrightarrow> wf_memo (snd (memo_query now c m t))"
  by (auto simp: memo_query_def isPending_False wf_memo_markPending split: option.splits prod.splits bool.splits
      dest: isPending_True isPending_False)

lemma wf_memo_notifications:
  "wf_memo t \<Longrightarrow> wf_map2 ns \<Longrightarrow> wf_memo (t\<lparr>notifications := ns\<rparr>)"
  by (simp add: wf_memo_def memo_refs_def memo_timers_def)

lemma wf_memo_record: "wf_memo t \<Longrightarrow> wf_memo (recordNotification now c msg v t)"
  using wf_map2_inner [of "notifications t" c]
  by (auto simp: recordNotification_def Let_def wf_memo_def [of t] intro!: wf_memo_clearPending wf_memo_notifications wf_map2_update wf_map_update
      split: option.splits prod.splits)

lemma wf_memo_fold_clear: "wf_memo t \<Longrightarrow> wf_memo (fold (clearPending c) rs t)"
  by (induction rs arbitrary: t) auto

lemma wf_memo_clearClient: "wf_memo t \<Longrightarrow> wf_memo (memo_clearClient c t)"
  by (auto simp: memo_clearClient_def Let_def wf_memo_def [of t] intro!: wf_memo_fold_clear wf_memo_notifications
      split: option.splits)

lemma wf_memo_fold_fold:
  "wf_memo t \<Longrightarrow> wf_memo (fold (\<lambda>(c, qs). fold (clearPending c) (map_keys qs)) m t)"
  by (induction m arbitrary: t) (auto simp: wf_memo_fold_clear)

lemma wf_memo_clear: "wf_memo t \<Longrightarrow> wf_memo (memo_clear t)"
  by (simp add: memo_clear_def wf_memo_fold_fold wf_memo_notifications)

text \<open>A timer armed for a pending query that has none.\<close>

definition arm :: "int \<Rightarrow> int \<Rightarrow> string \<Rightarrow> nat \<Rightarrow> memo_table \<Rightarrow> memo_table" where
  "arm now c r q t = (case createRetryTimer now c r q t of (h, t1) \<Rightarrow> set_query_timer q h t1)"

lemma arm_simps [simp]:
  "notifications (arm now c r q t) = notifications t"
  "definitions (arm now c r q t) = definitions t"
  "validityPeriodMs (arm now c r q t) = validityPeriodMs t"
  "pendingQueries (arm now c r q t) = pendingQueries t"
  "next_query (arm now c r q t) = next_query t"
  "next_retry (arm now c r q t) = Suc (next_retry t)"
  "retry_timers (arm now c r q t) = AList.update (next_retry t)
     \<lparr>rc_due = now + node_delay (validityPeriodMs t), rc_client = c, rc_type = r, rc_query = q\<rparr> (retry_timers t)"
  by (auto simp: arm_def createRetryTimer_def set_query_timer_def split: option.splits)

lemma store_arm [simp]:
  "map_of (query_store (arm now c r q t)) q' =
     (if q' = q then map_option (\<lambda>pq. pq\<lparr>pq_timer := Some (next_retry t)\<rparr>) (map_of (query_store t) q)
      else map_of (query_store t) q')"
  "wf_map (query_store t) \<Longrightarrow> wf_map (query_store (arm now c r q t))"
  by (auto simp: arm_def createRetryTimer_def set_query_timer_def split: option.splits)

lemma wf_memo_arm:
  assumes w: "wf_memo t" and p: "pend t c r = Some q"
    and n: "Option.bind (map_of (query_store t) q) pq_timer = None"
  shows "wf_memo (arm now c r q t)"
proof -
  have refs: "memo_refs t" and tm: "memo_timers t" using w by (auto simp: wf_memo_def)
  have uniq: "c' = c \<and> r' = r" if "pend t c' r' = Some q" for c' r'
    using refs p that unfolding memo_refs_def by blast
  have "memo_refs (arm now c r q t)"
    using refs unfolding memo_refs_def by auto
  moreover have "memo_timers (arm now c r q t)"
    unfolding memo_timers_def
  proof (intro conjI allI impI)
    fix h cl assume a: "map_of (retry_timers (arm now c r q t)) h = Some cl"
    have old: "h < next_retry t" "pend t (rc_client cl) (rc_type cl) = Some (rc_query cl)"
        "Option.bind (map_of (query_store t) (rc_query cl)) pq_timer = Some h" if "h \<noteq> next_retry t"
      using tm a that unfolding memo_timers_def by auto
    obtain pq where pq: "map_of (query_store t) q = Some pq" using refs p unfolding memo_refs_def by blast
    show "h < next_retry (arm now c r q t)" using old by (cases "h = next_retry t") auto
    show "pend (arm now c r q t) (rc_client cl) (rc_type cl) = Some (rc_query cl)"
      using old a p by (cases "h = next_retry t") auto
    show "Option.bind (map_of (query_store (arm now c r q t)) (rc_query cl)) pq_timer = Some h"
      using old a n pq by (cases "h = next_retry t") auto
  next
    fix c' r' q' h
    assume a: "pend (arm now c r q t) c' r' = Some q'"
      and b: "Option.bind (map_of (query_store (arm now c r q t)) q') pq_timer = Some h"
    show "\<exists>cl. map_of (retry_timers (arm now c r q t)) h = Some cl \<and> rc_client cl = c' \<and> rc_type cl = r' \<and> rc_query cl = q'"
    proof (cases "q' = q")
      case True
      with a uniq have "c' = c" "r' = r" by auto
      moreover have "h = next_retry t" using b True by (auto simp: Option.bind_eq_Some_conv)
      ultimately show ?thesis using True by simp
    next
      case False
      then have s: "Option.bind (map_of (query_store t) q') pq_timer = Some h" using b by simp
      then obtain cl where cl: "map_of (retry_timers t) h = Some cl" "rc_client cl = c'" "rc_type cl = r'" "rc_query cl = q'"
        using tm a [simplified] unfolding memo_timers_def by blast
      moreover have "h < next_retry t" using tm cl unfolding memo_timers_def by blast
      ultimately show ?thesis by auto
    qed
  qed
  ultimately show ?thesis using w by (simp add: wf_memo_def)
qed

lemma setRetryTimer_arm: "setRetryTimer now c r t = map_option (\<lambda>q. arm now c r q t) (pend t c r)"
  by (auto simp: setRetryTimer_def arm_def split: option.splits prod.splits)


text \<open>A firing timer leaves the query without a timer and with a new time; then the query is
  armed again, or cleared.\<close>

definition touch :: "int \<Rightarrow> nat \<Rightarrow> memo_table \<Rightarrow> memo_table" where
  "touch now q t = t\<lparr>query_store := (case map_of (query_store t) q of
      None \<Rightarrow> query_store t | Some pq \<Rightarrow> AList.update q (pq\<lparr>sentAt := now\<rparr>) (query_store t))\<rparr>"

lemma touch_simps [simp]:
  "notifications (touch now q t) = notifications t"
  "definitions (touch now q t) = definitions t"
  "validityPeriodMs (touch now q t) = validityPeriodMs t"
  "pendingQueries (touch now q t) = pendingQueries t"
  "next_query (touch now q t) = next_query t"
  "next_retry (touch now q t) = next_retry t"
  "retry_timers (touch now q t) = retry_timers t"
  "map_of (query_store (touch now q t)) q' =
     (if q' = q then map_option (\<lambda>pq. pq\<lparr>sentAt := now\<rparr>) (map_of (query_store t) q) else map_of (query_store t) q')"
  "wf_map (query_store t) \<Longrightarrow> wf_map (query_store (touch now q t))"
  by (auto simp: touch_def split: option.splits)

lemma bind_touch [simp]:
  "Option.bind (map_of (query_store (touch now q t)) q') pq_timer = Option.bind (map_of (query_store t) q') pq_timer"
  by (cases "map_of (query_store t) q") auto

lemma wf_memo_touch [simp]: "wf_memo t \<Longrightarrow> wf_memo (touch now q t)"
  unfolding wf_memo_def memo_refs_def memo_timers_def
  by (simp del: touch_simps(8)) auto

lemma clearRetryTimer_store:
  "map_of (query_store (clearRetryTimer q t)) q' =
     (if q' = q then map_option (\<lambda>pq. pq\<lparr>pq_timer := None\<rparr>) (map_of (query_store t) q) else map_of (query_store t) q')"
  "map_of (retry_timers (clearRetryTimer q t)) h =
     (if Option.bind (map_of (query_store t) q) pq_timer = Some h then None else map_of (retry_timers t) h)"
  "wf_map (query_store t) \<Longrightarrow> wf_map (query_store (clearRetryTimer q t))"
  "wf_map (retry_timers t) \<Longrightarrow> wf_map (retry_timers (clearRetryTimer q t))"
  by (auto simp: clearRetryTimer_def split: option.splits)

lemma wf_memo_clearRetryTimer:
  assumes w: "wf_memo t" and p: "pend t c r = Some q"
  shows "wf_memo (clearRetryTimer q t)"
proof -
  have refs: "memo_refs t" and tm: "memo_timers t" using w by (auto simp: wf_memo_def)
  have "memo_refs (clearRetryTimer q t)"
    using refs unfolding memo_refs_def by (auto simp: clearRetryTimer_store)
  moreover have "memo_timers (clearRetryTimer q t)"
    unfolding memo_timers_def
  proof (intro conjI allI impI)
    fix h cl assume "map_of (retry_timers (clearRetryTimer q t)) h = Some cl"
    then have b: "map_of (retry_timers t) h = Some cl" "Option.bind (map_of (query_store t) q) pq_timer \<noteq> Some h"
      by (auto simp: clearRetryTimer_store split: if_splits)
    with tm have d: "h < next_retry t" "pend t (rc_client cl) (rc_type cl) = Some (rc_query cl)"
        "Option.bind (map_of (query_store t) (rc_query cl)) pq_timer = Some h"
      by (auto simp: memo_timers_def)
    with b have "rc_query cl \<noteq> q" by auto
    with d show "h < next_retry (clearRetryTimer q t)"
      "pend (clearRetryTimer q t) (rc_client cl) (rc_type cl) = Some (rc_query cl)"
      "Option.bind (map_of (query_store (clearRetryTimer q t)) (rc_query cl)) pq_timer = Some h"
      by (auto simp: clearRetryTimer_store)
  next
    fix c' r' q' h
    assume a: "pend (clearRetryTimer q t) c' r' = Some q'"
      and b: "Option.bind (map_of (query_store (clearRetryTimer q t)) q') pq_timer = Some h"
    then have ne: "q' \<noteq> q" and s: "Option.bind (map_of (query_store t) q') pq_timer = Some h"
      by (auto simp: clearRetryTimer_store Option.bind_eq_Some_conv split: if_splits)
    then obtain cl where cl: "map_of (retry_timers t) h = Some cl" "rc_client cl = c'" "rc_type cl = r'" "rc_query cl = q'"
      using tm a [simplified] unfolding memo_timers_def by blast
    have "Option.bind (map_of (query_store t) q) pq_timer \<noteq> Some h"
    proof
      assume "Option.bind (map_of (query_store t) q) pq_timer = Some h"
      with tm p obtain cl' where "map_of (retry_timers t) h = Some cl'" "rc_query cl' = q"
        unfolding memo_timers_def by blast
      with cl ne show False by simp
    qed
    with cl show "\<exists>cl. map_of (retry_timers (clearRetryTimer q t)) h = Some cl \<and> rc_client cl = c' \<and> rc_type cl = r' \<and> rc_query cl = q'"
      by (auto simp: clearRetryTimer_store)
  qed
  ultimately show ?thesis using w by (simp add: wf_memo_def clearRetryTimer_store)
qed

lemma update_update_same: "AList.update k v (AList.update k w m) = AList.update k v m"
  by (induction m) auto

lemma delete_delete_same: "AList.delete k (AList.delete k m) = AList.delete k m"
  by (simp add: delete_filter)

lemma fire_retry_eq:
  fixes now :: int
  assumes w: "wf_memo t" and h: "map_of (retry_timers t) h = Some cl"
  defines "t0 \<equiv> touch now (rc_query cl) (clearRetryTimer (rc_query cl) t)"
  shows "fire_retry now (\<lambda>t. (ok, t)) h t =
      (if ok then arm now (rc_client cl) (rc_type cl) (rc_query cl) t0 else clearPending (rc_client cl) (rc_type cl) t0)"
    and "wf_memo t0" and "pend t0 (rc_client cl) (rc_type cl) = Some (rc_query cl)"
    and "Option.bind (map_of (query_store t0) (rc_query cl)) pq_timer = None"
proof -
  let ?q = "rc_query cl"
  have p: "pend t (rc_client cl) (rc_type cl) = Some ?q"
    and s: "Option.bind (map_of (query_store t) ?q) pq_timer = Some h"
    using w h by (auto simp: wf_memo_def memo_timers_def)
  from s obtain pq where pq: "map_of (query_store t) ?q = Some pq" "pq_timer pq = Some h"
    by (auto simp: Option.bind_eq_Some_conv)
  from p obtain qs where qs: "map_of (pendingQueries t) (rc_client cl) = Some qs" "map_of qs (rc_type cl) = Some ?q"
    by (auto simp: lookup2_def Option.bind_eq_Some_conv)
  show "wf_memo t0" using wf_memo_clearRetryTimer [OF w p] by (simp add: t0_def)
  show "pend t0 (rc_client cl) (rc_type cl) = Some ?q" using p by (simp add: t0_def)
  show "Option.bind (map_of (query_store t0) ?q) pq_timer = None"
    by (simp add: t0_def clearRetryTimer_store pq)
  from pq(2) have "pq = \<lparr>sentAt = sentAt pq, pq_timer = Some h\<rparr>" by simp
  with pq obtain a where pq': "map_of (query_store t) ?q = Some \<lparr>sentAt = a, pq_timer = Some h\<rparr>" by metis
  show "fire_retry now (\<lambda>t. (ok, t)) h t =
      (if ok then arm now (rc_client cl) (rc_type cl) ?q t0 else clearPending (rc_client cl) (rc_type cl) t0)"
    using h pq' qs
    by (simp add: fire_retry_def t0_def touch_def arm_def createRetryTimer_def set_query_timer_def
        clearRetryTimer_def clearPending_def Let_def update_update_same delete_delete_same)
qed

lemma wf_memo_fire:
  assumes "wf_memo t"
  shows "wf_memo (fire_retry now (\<lambda>t. (ok, t)) h t)"
proof (cases "map_of (retry_timers t) h")
  case None
  with assms show ?thesis by (simp add: fire_retry_def)
next
  case (Some cl)
  note f = fire_retry_eq [OF assms Some, of now]
  show ?thesis unfolding f(1) using f(2-4) by (auto intro: wf_memo_arm)
qed

section \<open>Sequences of operations\<close>

text \<open>
  The daemon arms a retry timer only for a query it has just forwarded, which has none yet; the
  function it gives to the timer does not touch the table.
\<close>

datatype memo_op =
    MQuery int int js
  | MRecord int int string js
  | MFailure int string
  | MSetRetry int int string
  | MFire int bool nat
  | MClearClient int
  | MClear

fun memo_exec :: "memo_op \<Rightarrow> memo_table \<Rightarrow> memo_table" where
  "memo_exec (MQuery now c m) t = snd (memo_query now c m t)"
| "memo_exec (MRecord now c msg v) t = recordNotification now c msg v t"
| "memo_exec (MFailure c r) t = handleSendFailure c r t"
| "memo_exec (MSetRetry now c r) t =
     (if Option.bind (Option.bind (lookup2 (pendingQueries t) c r) (map_of (query_store t))) pq_timer = None
      then (case setRetryTimer now c r t of None \<Rightarrow> t | Some t' \<Rightarrow> t') else t)"
| "memo_exec (MFire now ok h) t = fire_retry now (\<lambda>t. (ok, t)) h t"
| "memo_exec (MClearClient c) t = memo_clearClient c t"
| "memo_exec MClear t = memo_clear t"

lemma wf_memo_exec: "wf_memo t \<Longrightarrow> wf_memo (memo_exec op t)"
  by (cases op)
     (auto simp: wf_memo_query wf_memo_record handleSendFailure_def wf_memo_fire wf_memo_clearClient wf_memo_clear
        setRetryTimer_arm wf_memo_arm split: option.splits)

lemma wf_memo_run: "wf_memo t \<Longrightarrow> wf_memo (fold memo_exec ops t)"
  by (induction ops arbitrary: t) (auto simp: wf_memo_exec)

text \<open>The configuration never changes.\<close>

definition same_conf :: "memo_table \<Rightarrow> memo_table \<Rightarrow> bool" where
  "same_conf t t' \<longleftrightarrow> definitions t' = definitions t \<and> validityPeriodMs t' = validityPeriodMs t"

lemma isPending_conf [simp]:
  "definitions (snd (isPending now c r t)) = definitions t"
  "validityPeriodMs (snd (isPending now c r t)) = validityPeriodMs t"
  "notifications (snd (isPending now c r t)) = notifications t"
  by (auto simp: isPending_def split: option.splits)

lemma memo_query_alt:
  "memo_query now c m t =
     (case notification_of t (getCustomizedType m) of
        None \<Rightarrow> (NotMemoized, t)
      | Some (r, n) \<Rightarrow>
          (case getFreshNotification now c n t of
             Some x \<Rightarrow> (Cached (note_message x) (note_parsedValue x), t)
           | None \<Rightarrow>
               if fst (isPending now c r t) then (Pending, t)
               else (Forward r, markPending now c r (snd (isPending now c r t)))))"
  by (auto simp: memo_query_def dest: isPending_True split: option.splits prod.splits bool.splits)

lemma memo_query_conf [simp]:
  "definitions (snd (memo_query now c m t)) = definitions t"
  "validityPeriodMs (snd (memo_query now c m t)) = validityPeriodMs t"
  "notifications (snd (memo_query now c m t)) = notifications t"
  by (auto simp: memo_query_alt split: option.split)

lemma record_conf [simp]:
  "definitions (recordNotification now c msg v t) = definitions t"
  "validityPeriodMs (recordNotification now c msg v t) = validityPeriodMs t"
  by (auto simp: recordNotification_def Let_def split: option.splits)

lemma record_noted:
  "noted (recordNotification now c msg v t) c' n' =
     (case request_of t (getCustomizedType v) of
        None \<Rightarrow> noted t c' n'
      | Some (r, n) \<Rightarrow>
          if c' = c \<and> n' = n then Some \<lparr>note_message = msg, note_parsedValue = v, receivedAt = now\<rparr>
          else noted t c' n')"
  by (auto simp: recordNotification_def Let_def lookup2_update split: option.splits)

lemma fold_clear_conf [simp]:
  "definitions (fold (clearPending c) rs t) = definitions t"
  "validityPeriodMs (fold (clearPending c) rs t) = validityPeriodMs t"
  "notifications (fold (clearPending c) rs t) = notifications t"
  by (induction rs arbitrary: t) auto

lemma fold_fold_conf [simp]:
  "definitions (fold (\<lambda>(c, qs). fold (clearPending c) (map_keys qs)) m t) = definitions t"
  "validityPeriodMs (fold (\<lambda>(c, qs). fold (clearPending c) (map_keys qs)) m t) = validityPeriodMs t"
  "notifications (fold (\<lambda>(c, qs). fold (clearPending c) (map_keys qs)) m t) = notifications t"
  by (induction m arbitrary: t) auto

lemma clearClient_conf [simp]:
  "definitions (memo_clearClient c t) = definitions t"
  "validityPeriodMs (memo_clearClient c t) = validityPeriodMs t"
  "notifications (memo_clearClient c t) = AList.delete c (notifications t)"
  by (auto simp: memo_clearClient_def Let_def split: option.splits)

lemma clear_conf [simp]:
  "definitions (memo_clear t) = definitions t"
  "validityPeriodMs (memo_clear t) = validityPeriodMs t"
  "notifications (memo_clear t) = []"
  by (auto simp: memo_clear_def)

lemma fire_conf:
  assumes "wf_memo t"
  shows "definitions (fire_retry now (\<lambda>t. (ok, t)) h t) = definitions t"
    and "validityPeriodMs (fire_retry now (\<lambda>t. (ok, t)) h t) = validityPeriodMs t"
    and "notifications (fire_retry now (\<lambda>t. (ok, t)) h t) = notifications t"
proof -
  have "definitions (fire_retry now (\<lambda>t. (ok, t)) h t) = definitions t \<and>
      validityPeriodMs (fire_retry now (\<lambda>t. (ok, t)) h t) = validityPeriodMs t \<and>
      notifications (fire_retry now (\<lambda>t. (ok, t)) h t) = notifications t"
  proof (cases "map_of (retry_timers t) h")
    case None
    then show ?thesis by (simp add: fire_retry_def)
  next
    case (Some cl)
    show ?thesis unfolding fire_retry_eq(1) [OF assms Some] by simp
  qed
  then show "definitions (fire_retry now (\<lambda>t. (ok, t)) h t) = definitions t"
    "validityPeriodMs (fire_retry now (\<lambda>t. (ok, t)) h t) = validityPeriodMs t"
    "notifications (fire_retry now (\<lambda>t. (ok, t)) h t) = notifications t" by auto
qed

lemma memo_exec_conf:
  "wf_memo t \<Longrightarrow> definitions (memo_exec op t) = definitions t \<and> validityPeriodMs (memo_exec op t) = validityPeriodMs t"
  by (cases op) (auto simp: handleSendFailure_def setRetryTimer_arm fire_conf split: option.splits)

text \<open>Clearing.\<close>

lemma pend_fold_clear:
  "pend (fold (clearPending c) rs t) c' r' = (if c' = c \<and> r' \<in> set rs then None else pend t c' r')"
  by (induction rs arbitrary: t) auto

lemma pend_clearClient:
  "pend (memo_clearClient c t) c' r' = (if c' = c then None else pend t c' r')"
proof (cases "map_of (pendingQueries t) c")
  case None
  then show ?thesis by (simp add: memo_clearClient_def) (simp add: lookup2_def)
next
  case (Some qs)
  have "pend t c r = None" if "r \<notin> set (map_keys qs)" for r
    using that Some map_of_None_keys [of qs r] by (simp add: lookup2_def)
  with Some show ?thesis by (simp add: memo_clearClient_def pend_fold_clear)
qed

lemma pend_fold_fold:
  "pend (fold (\<lambda>(c, qs). fold (clearPending c) (map_keys qs)) m t) c' r' =
     (if \<exists>qs. (c', qs) \<in> set m \<and> r' \<in> set (map_keys qs) then None else pend t c' r')"
proof (induction m arbitrary: t)
  case (Cons p m)
  obtain a b where p: "p = (a, b)" by (cases p)
  define K where "K x \<longleftrightarrow> r' \<in> set (map_keys x)" for x :: "(string, nat) jsmap"
  show ?case
    unfolding p fold_simps Cons.IH prod.case pend_fold_clear K_def [symmetric] by auto
qed simp

lemma pend_clear: "pend (memo_clear t) c r = None"
proof (cases "pend t c r")
  case None
  then show ?thesis by (simp add: memo_clear_def pend_fold_fold)
next
  case (Some q)
  then obtain qs where "map_of (pendingQueries t) c = Some qs" "map_of qs r = Some q"
    by (auto simp: lookup2_def Option.bind_eq_Some_conv)
  then have "(c, qs) \<in> set (pendingQueries t)" "r \<in> set (map_keys qs)"
    using map_has_keys [of qs r] by (auto dest: map_of_SomeD)
  then show ?thesis unfolding memo_clear_def pend_fold_fold by auto
qed

lemma wf_map2_empty:
  assumes "wf_map2 m" and "\<And>a b. lookup2 m a b = None"
  shows "m = []"
proof (cases m)
  case (Cons p m')
  obtain a n where p: "p = (a, n)" by (cases p)
  with assms(1) Cons have "n \<noteq> []" by (auto simp: wf_map2_def)
  then obtain b v n' where "n = (b, v) # n'" by (cases n) auto
  with p Cons assms(2) [of a b] show ?thesis by (simp add: lookup2_def)
qed

lemma no_pending_no_timers:
  assumes "wf_memo t" and "\<And>c r. pend t c r = None"
  shows "pendingQueries t = []" and "retry_timers t = []"
proof -
  show "pendingQueries t = []" using assms by (auto simp: wf_memo_def intro: wf_map2_empty)
  have "map_of (retry_timers t) h = None" for h
    using assms by (cases "map_of (retry_timers t) h") (auto simp: wf_memo_def memo_timers_def)
  then show "retry_timers t = []"
    by (metis list.exhaust map_of_Cons_code(2) option.distinct(1) prod.collapse)
qed

text \<open>A query of client \<open>c\<close> and type \<open>r\<close> is pending since \<open>t0\<close> or later.\<close>

definition pending_since :: "int \<Rightarrow> int \<Rightarrow> string \<Rightarrow> memo_table \<Rightarrow> bool" where
  "pending_since t0 c r t \<longleftrightarrow>
     (\<exists>q pq. pend t c r = Some q \<and> map_of (query_store t) q = Some pq \<and> t0 \<le> sentAt pq)"

text \<open>Operations that neither answer nor drop the queries of client \<open>c\<close>, within a time window.\<close>

fun leaves_pending :: "int \<Rightarrow> int \<Rightarrow> int \<Rightarrow> memo_op \<Rightarrow> bool" where
  "leaves_pending t0 t1 c (MQuery now c' m) = (t0 \<le> now \<and> now \<le> t1)"
| "leaves_pending t0 t1 c (MRecord now c' msg v) = (c' \<noteq> c)"
| "leaves_pending t0 t1 c (MFailure c' r) = (c' \<noteq> c)"
| "leaves_pending t0 t1 c (MSetRetry now c' r) = True"
| "leaves_pending t0 t1 c (MFire now ok h) = (ok \<and> t0 \<le> now)"
| "leaves_pending t0 t1 c (MClearClient c') = (c' \<noteq> c)"
| "leaves_pending t0 t1 c MClear = False"

lemma pending_since_clear:
  assumes "wf_memo t" and "pending_since t0 c r t" and "c' \<noteq> c \<or> r' \<noteq> r"
  shows "pending_since t0 c r (clearPending c' r' t)"
proof -
  from assms(2) obtain q pq where p: "pend t c r = Some q" "map_of (query_store t) q = Some pq" "t0 \<le> sentAt pq"
    by (auto simp: pending_since_def)
  with assms(1,3) have "pend t c' r' \<noteq> Some q" unfolding wf_memo_def memo_refs_def by blast
  with p assms(3) show ?thesis by (auto simp: pending_since_def store_clearPending)
qed

lemma pending_since_fold_clear:
  assumes "wf_memo t" and "pending_since t0 c r t" and "c' \<noteq> c"
  shows "pending_since t0 c r (fold (clearPending c') rs t)"
  using assms by (induction rs arbitrary: t) (auto simp: pending_since_clear)

lemma pending_since_notifications [simp]:
  "pending_since t0 c r (t\<lparr>notifications := ns\<rparr>) = pending_since t0 c r t"
  by (simp add: pending_since_def)

lemma pending_since_mark:
  assumes "wf_memo t" and "pending_since t0 c r t" and "c' \<noteq> c \<or> r' \<noteq> r"
  shows "pending_since t0 c r (markPending now c' r' t)"
proof -
  from assms(2) obtain q pq where p: "pend t c r = Some q" "map_of (query_store t) q = Some pq" "t0 \<le> sentAt pq"
    by (auto simp: pending_since_def)
  with assms(1) have "q < next_query t" unfolding wf_memo_def memo_refs_def by blast
  with p assms(3) show ?thesis by (auto simp: pending_since_def)
qed

lemma pending_since_arm: "pending_since t0 c r t \<Longrightarrow> pending_since t0 c r (arm now c' r' q t)"
  by (auto simp: pending_since_def)

lemma isPending_since:
  assumes "pending_since t0 c r t" and "now - t0 \<le> validityPeriodMs t"
  shows "isPending now c r t = (True, t)"
  using assms by (auto simp: pending_since_def isPending_def)

lemma pending_since_exec:
  assumes w: "wf_memo t" and p: "pending_since t0 c r t" and o: "leaves_pending t0 t1 c op"
    and v: "t1 - t0 \<le> validityPeriodMs t"
  shows "pending_since t0 c r (memo_exec op t)"
proof (cases op)
  case (MQuery now c' m)
  then have now: "now - t0 \<le> validityPeriodMs t" using o v by simp
  have q: "pending_since t0 c r (markPending now c' r' (snd (isPending now c' r' t)))"
    if "\<not> fst (isPending now c' r' t)" for r'
  proof -
    have f: "isPending now c' r' t = (False, snd (isPending now c' r' t))" using that by (metis prod.collapse)
    have "c' \<noteq> c \<or> r' \<noteq> r" using isPending_since [OF p now] that by auto
    then show ?thesis
      unfolding isPending_False(3) [OF w f] using w p by (intro pending_since_mark pending_since_clear) auto
  qed
  show ?thesis using p q by (auto simp: MQuery memo_query_alt split: option.split)
next
  case (MRecord now c' msg x)
  then have "c' \<noteq> c" using o by simp
  moreover have "wf_memo (t\<lparr>notifications := AList.update c' ns (notifications t)\<rparr>)"
    if "ns \<noteq> []" "wf_map ns" for ns using w that by (auto simp: wf_memo_def [of t] intro!: wf_memo_notifications [OF w])
  ultimately show ?thesis using p w wf_map2_inner [of "notifications t" c']
    by (auto simp: MRecord recordNotification_def Let_def wf_memo_def [of t] intro!: pending_since_clear split: option.splits)
next
  case (MFire now ok h)
  then have ok: "ok" "t0 \<le> now" using o by auto
  show ?thesis
  proof (cases "map_of (retry_timers t) h")
    case None
    then show ?thesis using p by (simp add: MFire fire_retry_def)
  next
    case (Some cl)
    have "pending_since t0 c r (touch now (rc_query cl) (clearRetryTimer (rc_query cl) t))"
      using p ok(2) by (auto simp: pending_since_def clearRetryTimer_store)
    then show ?thesis by (simp add: MFire fire_retry_eq(1) [OF w Some] ok pending_since_arm)
  qed
qed (use o w p in \<open>auto simp: handleSendFailure_def setRetryTimer_arm memo_clearClient_def Let_def
      intro!: pending_since_clear pending_since_arm pending_since_fold_clear wf_memo_notifications
      split: option.splits simp: wf_memo_def [of t]\<close>)

lemma pending_since_run:
  assumes "wf_memo t" and "pending_since t0 c r t" and "list_all (leaves_pending t0 t1 c) ops"
    and "t1 - t0 \<le> validityPeriodMs t"
  shows "pending_since t0 c r (fold memo_exec ops t) \<and> validityPeriodMs (fold memo_exec ops t) = validityPeriodMs t
    \<and> definitions (fold memo_exec ops t) = definitions t"
  using assms
proof (induction ops arbitrary: t)
  case (Cons op ops)
  have "pending_since t0 c r (memo_exec op t)"
    using Cons.prems by (intro pending_since_exec) auto
  with Cons.IH [of "memo_exec op t"] Cons.prems wf_memo_exec memo_exec_conf show ?case by auto
qed simp

text \<open>A notification of client \<open>c\<close> that is not fresh at \<open>t0\<close> stays so while nothing is recorded for \<open>c\<close>.\<close>

fun keeps_noted :: "int \<Rightarrow> memo_op \<Rightarrow> bool" where
  "keeps_noted c (MRecord now c' msg v) = (c' \<noteq> c)"
| "keeps_noted c (MClearClient c') = (c' \<noteq> c)"
| "keeps_noted c MClear = False"
| "keeps_noted c _ = True"

lemma leaves_keeps: "leaves_pending t0 t1 c op \<Longrightarrow> keeps_noted c op"
  by (cases op) auto

lemma lookup2_delete [simp]: "lookup2 (AList.delete a m) a' b = (if a' = a then None else lookup2 m a' b)"
  by (simp add: lookup2_def)

lemma lookup2_all_None:
  assumes "wf_map2 m" and "\<And>b. lookup2 m a b = None"
  shows "map_of m a = None"
proof (cases "map_of m a")
  case (Some n)
  with wf_map2_inner [OF assms(1)] obtain b v n' where "n = (b, v) # n'" by (cases n) auto
  with Some assms(2) [of b] show ?thesis by (simp add: lookup2_def)
qed simp

lemma noted_exec:
  assumes "wf_memo t" and "keeps_noted c op"
  shows "noted (memo_exec op t) c n = noted t c n"
  using assms
  by (cases op) (auto simp: record_noted handleSendFailure_def setRetryTimer_arm fire_conf
      split: option.splits)

lemma noted_run:
  assumes "wf_memo t" and "list_all (keeps_noted c) ops"
  shows "noted (fold memo_exec ops t) c n = noted t c n \<and>
    validityPeriodMs (fold memo_exec ops t) = validityPeriodMs t \<and> definitions (fold memo_exec ops t) = definitions t"
  using assms
proof (induction ops arbitrary: t)
  case (Cons op ops)
  with Cons.IH [of "memo_exec op t"] wf_memo_exec memo_exec_conf noted_exec show ?case by auto
qed simp


lemma notification_of_cong: "definitions t' = definitions t \<Longrightarrow> notification_of t' x = notification_of t x"
  by (cases x) (simp_all add: notification_of_def)

section \<open>Properties\<close>

text \<open>
  (C5) Coalescing: after a query was forwarded at \<open>now\<close>, every equivalent query to the same
  client within the validity period is answered \<open>Pending\<close> and not forwarded again, whatever
  other queries, retries and events of other clients happen in between, as long as nothing was
  recorded, failed or cleared for that client.
\<close>

theorem memo_query_coalesces:
  assumes "t = fold memo_exec before (new_MemoizedQueryTable defs ttl)"
    and "fst (memo_query now c m t) = Forward r"
    and "list_all (leaves_pending now (now + validityPeriodMs t) c) ops"
    and "now \<le> now'" and "now' \<le> now + validityPeriodMs t"
    and "getCustomizedType m' = getCustomizedType m"
  shows "fst (memo_query now' c m' (fold memo_exec ops (snd (memo_query now c m t)))) = Pending"
proof -
  have w: "wf_memo t" unfolding assms(1) by (intro wf_memo_run) simp
  obtain n where n: "notification_of t (getCustomizedType m) = Some (r, n)"
    and f: "getFreshNotification now c n t = None" and p: "\<not> fst (isPending now c r t)"
    using assms(2) by (auto simp: memo_query_alt split: option.splits if_splits)
  define t1 where "t1 = snd (memo_query now c m t)"
  have t1: "t1 = markPending now c r (snd (isPending now c r t))"
    using n f p by (simp add: t1_def memo_query_alt)
  have w1: "wf_memo t1" unfolding t1_def by (rule wf_memo_query [OF w])
  have c1: "validityPeriodMs t1 = validityPeriodMs t" "definitions t1 = definitions t"
    "notifications t1 = notifications t" by (simp_all add: t1_def)
  have s: "pending_since now c r t1" by (auto simp: t1 pending_since_def)
  define t2 where "t2 = fold memo_exec ops t1"
  have s2: "pending_since now c r t2" and c2: "validityPeriodMs t2 = validityPeriodMs t" "definitions t2 = definitions t"
    using pending_since_run [OF w1 s, of "now + validityPeriodMs t" ops] assms(3) by (auto simp: t2_def c1)
  have "list_all (keeps_noted c) ops" using assms(3) leaves_keeps by (auto simp: list_all_iff)
  then have "noted t2 c n = noted t c n" using noted_run [OF w1, of c ops n] by (simp add: t2_def c1)
  then have f2: "getFreshNotification now' c n t2 = None"
    using f assms(4) by (auto simp: getFreshNotification_def c2 split: option.splits if_splits)
  have "notification_of t2 (getCustomizedType m') = Some (r, n)"
    using n assms(6) notification_of_cong [OF c2(2)] by simp
  moreover have "isPending now' c r t2 = (True, t2)"
    using isPending_since [OF s2] assms(5) by (simp add: c2)
  ultimately have "fst (memo_query now' c m' t2) = Pending" using f2 by (simp add: memo_query_alt)
  then show ?thesis by (simp add: t2_def t1_def)
qed

definition list_session :: js where
  "list_session = Obj [(''event'', Str ''Customized''), (''data'', Obj [(''type'', Str ''ListSession'')])]"

definition session_list :: js where
  "session_list = Obj [(''event'', Str ''Customized''), (''data'', Obj [(''type'', Str ''SessionList'')])]"

lemmas memo_eval = new_MemoizedQueryTable_def DEFAULT_QUERY_DEFINITIONS_def DEFAULT_MEMOIZED_QUERY_TTL_MS_def
  memo_query_def notification_of_def request_of_def getCustomizedType_def getFreshNotification_def lookup2_def
  isPending_def markPending_def list_session_def session_list_def Let_def

theorem memo_query_coalesces_witness:
  "fst (memo_query 900 4 list_session (fold memo_exec [MSetRetry 0 4 ''ListSession'', MQuery 500 5 list_session]
     (snd (memo_query 0 4 list_session (new_MemoizedQueryTable None None))))) = Pending"
  by (rule memo_query_coalesces [where before = "[]" and defs = None and ttl = None and r = "''ListSession''"])
     (simp_all add: memo_eval)





end
