(* ===== verification/Report_Bridge.thy ===== *)
theory Report_Bridge
  imports Js_Value "HOL-Library.Sublist"
begin

text \<open>
  The bridge that carries the daemon's telemetry to one reporting-enabled connector
  (\<^verbatim>\<open>multiplexer/daemon/DaemonReportServiceBridge.ts\<close>).  Reports are forwarded at once while a
  connector is available and buffered, oldest dropped first, while none is.

  The constructor's argument \<^verbatim>\<open>send\<close> is a parameter; an exception it throws is caught and only
  logged, so what matters is what it does to the bridge before it returns: nothing, a
  synchronous \<^verbatim>\<open>updateStatus\<close> or a synchronous \<^verbatim>\<open>close\<close> (\<open>reentry\<close>).  What was sent is logged in
  the state.  \<open>bridge_run\<close> runs any sequence of calls.
\<close>

section \<open>State\<close>

record report_data =
  eventName :: string
  metrics :: js
  categories :: js

datatype report_status = Disconnected | Closed | ForwardTo int

datatype reentry = NoReentry | UpdateDuringSend report_status | CloseDuringSend

type_synonym report_send = "int \<Rightarrow> report_data \<Rightarrow> reentry"

record bridge =
  status :: report_status
  queue :: "report_data list"
  draining :: bool
  sent_reports :: "(int \<times> report_data) list"

definition MAX_REPORT_QUEUE_LENGTH :: nat where
  "MAX_REPORT_QUEUE_LENGTH = 100"

definition new_bridge :: bridge where
  "new_bridge = \<lparr>status = Disconnected, queue = [], draining = False, sent_reports = []\<rparr>"

section \<open>Operations\<close>

definition close_bridge :: "bridge \<Rightarrow> bridge" where
  "close_bridge b = b\<lparr>status := Closed, queue := []\<rparr>"

text \<open>\<open>forwardReport\<close> while the bridge drains: a nested \<^verbatim>\<open>updateStatus\<close> only sets the status.\<close>

definition forwardReport_draining :: "report_send \<Rightarrow> int \<Rightarrow> report_data \<Rightarrow> bridge \<Rightarrow> bridge" where
  "forwardReport_draining send c d b =
     (let b1 = b\<lparr>sent_reports := sent_reports b @ [(c, d)]\<rparr> in
      case send c d of
        NoReentry \<Rightarrow> b1
      | UpdateDuringSend s \<Rightarrow> if status b1 = Closed then b1 else b1\<lparr>status := s\<rparr>
      | CloseDuringSend \<Rightarrow> close_bridge b1)"

lemma forward_draining_queue:
  "length (queue (forwardReport_draining send c d b)) \<le> length (queue b)"
  by (auto simp: forwardReport_draining_def close_bridge_def Let_def split: reentry.split)

function drain_loop :: "report_send \<Rightarrow> bridge \<Rightarrow> bridge" where
  "drain_loop send b =
     (case (queue b, status b) of
        (d # q, ForwardTo c) \<Rightarrow> drain_loop send (forwardReport_draining send c d (b\<lparr>queue := q\<rparr>))
      | _ \<Rightarrow> b)"
  by pat_completeness auto
termination
  by (relation "measure (\<lambda>(s, b). length (queue b))")
     (auto intro!: le_less_trans [OF forward_draining_queue] dest!: arg_cong [where f = length])

declare drain_loop.simps [simp del]

definition drain :: "report_send \<Rightarrow> bridge \<Rightarrow> bridge" where
  "drain send b = (if draining b then b else (drain_loop send (b\<lparr>draining := True\<rparr>))\<lparr>draining := False\<rparr>)"

definition updateStatus :: "report_send \<Rightarrow> report_status \<Rightarrow> bridge \<Rightarrow> bridge" where
  "updateStatus send s b = (if status b = Closed then b else drain send (b\<lparr>status := s\<rparr>))"

definition forwardReport :: "report_send \<Rightarrow> int \<Rightarrow> report_data \<Rightarrow> bridge \<Rightarrow> bridge" where
  "forwardReport send c d b =
     (let b1 = b\<lparr>sent_reports := sent_reports b @ [(c, d)]\<rparr> in
      case send c d of
        NoReentry \<Rightarrow> b1
      | UpdateDuringSend s \<Rightarrow> updateStatus send s b1
      | CloseDuringSend \<Rightarrow> close_bridge b1)"

definition report :: "report_send \<Rightarrow> string \<Rightarrow> js \<Rightarrow> js \<Rightarrow> bridge \<Rightarrow> bridge" where
  "report send name m c b =
     (let d = \<lparr>eventName = name, metrics = nullish m Null, categories = nullish c Null\<rparr> in
      case status b of
        Closed \<Rightarrow> b
      | ForwardTo cid \<Rightarrow> forwardReport send cid d b
      | Disconnected \<Rightarrow>
          b\<lparr>queue := (if length (queue b) \<ge> MAX_REPORT_QUEUE_LENGTH then tl (queue b) else queue b) @ [d]\<rparr>)"

section \<open>Sequences of calls\<close>

datatype bridge_op = Report string js js | UpdateStatus report_status | CloseBridge

fun bridge_step :: "report_send \<Rightarrow> bridge_op \<Rightarrow> bridge \<Rightarrow> bridge" where
  "bridge_step send (Report n m c) b = report send n m c b"
| "bridge_step send (UpdateStatus s) b = updateStatus send s b"
| "bridge_step send CloseBridge b = close_bridge b"

abbreviation bridge_run :: "report_send \<Rightarrow> bridge_op list \<Rightarrow> bridge \<Rightarrow> bridge" where
  "bridge_run send \<equiv> fold (bridge_step send)"

fun reported :: "bridge_op list \<Rightarrow> report_data list" where
  "reported [] = []"
| "reported (Report n m c # ops) =
     \<lparr>eventName = n, metrics = nullish m Null, categories = nullish c Null\<rparr> # reported ops"
| "reported (op # ops) = reported ops"

lemma reported_append [simp]: "reported (xs @ ys) = reported xs @ reported ys"
  by (induction xs rule: reported.induct) auto

text \<open>Everything sent so far and still queued, in order.\<close>

abbreviation flow :: "bridge \<Rightarrow> report_data list" where
  "flow b \<equiv> map snd (sent_reports b) @ queue b"

definition forwarding :: "bridge \<Rightarrow> bool" where
  "forwarding b \<longleftrightarrow> (\<exists>c. status b = ForwardTo c)"

definition bridge_ok :: "bridge \<Rightarrow> bool" where
  "bridge_ok b \<longleftrightarrow> length (queue b) \<le> MAX_REPORT_QUEUE_LENGTH \<and> \<not> draining b \<and>
     (forwarding b \<longrightarrow> queue b = [])"

text \<open>What an operation may do to the reports under way: lose some, never reorder or repeat.\<close>

definition flows :: "report_data list \<Rightarrow> bridge \<Rightarrow> bridge \<Rightarrow> bool" where
  "flows new b b' \<longleftrightarrow> subseq (flow b') (flow b @ new) \<and> length (queue b') \<le> max (length (queue b)) 100"

lemma forward_draining_flow:
  assumes "queue b = d # q"
  shows "subseq (flow (forwardReport_draining send c d (b\<lparr>queue := q\<rparr>))) (flow b)"
  using assms
  by (auto simp: forwardReport_draining_def close_bridge_def Let_def split: reentry.split)

lemma drain_loop_flow:
  "subseq (flow (drain_loop send b)) (flow b) \<and> length (queue (drain_loop send b)) \<le> length (queue b) \<and>
   (forwarding (drain_loop send b) \<longrightarrow> queue (drain_loop send b) = []) \<and> draining (drain_loop send b) = draining b"
proof (induction send b rule: drain_loop.induct)
  case (1 send b)
  show ?case
  proof (cases "\<exists>d q c. queue b = d # q \<and> status b = ForwardTo c")
    case True
    then obtain d q c where q: "queue b = d # q" and s: "status b = ForwardTo c" by blast
    let ?b = "forwardReport_draining send c d (b\<lparr>queue := q\<rparr>)"
    have e: "drain_loop send b = drain_loop send ?b" by (simp add: drain_loop.simps [of send b] q s)
    have "subseq (flow ?b) (flow b)" using q by (rule forward_draining_flow)
    moreover have "length (queue ?b) \<le> length (queue b)"
      using forward_draining_queue [of send c d "b\<lparr>queue := q\<rparr>"] q by simp
    moreover have "draining ?b = draining b"
      by (auto simp: forwardReport_draining_def close_bridge_def Let_def split: reentry.split)
    moreover note "1.IH" [of "queue b" "status b" d q c] q s
    ultimately show ?thesis unfolding e using subseq_order.order_trans by fastforce
  next
    case False
    then show ?thesis
      by (auto simp: drain_loop.simps [of send b] forwarding_def split: list.splits report_status.splits)
  qed
qed

lemma drain_flow:
  assumes "\<not> draining b"
  shows "subseq (flow (drain send b)) (flow b)" "length (queue (drain send b)) \<le> length (queue b)"
    "forwarding (drain send b) \<longrightarrow> queue (drain send b) = []" "\<not> draining (drain send b)"
  using assms drain_loop_flow [of send "b\<lparr>draining := True\<rparr>"] by (auto simp: drain_def forwarding_def)

lemma updateStatus_ok:
  assumes "length (queue b) \<le> MAX_REPORT_QUEUE_LENGTH" and "\<not> draining b" and "status b = Closed \<Longrightarrow> bridge_ok b"
  shows "bridge_ok (updateStatus send s b)" and "subseq (flow (updateStatus send s b)) (flow b)"
  using assms drain_flow [of "b\<lparr>status := s\<rparr>" send] by (auto simp: updateStatus_def bridge_ok_def)

lemma subseq_extend [simp]: "subseq xs (xs @ ys)" "subseq (as @ xs) (as @ xs @ ys)"
  by (rule prefix_imp_subseq, simp)+

lemma bridge_step_ok:
  assumes "bridge_ok b"
  shows "bridge_ok (bridge_step send op b)"
    and "subseq (flow (bridge_step send op b)) (flow b @ reported [op])"
proof -
  have "bridge_ok (bridge_step send op b) \<and> subseq (flow (bridge_step send op b)) (flow b @ reported [op])"
  proof (cases op)
    case (Report n m c)
    let ?d = "\<lparr>eventName = n, metrics = nullish m Null, categories = nullish c Null\<rparr>"
    show ?thesis
    proof (cases "status b")
      case Disconnected
      have "subseq (tl (queue b)) (queue b)" by (cases "queue b") auto
      then show ?thesis
        using assms Disconnected
        by (auto simp: Report report_def bridge_ok_def forwarding_def MAX_REPORT_QUEUE_LENGTH_def subseq_append')
    next
      case Closed
      then show ?thesis using assms by (simp add: Report report_def)
    next
      case (ForwardTo cid)
      let ?b = "b\<lparr>sent_reports := sent_reports b @ [(cid, ?d)]\<rparr>"
      have q: "queue b = []" using assms ForwardTo by (auto simp: bridge_ok_def forwarding_def)
      have "bridge_ok ?b" using assms by (simp add: bridge_ok_def forwarding_def)
      then have "length (queue ?b) \<le> MAX_REPORT_QUEUE_LENGTH" "\<not> draining ?b" by (simp_all add: bridge_ok_def)
      note u = updateStatus_ok [OF this \<open>bridge_ok ?b\<close>, of send]
      have "bridge_ok (close_bridge ?b)" "subseq (flow (close_bridge ?b)) (flow ?b)"
        using assms by (auto simp: close_bridge_def bridge_ok_def forwarding_def)
      moreover have "flow b @ reported [op] = flow ?b" using q by (simp add: Report)
      moreover have "bridge_step send op b = forwardReport send cid ?d b"
        using ForwardTo by (simp add: Report report_def)
      ultimately show ?thesis
        using u \<open>bridge_ok ?b\<close> by (cases "send cid ?d") (simp_all add: forwardReport_def)
    qed
  next
    case (UpdateStatus s)
    then show ?thesis using assms updateStatus_ok [of b send s] by (auto simp: bridge_ok_def)
  next
    case CloseBridge
    then show ?thesis using assms by (auto simp: close_bridge_def bridge_ok_def forwarding_def)
  qed
  then show "bridge_ok (bridge_step send op b)" "subseq (flow (bridge_step send op b)) (flow b @ reported [op])"
    by auto
qed


lemma bridge_run_ok:
  assumes "bridge_ok b"
  shows "bridge_ok (bridge_run send ops b) \<and> subseq (flow (bridge_run send ops b)) (flow b @ reported ops)"
  using assms
proof (induction ops arbitrary: b)
  case (Cons op ops)
  note s = bridge_step_ok [OF Cons.prems, of send op]
  have "subseq (flow (bridge_step send op b) @ reported ops) ((flow b @ reported [op]) @ reported ops)"
    using s(2) by (simp only: subseq_append)
  moreover have "(flow b @ reported [op]) @ reported ops = flow b @ reported (op # ops)"
    using reported_append [of "[op]" ops] by simp
  ultimately show ?case
    using Cons.IH [OF s(1)] subseq_order.order_trans by fastforce
qed simp

lemma new_bridge_ok [simp]: "bridge_ok new_bridge"
  by (simp add: new_bridge_def bridge_ok_def forwarding_def)

lemma closed_step: "status b = Closed \<Longrightarrow> status (bridge_step send op b) = Closed \<and> sent_reports (bridge_step send op b) = sent_reports b"
  by (cases op) (auto simp: report_def updateStatus_def close_bridge_def)

lemma closed_run: "status b = Closed \<Longrightarrow> sent_reports (bridge_run send ops b) = sent_reports b"
  by (induction ops arbitrary: b) (use closed_step in auto)

text \<open>Without re-entrant calls, without closing and below the limit nothing is lost.\<close>

lemma drain_loop_quiet:
  assumes "\<And>c d. send c d = NoReentry"
  shows "flow (drain_loop send b) = flow b \<and> status (drain_loop send b) = status b \<and>
    length (queue (drain_loop send b)) \<le> length (queue b)"
  using assms
proof (induction send b rule: drain_loop.induct)
  case (1 send b)
  show ?case
  proof (cases "\<exists>d q c. queue b = d # q \<and> status b = ForwardTo c")
    case True
    then obtain d q c where q: "queue b = d # q" and s: "status b = ForwardTo c" by blast
    let ?b = "b\<lparr>queue := q, sent_reports := sent_reports b @ [(c, d)]\<rparr>"
    have f: "forwardReport_draining send c d (b\<lparr>queue := q\<rparr>) = ?b"
      using "1.prems" [of c d] by (simp add: forwardReport_draining_def)
    have e: "drain_loop send b = drain_loop send ?b"
      by (simp add: drain_loop.simps [of send b] q s f)
    have "flow (drain_loop send ?b) = flow ?b \<and> status (drain_loop send ?b) = status ?b \<and>
        length (queue (drain_loop send ?b)) \<le> length (queue ?b)"
      using "1.IH" [OF refl q s "1.prems"] by (simp only: f)
    then show ?thesis unfolding e by (simp add: q)
  next
    case False
    then show ?thesis by (auto simp: drain_loop.simps [of send b] split: list.splits report_status.splits)
  qed
qed

lemma quiet_step:
  assumes "\<And>c d. send c d = NoReentry" and "op \<noteq> CloseBridge" and "op \<noteq> UpdateStatus Closed"
    and "status b \<noteq> Closed" and "bridge_ok b" and "length (queue b) < MAX_REPORT_QUEUE_LENGTH"
  shows "flow (bridge_step send op b) = flow b @ reported [op] \<and> status (bridge_step send op b) \<noteq> Closed \<and>
    length (queue (bridge_step send op b)) \<le> length (queue b) + length (reported [op])"
proof (cases op)
  case (Report n m c)
  then show ?thesis
    using assms by (cases "status b") (auto simp: report_def forwardReport_def bridge_ok_def forwarding_def Let_def)
next
  case (UpdateStatus s)
  then show ?thesis
    using assms drain_loop_quiet [of send "b\<lparr>status := s, draining := True\<rparr>"]
    by (simp add: updateStatus_def drain_def bridge_ok_def)
qed (use assms in simp)

lemma quiet_run:
  assumes "\<And>c d. send c d = NoReentry" and "CloseBridge \<notin> set ops" and "UpdateStatus Closed \<notin> set ops"
    and "status b \<noteq> Closed" and "bridge_ok b" and "length (queue b) + length (reported ops) \<le> MAX_REPORT_QUEUE_LENGTH"
  shows "flow (bridge_run send ops b) = flow b @ reported ops"
  using assms
proof (induction ops arbitrary: b)
  case (Cons op ops)
  have r: "reported (op # ops) = reported [op] @ reported ops" using reported_append [of "[op]" ops] by simp
  show ?case
  proof (cases "reported [op] = [] \<and> length (queue b) = MAX_REPORT_QUEUE_LENGTH")
    case False
    with Cons.prems(6) have "length (queue b) < MAX_REPORT_QUEUE_LENGTH"
      by (cases "reported [op]") (auto simp: r)
    with quiet_step [of send op b] Cons.prems
    have s: "flow (bridge_step send op b) = flow b @ reported [op]" "status (bridge_step send op b) \<noteq> Closed"
      "length (queue (bridge_step send op b)) \<le> length (queue b) + length (reported [op])" by auto
    have "flow (bridge_run send ops (bridge_step send op b)) = flow (bridge_step send op b) @ reported ops"
      using Cons.prems s bridge_step_ok(1) [OF Cons.prems(5)] by (intro Cons.IH) (auto simp: r)
    then show ?thesis using s(1) by (simp add: r)
  next
    case True
    then obtain s where op: "op = UpdateStatus s" using Cons.prems(2) by (cases op) auto
    have "flow (bridge_step send op b) = flow b \<and> status (bridge_step send op b) \<noteq> Closed \<and>
        length (queue (bridge_step send op b)) \<le> length (queue b)"
      using Cons.prems drain_loop_quiet [of send "b\<lparr>status := s, draining := True\<rparr>"]
      by (auto simp: op updateStatus_def drain_def bridge_ok_def)
    moreover from this have "flow (bridge_run send ops (bridge_step send op b)) = flow (bridge_step send op b) @ reported ops"
      using Cons.prems bridge_step_ok(1) [OF Cons.prems(5)] True by (intro Cons.IH) (auto simp: r)
    ultimately show ?thesis using True by (simp add: r)
  qed
qed simp

section \<open>Properties\<close>

text \<open>
  (C11) The telemetry queue: whatever is reported, however often the reporting connector
  changes and whatever \<^verbatim>\<open>send\<close> does re-entrantly, reports reach connectors in the order they were
  made, none twice, at most 100 wait, none wait while a connector is available, and nothing is
  sent after \<^verbatim>\<open>close\<close>.  If \<^verbatim>\<open>send\<close> does not re-enter and at most 100 reports are made before the
  close, none is lost.
\<close>

theorem report_queue_fifo:
  "let b = bridge_run send ops new_bridge in
    subseq (map snd (sent_reports b) @ queue b) (reported ops) \<and>
    length (queue b) \<le> 100 \<and>
    (\<forall>c. status b = ForwardTo c \<longrightarrow> queue b = []) \<and>
    sent_reports (bridge_run send later (close_bridge b)) = sent_reports b \<and>
    ((\<forall>c d. send c d = NoReentry) \<and> CloseBridge \<notin> set ops \<and> UpdateStatus Closed \<notin> set ops \<and>
       length (reported ops) \<le> 100 \<longrightarrow>
     map snd (sent_reports b) @ queue b = reported ops)"
proof -
  define b where "b = bridge_run send ops new_bridge"
  have n: "flow new_bridge = []" "status new_bridge \<noteq> Closed" "queue new_bridge = []" by (simp_all add: new_bridge_def)
  have r: "bridge_ok b \<and> subseq (flow b) (reported ops)"
    using bridge_run_ok [OF new_bridge_ok, of send ops] n by (simp add: b_def)
  moreover have "sent_reports (bridge_run send later (close_bridge b)) = sent_reports b"
    using closed_run [of "close_bridge b" send later] by (simp add: close_bridge_def)
  moreover have "flow b = reported ops"
    if "\<forall>c d. send c d = NoReentry" "CloseBridge \<notin> set ops" "UpdateStatus Closed \<notin> set ops" "length (reported ops) \<le> 100"
    using quiet_run [of send ops new_bridge] n that by (simp add: b_def MAX_REPORT_QUEUE_LENGTH_def)
  ultimately show ?thesis
    unfolding b_def [symmetric] Let_def
    by (auto simp: bridge_ok_def forwarding_def MAX_REPORT_QUEUE_LENGTH_def)
qed

theorem report_queue_fifo_witness:
  "map (eventName \<circ> snd) (sent_reports (bridge_run (\<lambda>c d. NoReentry)
     [Report ''a'' Undefined Null, Report ''b'' Null Null, UpdateStatus (ForwardTo 3), Report ''c'' Null Null] new_bridge))
   = [''a'', ''b'', ''c'']"
proof -
  let ?ops = "[Report ''a'' Undefined Null, Report ''b'' Null Null, UpdateStatus (ForwardTo 3), Report ''c'' Null Null]"
  let ?b = "bridge_run (\<lambda>c d. NoReentry) ?ops new_bridge"
  have f: "status ?b = ForwardTo 3"
    by (simp add: new_bridge_def report_def updateStatus_def drain_def drain_loop.simps forwardReport_draining_def
        forwardReport_def MAX_REPORT_QUEUE_LENGTH_def)
  then have "queue ?b = []" "map snd (sent_reports ?b) @ queue ?b = reported ?ops"
    using report_queue_fifo [of "\<lambda>c d. NoReentry" ?ops "[]"] by (auto simp: Let_def)
  then have "map snd (sent_reports ?b) = reported ?ops" by simp
  then have "map eventName (map snd (sent_reports ?b)) = map eventName (reported ?ops)" by simp
  then show ?thesis by (simp add: o_def)
qed

end
