(* ===== verification/Legacy_Ownership.thy ===== *)
theory Legacy_Ownership
  imports Js_Number
begin

text \<open>
  The guard that shares the physical connection with drivers older than the multiplexer
  (\<^verbatim>\<open>multiplexer/daemon/LegacyOwnershipGuard.ts\<close>): the owner's process id is in a file that is
  only read and written while a lock directory is held.

  The file system is a record with the lock directory, the owner file and the calls that fail.
  Between two attempts to take the lock the guard sleeps; what other processes do to the file
  system meanwhile is the argument \<open>env\<close>.  The process id, the liveness of processes and the
  environment variable \<^verbatim>\<open>DriverCloseMultiOpen\<close> are arguments, and the changes given to
  \<^verbatim>\<open>onStatusChanged\<close> are outputs.
\<close>

section \<open>State\<close>

datatype ownership_status = Attached | Unattached | UnInit

datatype ownership_reason = DaemonStarted | LegacyPreempted | ReacquireRequested | StaleOwner | InvalidOwner

record ownership_change =
  change_status :: ownership_status
  ownerPid :: int
  previousOwnerPid :: "int option"
  change_reason :: ownership_reason

datatype owner_file = Missing | ReadError | Content string

record legacy_fs =
  lf_lock :: bool
  lf_owner :: owner_file
  lf_mkdir_error :: "string option"
  lf_rmdir_error :: "string option"
  lf_rm_error :: bool
  lf_write_error :: bool

record legacy_guard =
  currentStatus :: ownership_status
  guard_stopped :: bool
  monitorTimer :: bool

definition LEGACY_LOCK_ACQUIRE_MAX_ATTEMPTS :: nat where
  "LEGACY_LOCK_ACQUIRE_MAX_ATTEMPTS = 5"

definition new_guard :: legacy_guard where
  "new_guard = \<lparr>currentStatus = UnInit, guard_stopped = True, monitorTimer = False\<rparr>"

section \<open>The lock\<close>

text \<open>\<^verbatim>\<open>fs.mkdirSync(lockDir)\<close>, with the code of the error it throws.\<close>

definition mkdir_legacy :: "legacy_fs \<Rightarrow> string + legacy_fs" where
  "mkdir_legacy f =
     (if lf_lock f then Inl ''EEXIST''
      else case lf_mkdir_error f of Some e \<Rightarrow> Inl e | None \<Rightarrow> Inr (f\<lparr>lf_lock := True\<rparr>))"

definition rmdir_legacy :: "legacy_fs \<Rightarrow> string + legacy_fs" where
  "rmdir_legacy f =
     (if \<not> lf_lock f then Inl ''ENOENT''
      else case lf_rmdir_error f of Some e \<Rightarrow> Inl e | None \<Rightarrow> Inr (f\<lparr>lf_lock := False\<rparr>))"

text \<open>The \<^verbatim>\<open>for\<close> loop: \<open>Inl e\<close> rethrows, \<open>Inr (True, _)\<close> returned with the lock, \<open>Inr (False, _)\<close> ran out.\<close>

function attempt_lock :: "(nat \<Rightarrow> legacy_fs \<Rightarrow> legacy_fs) \<Rightarrow> nat \<Rightarrow> legacy_fs \<Rightarrow> (string \<times> legacy_fs) + (bool \<times> legacy_fs)" where
  "attempt_lock env attempt f =
     (if attempt < LEGACY_LOCK_ACQUIRE_MAX_ATTEMPTS then
        (case mkdir_legacy f of
           Inr f' \<Rightarrow> Inr (True, f')
         | Inl e \<Rightarrow>
             if e \<noteq> ''EEXIST'' then Inl (e, f)
             else attempt_lock env (Suc attempt)
                    (if attempt < LEGACY_LOCK_ACQUIRE_MAX_ATTEMPTS - 1 then env attempt f else f))
      else Inr (False, f))"
  by pat_completeness auto
termination
  by (relation "measure (\<lambda>(e, a, f). LEGACY_LOCK_ACQUIRE_MAX_ATTEMPTS - a)") auto

declare attempt_lock.simps [simp del]

text \<open>\<open>Inl e\<close>: the promise is rejected.\<close>

definition acquireLegacyLock :: "(nat \<Rightarrow> legacy_fs \<Rightarrow> legacy_fs) \<Rightarrow> legacy_fs \<Rightarrow> (string \<times> legacy_fs) + legacy_fs" where
  "acquireLegacyLock env f =
     (case attempt_lock env 0 f of
        Inl (e, f1) \<Rightarrow> Inl (e, f1)
      | Inr (True, f1) \<Rightarrow> Inr f1
      | Inr (False, f1) \<Rightarrow>
          (case rmdir_legacy f1 of
             Inl e \<Rightarrow> if e \<noteq> ''ENOENT'' then Inl (e, f1)
                      else (case mkdir_legacy f1 of Inl e' \<Rightarrow> Inl (e', f1) | Inr f3 \<Rightarrow> Inr f3)
           | Inr f2 \<Rightarrow> (case mkdir_legacy f2 of Inl e' \<Rightarrow> Inl (e', f2) | Inr f3 \<Rightarrow> Inr f3)))"

definition release_legacy :: "legacy_fs \<Rightarrow> legacy_fs" where
  "release_legacy f = (if lf_rm_error f then f else f\<lparr>lf_lock := False\<rparr>)"

text \<open>What runs under the lock: whether it threw, and the changes it reported.\<close>

type_synonym legacy_work =
  "legacy_guard \<Rightarrow> legacy_fs \<Rightarrow> bool \<times> legacy_guard \<times> legacy_fs \<times> ownership_change list"

definition withLegacyLock ::
    "(nat \<Rightarrow> legacy_fs \<Rightarrow> legacy_fs) \<Rightarrow> legacy_work \<Rightarrow> legacy_guard \<Rightarrow> legacy_fs
     \<Rightarrow> bool \<times> legacy_guard \<times> legacy_fs \<times> ownership_change list" where
  "withLegacyLock env work g f =
     (case acquireLegacyLock env f of
        Inl (e, f1) \<Rightarrow> (False, g, f1, [])
      | Inr f1 \<Rightarrow>
          (case work g f1 of
             (threw, g2, f2, out) \<Rightarrow> (\<not> threw, g2, release_legacy f2, out)))"

section \<open>The owner file\<close>

definition readOwnerPid :: "legacy_fs \<Rightarrow> int option" where
  "readOwnerPid f =
     (case lf_owner f of
        Missing \<Rightarrow> None
      | ReadError \<Rightarrow> None
      | Content text \<Rightarrow>
          if js_trim text = [] then None
          else (case js_Number (js_trim text) of
                  Fin q \<Rightarrow> if q = of_int \<lfloor>q\<rfloor> \<and> q > 0 then Some \<lfloor>q\<rfloor> else None
                | _ \<Rightarrow> None))"

definition writeOwnerPid :: "int \<Rightarrow> ownership_reason \<Rightarrow> int option \<Rightarrow> legacy_work" where
  "writeOwnerPid pid reason prev g f =
     (if lf_write_error f then (True, g, f, [])
      else (False, g\<lparr>currentStatus := Attached\<rparr>, f\<lparr>lf_owner := Content (show_int pid)\<rparr>,
            [\<lparr>change_status = Attached, ownerPid = pid, previousOwnerPid = prev, change_reason = reason\<rparr>]))"

section \<open>Operations\<close>

definition claim ::
    "int \<Rightarrow> (nat \<Rightarrow> legacy_fs \<Rightarrow> legacy_fs) \<Rightarrow> ownership_reason \<Rightarrow> legacy_guard \<Rightarrow> legacy_fs
     \<Rightarrow> bool \<times> legacy_guard \<times> legacy_fs \<times> ownership_change list" where
  "claim pid env reason = withLegacyLock env (\<lambda>g f. writeOwnerPid pid reason (readOwnerPid f) g f)"

definition monitor_work :: "int \<Rightarrow> (int \<Rightarrow> bool) \<Rightarrow> legacy_work" where
  "monitor_work pid alive g f =
     (case readOwnerPid f of
        Some p \<Rightarrow>
          if p = pid then
            (if currentStatus g \<noteq> Attached
             then (False, g\<lparr>currentStatus := Attached\<rparr>, f,
                   [\<lparr>change_status = Attached, ownerPid = pid, previousOwnerPid = None,
                     change_reason = ReacquireRequested\<rparr>])
             else (False, g, f, []))
          else if \<not> alive p then writeOwnerPid pid StaleOwner (Some p) g f
          else if currentStatus g = Attached
          then (False, g\<lparr>currentStatus := Unattached\<rparr>, f,
                [\<lparr>change_status = Unattached, ownerPid = pid, previousOwnerPid = Some p,
                  change_reason = LegacyPreempted\<rparr>])
          else (False, g, f, [])
      | None \<Rightarrow> writeOwnerPid pid InvalidOwner None g f)"

definition monitor ::
    "int \<Rightarrow> (int \<Rightarrow> bool) \<Rightarrow> (nat \<Rightarrow> legacy_fs \<Rightarrow> legacy_fs) \<Rightarrow> legacy_guard \<Rightarrow> legacy_fs
     \<Rightarrow> legacy_guard \<times> legacy_fs \<times> ownership_change list" where
  "monitor pid alive env g f =
     (if guard_stopped g then (g, f, []) else snd (withLegacyLock env (monitor_work pid alive) g f))"

definition guard_stop :: "legacy_guard \<Rightarrow> legacy_guard" where
  "guard_stop g = g\<lparr>guard_stopped := True, monitorTimer := False\<rparr>"

text \<open>\<^verbatim>\<open>start\<close>; \<open>stop_during\<close> tells whether \<^verbatim>\<open>stop\<close> was called while the claim was awaited.\<close>

definition guard_start ::
    "bool \<Rightarrow> int \<Rightarrow> (nat \<Rightarrow> legacy_fs \<Rightarrow> legacy_fs) \<Rightarrow> bool \<Rightarrow> legacy_guard \<Rightarrow> legacy_fs
     \<Rightarrow> legacy_guard \<times> legacy_fs \<times> ownership_change list" where
  "guard_start closeMultiOpen pid env stop_during g f =
     (if closeMultiOpen then (g\<lparr>currentStatus := Attached\<rparr>, f, [])
      else if monitorTimer g then (g, f, [])
      else case claim pid env DaemonStarted (g\<lparr>guard_stopped := False\<rparr>) f of
             (_, g1, f1, out) \<Rightarrow>
               let g2 = (if stop_during then guard_stop g1 else g1)
               in (if guard_stopped g2 then g2 else g2\<lparr>monitorTimer := True\<rparr>, f1, out))"

definition reacquire ::
    "bool \<Rightarrow> int \<Rightarrow> (nat \<Rightarrow> legacy_fs \<Rightarrow> legacy_fs) \<Rightarrow> legacy_guard \<Rightarrow> legacy_fs
     \<Rightarrow> bool \<times> legacy_guard \<times> legacy_fs \<times> ownership_change list" where
  "reacquire closeMultiOpen pid env g f =
     (if closeMultiOpen then (True, g, f, []) else claim pid env ReacquireRequested g f)"

section \<open>Lemmas\<close>

lemma readOwnerPid_written:
  assumes "0 < pid" and "lf_owner f = Content (show_int pid)"
  shows "readOwnerPid f = Some pid"
proof -
  have d: "list_all is_digit (show_int pid)" "show_int pid \<noteq> []"
    using assms(1) show_nat_digits by (simp_all add: show_int_nat)
  then have t: "js_trim (show_int pid) = show_int pid"
    by (intro js_trim_id) (auto simp: list_all_iff digit_not_trim)
  show ?thesis
    using assms d js_Number_show_int [of pid] by (simp add: readOwnerPid_def t)
qed

text \<open>The lock directory is there while the work runs, and the owner file is as the others left it.\<close>

lemma attempt_lock_held:
  "attempt_lock env a f = Inr (True, f') \<Longrightarrow> lf_lock f'"
proof (induction env a f rule: attempt_lock.induct)
  case (1 env a f)
  then show ?case
    by (subst (asm) (2) attempt_lock.simps)
       (auto simp: mkdir_legacy_def split: if_splits sum.splits option.splits)
qed

lemma acquire_held: "acquireLegacyLock env f = Inr f' \<Longrightarrow> lf_lock f'"
  by (auto simp: acquireLegacyLock_def mkdir_legacy_def attempt_lock_held
      split: sum.splits prod.splits bool.splits if_splits option.splits)

text \<open>A file system on which no call fails, and other processes that keep it so.\<close>

definition healthy :: "legacy_fs \<Rightarrow> bool" where
  "healthy f \<longleftrightarrow> lf_mkdir_error f = None \<and> lf_rmdir_error f = None \<and> \<not> lf_rm_error f \<and> \<not> lf_write_error f"

lemma healthy_update [simp]:
  "healthy (f\<lparr>lf_lock := b\<rparr>) = healthy f" "healthy (f\<lparr>lf_owner := x\<rparr>) = healthy f"
  by (simp_all add: healthy_def)

lemma attempt_lock_healthy:
  assumes "healthy f" and "\<And>a f. healthy f \<Longrightarrow> healthy (env a f)"
  shows "\<exists>b f'. attempt_lock env a f = Inr (b, f') \<and> healthy f'"
  using assms
proof (induction env a f rule: attempt_lock.induct)
  case (1 env a f)
  show ?case
  proof (cases "a < LEGACY_LOCK_ACQUIRE_MAX_ATTEMPTS")
    case False
    then show ?thesis using "1.prems" by (auto simp: attempt_lock.simps [of env a f])
  next
    case True
    show ?thesis
    proof (cases "lf_lock f")
      case False
      then show ?thesis using True "1.prems"
        by (auto simp: attempt_lock.simps [of env a f] mkdir_legacy_def healthy_def)
    next
      case lk: True
      let ?f = "if a < LEGACY_LOCK_ACQUIRE_MAX_ATTEMPTS - 1 then env a f else f"
      have "attempt_lock env a f = attempt_lock env (Suc a) ?f"
        using True lk by (simp add: attempt_lock.simps [of env a f] mkdir_legacy_def)
      moreover have "healthy ?f" using "1.prems" by simp
      moreover have "mkdir_legacy f = Inl ''EEXIST''" using lk by (simp add: mkdir_legacy_def)
      ultimately show ?thesis using "1.IH" [OF True _ _ _ "1.prems"(2)] by auto
    qed
  qed
qed

lemma acquire_healthy:
  assumes "healthy f" and "\<And>a f. healthy f \<Longrightarrow> healthy (env a f)"
  shows "\<exists>f'. acquireLegacyLock env f = Inr f' \<and> healthy f'"
proof -
  obtain b f1 where a: "attempt_lock env 0 f = Inr (b, f1)" "healthy f1"
    using attempt_lock_healthy [OF assms(1), of env 0] assms(2) by blast
  show ?thesis
    using a by (cases b; cases "lf_lock f1")
      (auto simp: acquireLegacyLock_def rmdir_legacy_def mkdir_legacy_def healthy_def)
qed

section \<open>Properties\<close>


definition held_fs :: legacy_fs where
  "held_fs = \<lparr>lf_lock = True, lf_owner = Content ''42'', lf_mkdir_error = None, lf_rmdir_error = None,
              lf_rm_error = False, lf_write_error = False\<rparr>"


text \<open>
  (C16) The monitor never takes ownership from a live process: it leaves the owner file as it is,
  becomes unattached and reports that once, when it was attached, and reports nothing
  otherwise; ownership is only taken from a missing, unreadable or dead owner.  It always leaves
  the lock directory removed.
\<close>

theorem legacy_monitor_respects_owner:
  assumes "healthy f" and "\<forall>a f. healthy f \<longrightarrow> healthy (env a f)" and "\<not> guard_stopped g" and "0 < pid"
    and "acquireLegacyLock env f = Inr f1" and "monitor pid alive env g f = (g', f', out)"
  shows "\<not> lf_lock f' \<and>
    (case readOwnerPid f1 of
       Some p \<Rightarrow>
         if p \<noteq> pid \<and> alive p then
           lf_owner f' = lf_owner f1 \<and> currentStatus g' \<noteq> Attached \<and>
           map (\<lambda>c. (change_status c, change_reason c, previousOwnerPid c)) out =
             (if currentStatus g = Attached then [(Unattached, LegacyPreempted, Some p)] else [])
         else readOwnerPid f' = Some pid \<and> currentStatus g' = Attached
     | None \<Rightarrow> readOwnerPid f' = Some pid \<and> currentStatus g' = Attached)"
proof -
  have "healthy f1" using acquire_healthy [of f env] assms(1,2,5) by auto
  then have h: "\<not> lf_rm_error f1" "\<not> lf_write_error f1" by (auto simp: healthy_def)
  have w: "readOwnerPid (x\<lparr>lf_owner := Content (show_int pid)\<rparr>) = Some pid" for x :: legacy_fs
    using assms(4) by (intro readOwnerPid_written) simp_all
  have k: "readOwnerPid (x\<lparr>lf_lock := b\<rparr>) = readOwnerPid x" for x :: legacy_fs and b
    by (simp add: readOwnerPid_def)
  have m: "(g', f', out) = snd (case monitor_work pid alive g f1 of (t, g2, f2, out) \<Rightarrow> (\<not> t, g2, release_legacy f2, out))"
    using assms(3,5,6) by (simp add: monitor_def withLegacyLock_def)
  show ?thesis
  proof (cases "readOwnerPid f1")
    case None
    then show ?thesis using m h w by (auto simp: monitor_work_def writeOwnerPid_def release_legacy_def k)
  next
    case (Some p)
    then show ?thesis
      using m h w by (cases "p = pid"; cases "alive p"; cases "currentStatus g = Attached")
        (auto simp: monitor_work_def writeOwnerPid_def release_legacy_def k)
  qed
qed

theorem legacy_monitor_respects_owner_witness:
  "lf_owner (fst (snd (monitor 7 (\<lambda>p. p = 42) (\<lambda>a f. f)
     \<lparr>currentStatus = Attached, guard_stopped = False, monitorTimer = True\<rparr> (held_fs\<lparr>lf_lock := False\<rparr>)))) = Content ''42''"
proof -
  let ?g = "\<lparr>currentStatus = Attached, guard_stopped = False, monitorTimer = True\<rparr>" and ?f = "held_fs\<lparr>lf_lock := False\<rparr>"
  have a: "acquireLegacyLock (\<lambda>a f. f) ?f = Inr held_fs"
    by (simp add: acquireLegacyLock_def attempt_lock.simps mkdir_legacy_def held_fs_def LEGACY_LOCK_ACQUIRE_MAX_ATTEMPTS_def)
  have "js_Number ''42'' = Fin 42" using js_Number_digits [of "''42''"] by (simp add: is_digit_def digits_val_def)
  then have o: "readOwnerPid held_fs = Some 42"
    by (simp add: readOwnerPid_def held_fs_def js_trim_def trim_ws_def)
  show ?thesis
    using legacy_monitor_respects_owner [of ?f "\<lambda>a f. f" ?g 7 held_fs "\<lambda>p. p = 42"] a o
    by (cases "monitor 7 (\<lambda>p. p = 42) (\<lambda>a f. f) ?g ?f") (simp add: healthy_def held_fs_def)
qed

end
