(* ===== verification/Control_Transport.thy ===== *)
theory Control_Transport
  imports Js_Json "HOL-Library.Sublist"
begin

text \<open>
  The framed JSON transport of the control socket
  (\<^verbatim>\<open>multiplexer/transport/MultiplexerControlTransport.ts\<close>).  A frame is the prefix \<^verbatim>\<open>$MUX\<close>, the
  length of the payload as a big-endian 32-bit integer and the payload, the JSON text of a
  message.

  The npm package \<^verbatim>\<open>bufferpack\<close> is a parameter: \<open>bufferpack\<close> holds what the format letter
  \<^verbatim>\<open>I\<close> packs and unpacks, \<open>bufferpack_law\<close> its documented behaviour on 32-bit integers, and
  \<open>be_bufferpack\<close> an instance that satisfies it.  The state of a transport is the part the
  listeners can reach (\<open>tconn\<close>: the socket, the limits, the error and the listeners) and the
  receive buffer, which only the transport touches.  The message listener is a function from the
  message, the connection and the listener's own state; it may send on the transport, destroy
  it or install another listener.
\<close>

section \<open>Parameter: the packing of 32-bit integers\<close>

record bufferpack =
  pack_u32 :: "nat \<Rightarrow> string"
  unpack_u32 :: "string \<Rightarrow> nat"

definition bufferpack_law :: "bufferpack \<Rightarrow> bool" where
  "bufferpack_law bp \<longleftrightarrow>
     (\<forall>n < 2 ^ 32. length (pack_u32 bp n) = 4 \<and> unpack_u32 bp (pack_u32 bp n) = n)"

section \<open>State\<close>

datatype terror =
    FrameTooLarge
  | BufferTooLarge
  | InvalidFrame
  | IncompleteFrame
  | NotWritable
  | SocketError string

datatype close_listener = Listener nat | EndWaiter nat nat
  \<comment> \<open>a registered listener, or the one of \<^verbatim>\<open>end()\<close>: its timer and its promise\<close>

record tconn =
  destroyed :: bool
  socket_writable :: bool
  maxFrameSize :: nat
  maxBufferSize :: nat
  closeError :: "terror option"
  written :: "string list"
  closeListeners :: "close_listener jsset"
  hasConnectListener :: bool
  end_timers :: "nat jsset"
  next_timer :: nat

record 'h transport =
  conn :: tconn
  buffer :: string
  handler_state :: 'h

type_synonym 'h listener = "js \<Rightarrow> tconn \<Rightarrow> 'h \<Rightarrow> tconn \<times> 'h"

definition FRAME_PREFIX :: string where
  "FRAME_PREFIX = ''$MUX''"

definition FRAME_HEADER_SIZE :: nat where
  "FRAME_HEADER_SIZE = 8"

definition CONTROL_TRANSPORT_END_TIMEOUT :: int where
  "CONTROL_TRANSPORT_END_TIMEOUT = 1000"

definition DEFAULT_MULTIPLEXER_CONTROL_MAX_FRAME_SIZE :: nat where
  "DEFAULT_MULTIPLEXER_CONTROL_MAX_FRAME_SIZE = 16 * 1024 * 1024"

definition DEFAULT_MULTIPLEXER_CONTROL_MAX_BUFFER_SIZE :: nat where
  "DEFAULT_MULTIPLEXER_CONTROL_MAX_BUFFER_SIZE = 32 * 1024 * 1024"

definition new_tconn :: "nat option \<Rightarrow> nat option \<Rightarrow> tconn" where
  "new_tconn mf mb =
     \<lparr>destroyed = False, socket_writable = True,
      maxFrameSize = (case mf of None \<Rightarrow> DEFAULT_MULTIPLEXER_CONTROL_MAX_FRAME_SIZE | Some n \<Rightarrow> n),
      maxBufferSize = (case mb of None \<Rightarrow> DEFAULT_MULTIPLEXER_CONTROL_MAX_BUFFER_SIZE | Some n \<Rightarrow> n),
      closeError = None, written = [], closeListeners = [], hasConnectListener = False,
      end_timers = [], next_timer = 0\<rparr>"

definition new_transport :: "nat option \<Rightarrow> nat option \<Rightarrow> 'h \<Rightarrow> 'h transport" where
  "new_transport mf mb h = \<lparr>conn = new_tconn mf mb, buffer = [], handler_state = h\<rparr>"

section \<open>Sending and closing\<close>

definition writable :: "tconn \<Rightarrow> bool" where
  "writable c \<longleftrightarrow> \<not> destroyed c \<and> socket_writable c"

definition destroy_transport :: "terror option \<Rightarrow> tconn \<Rightarrow> tconn" where
  "destroy_transport err c =
     (if destroyed c then c
      else c\<lparr>closeError := (case err of None \<Rightarrow> closeError c | Some e \<Rightarrow> Some e), destroyed := True\<rparr>)"

definition frame :: "bufferpack \<Rightarrow> string \<Rightarrow> string" where
  "frame bp payload = FRAME_PREFIX @ pack_u32 bp (length payload) @ payload"

definition send_message :: "bufferpack \<Rightarrow> js \<Rightarrow> tconn \<Rightarrow> bool \<times> tconn" where
  "send_message bp message c =
     (case json_stringify message of
        None \<Rightarrow> (False, c)
      | Some payload \<Rightarrow>
          if length payload > maxFrameSize c then (False, c)
          else if \<not> writable c then (False, destroy_transport (Some NotWritable) c)
          else (True, c\<lparr>written := written c @ [frame bp payload]\<rparr>))"

text \<open>\<^verbatim>\<open>onClose\<close>: the listeners that are called at once, and the connection.\<close>

definition onClose :: "close_listener \<Rightarrow> tconn \<Rightarrow> close_listener list \<times> tconn" where
  "onClose l c =
     (if destroyed c then ([l], c) else ([], c\<lparr>closeListeners := set_add l (closeListeners c)\<rparr>))"

definition offClose :: "close_listener \<Rightarrow> tconn \<Rightarrow> tconn" where
  "offClose l c = c\<lparr>closeListeners := set_delete l (closeListeners c)\<rparr>"

text \<open>\<^verbatim>\<open>end()\<close> with the promise \<open>p\<close>: \<open>True\<close> when it is resolved at once.\<close>

definition end_transport :: "nat \<Rightarrow> tconn \<Rightarrow> bool \<times> tconn" where
  "end_transport p c =
     (if destroyed c then (True, c)
      else let h = next_timer c;
               c1 = c\<lparr>end_timers := set_add h (end_timers c), next_timer := Suc h\<rparr>;
               (_, c2) = onClose (EndWaiter h p) c1
           in (False, c2\<lparr>socket_writable := False\<rparr>))"

definition fire_end_timer :: "nat \<Rightarrow> tconn \<Rightarrow> tconn" where
  "fire_end_timer h c =
     (if h \<in> set (end_timers c)
      then destroy_transport None (c\<lparr>end_timers := set_delete h (end_timers c)\<rparr>) else c)"

section \<open>Receiving\<close>

text \<open>\<^verbatim>\<open>Buffer.indexOf\<close>\<close>

fun index_of :: "string \<Rightarrow> string \<Rightarrow> nat option" where
  "index_of p [] = (if p = [] then Some 0 else None)"
| "index_of p (c # s) = (if prefix p (c # s) then Some 0 else map_option Suc (index_of p s))"

text \<open>
  One round of \<^verbatim>\<open>parseFrames\<close>: stop (the buffer that stays, and the error the transport is destroyed
  with), or a frame (its message and the buffer after it).
\<close>

datatype parse_round = Stop string "terror option" | Frame js string

definition parse_frame :: "bufferpack \<Rightarrow> nat \<Rightarrow> string \<Rightarrow> parse_round" where
  "parse_frame bp maxFrame buf =
     (case index_of FRAME_PREFIX buf of
        None \<Rightarrow> Stop (drop (length buf - length FRAME_PREFIX) buf) None
      | Some frameStart \<Rightarrow>
          let buf1 = drop frameStart buf in
          if length buf1 < FRAME_HEADER_SIZE then Stop buf1 None
          else
            let payloadLength = unpack_u32 bp (take 4 (drop 4 buf1)) in
            if payloadLength = 0 then Stop buf1 (Some InvalidFrame)
            else if payloadLength > maxFrame then Stop buf1 (Some FrameTooLarge)
            else
              let frameLength = FRAME_HEADER_SIZE + payloadLength in
              if length buf1 < frameLength then Stop buf1 None
              else
                (case json_parse (take payloadLength (drop FRAME_HEADER_SIZE buf1)) of
                   None \<Rightarrow> Stop buf1 (Some InvalidFrame)
                 | Some message \<Rightarrow> Frame message (drop frameLength buf1)))"

lemma parse_frame_shorter: "parse_frame bp mf buf = Frame m rest \<Longrightarrow> length rest < length buf"
  by (auto simp: parse_frame_def Let_def FRAME_HEADER_SIZE_def split: option.splits if_splits)

function parseFrames :: "bufferpack \<Rightarrow> 'h listener \<Rightarrow> 'h transport \<Rightarrow> 'h transport" where
  "parseFrames bp messageListener t =
     (if destroyed (conn t) \<or> length (buffer t) < FRAME_HEADER_SIZE then t
      else case parse_frame bp (maxFrameSize (conn t)) (buffer t) of
             Stop buf None \<Rightarrow> t\<lparr>buffer := buf\<rparr>
           | Stop buf (Some e) \<Rightarrow> t\<lparr>buffer := buf, conn := destroy_transport (Some e) (conn t)\<rparr>
           | Frame message rest \<Rightarrow>
               (case messageListener message (conn t) (handler_state t) of
                  (c, h) \<Rightarrow> parseFrames bp messageListener (t\<lparr>buffer := rest, conn := c, handler_state := h\<rparr>)))"
  by pat_completeness auto
termination
  by (relation "measure (\<lambda>(bp, l, t). length (buffer t))") (auto simp: parse_frame_shorter)

declare parseFrames.simps [simp del]

definition handleData :: "bufferpack \<Rightarrow> 'h listener \<Rightarrow> string \<Rightarrow> 'h transport \<Rightarrow> 'h transport" where
  "handleData bp messageListener chunk t =
     (if destroyed (conn t) \<or> length chunk = 0 then t
      else if length (buffer t) + length chunk > maxBufferSize (conn t)
      then t\<lparr>conn := destroy_transport (Some BufferTooLarge) (conn t)\<rparr>
      else parseFrames bp messageListener (t\<lparr>buffer := buffer t @ chunk\<rparr>))"

definition handleEnd :: "'h transport \<Rightarrow> 'h transport" where
  "handleEnd t =
     (let c = conn t;
          c1 = (if buffer t \<noteq> [] \<and> closeError c = None then c\<lparr>closeError := Some IncompleteFrame\<rparr> else c)
      in t\<lparr>conn := c1\<lparr>destroyed := True\<rparr>\<rparr>)"

definition handleSocketError :: "string \<Rightarrow> 'h transport \<Rightarrow> 'h transport" where
  "handleSocketError msg t = t\<lparr>conn := (conn t)\<lparr>closeError := Some (SocketError msg), destroyed := True\<rparr>\<rparr>"

text \<open>
  \<^verbatim>\<open>notifyClose\<close>, run when the socket has closed: every registered listener once, in the order of
  registration, with the error of the connection; the listener of \<^verbatim>\<open>end()\<close> clears its timer.
\<close>

definition clear_end_timer :: "close_listener \<Rightarrow> nat jsset \<Rightarrow> nat jsset" where
  "clear_end_timer l ts = (case l of Listener _ \<Rightarrow> ts | EndWaiter h _ \<Rightarrow> set_delete h ts)"

definition notifyClose :: "'h transport \<Rightarrow> (close_listener \<times> terror option) list \<times> 'h transport" where
  "notifyClose t =
     (let c = conn t; ls = closeListeners c
      in (map (\<lambda>l. (l, closeError c)) ls,
          t\<lparr>buffer := [],
            conn := c\<lparr>hasConnectListener := False, closeListeners := [],
                      end_timers := fold clear_end_timer ls (end_timers c)\<rparr>\<rparr>))"

section \<open>An instance of the parameter\<close>

definition be_bufferpack :: bufferpack where
  "be_bufferpack =
     \<lparr>pack_u32 = (\<lambda>n. map (\<lambda>k. char_of (n div 256 ^ k mod 256)) [3, 2, 1, 0]),
      unpack_u32 = foldl (\<lambda>a c. a * 256 + of_char c) 0\<rparr>"

lemma be_bufferpack_law: "bufferpack_law be_bufferpack"
proof -
  have e: "((n div 256 ^ 3 mod 256 * 256 + n div 256 ^ 2 mod 256) * 256 + n div 256 mod 256) * 256 + n mod 256 = n"
    if "n < 2 ^ 32" for n :: nat
  proof -
    have "n div 256 ^ 3 < 256" using that by (simp add: div_less_iff_less_mult)
    then have a: "n div 256 ^ 3 mod 256 = n div 256 ^ 3" by simp
    have b: "n div 256 ^ 3 * 256 + n div 256 ^ 2 mod 256 = n div 256 ^ 2"
      using div_mult_mod_eq [of "n div 256 ^ 2" 256] by (simp add: div_mult2_eq [symmetric] power2_eq_square power3_eq_cube mult.commute)
    have c: "n div 256 ^ 2 * 256 + n div 256 mod 256 = n div 256"
      using div_mult_mod_eq [of "n div 256" 256] by (simp add: div_mult2_eq [symmetric] power2_eq_square)
    show ?thesis unfolding a b c by simp
  qed
  have m: "(of_char (char_of (x mod 256) :: char) :: nat) = x mod 256" for x :: nat
    by simp
  show ?thesis
    unfolding bufferpack_law_def using e by (auto simp: be_bufferpack_def)
qed

section \<open>One frame\<close>

lemma index_of_prefix: "prefix p s \<Longrightarrow> index_of p s = Some 0"
  by (cases s) auto

lemma show_js_not_Nil: "wf_json v \<Longrightarrow> show_js v \<noteq> []"
  using show_js_start by fastforce

definition sendable :: "nat \<Rightarrow> js \<Rightarrow> bool" where
  "sendable mf m \<longleftrightarrow> wf_json m \<and> length (show_js m) \<le> mf"

abbreviation message_frame :: "bufferpack \<Rightarrow> js \<Rightarrow> string" where
  "message_frame bp m \<equiv> frame bp (show_js m)"

lemma message_frame_length:
  assumes "bufferpack_law bp" and "sendable mf m" and "mf < 2 ^ 32"
  shows "length (message_frame bp m) = FRAME_HEADER_SIZE + length (show_js m)"
proof -
  have "length (show_js m) < 2 ^ 32" using assms(2,3) by (simp add: sendable_def)
  then show ?thesis
    using assms(1) by (simp add: frame_def FRAME_PREFIX_def FRAME_HEADER_SIZE_def bufferpack_law_def)
qed

lemma frame_header:
  assumes bp: "bufferpack_law bp" and n: "length p < 2 ^ 32"
    and b: "prefix buf (frame bp p @ r)" and l: "FRAME_HEADER_SIZE \<le> length buf"
  shows "index_of FRAME_PREFIX buf = Some 0" and "unpack_u32 bp (take 4 (drop 4 buf)) = length p"
    and "drop FRAME_HEADER_SIZE buf = take (length buf - FRAME_HEADER_SIZE) (p @ r)"
proof -
  have u: "length (pack_u32 bp (length p)) = 4" "unpack_u32 bp (pack_u32 bp (length p)) = length p"
    using bp n by (auto simp: bufferpack_law_def)
  have buf: "buf = take (length buf) (FRAME_PREFIX @ pack_u32 bp (length p) @ p @ r)"
    using b unfolding prefix_def frame_def by (metis append.assoc append_eq_conv_conj)
  have l': "4 \<le> length buf" "8 \<le> length buf" using l by (auto simp: FRAME_HEADER_SIZE_def)
  have 1: "buf = FRAME_PREFIX @ pack_u32 bp (length p) @ take (length buf - 8) (p @ r)"
    by (subst buf) (use l' u in \<open>auto simp: FRAME_PREFIX_def take_Cons' diff_diff_add\<close>)
  show "index_of FRAME_PREFIX buf = Some 0" by (rule index_of_prefix) (subst 1, simp)
  show "unpack_u32 bp (take 4 (drop 4 buf)) = length p"
    by (subst 1) (use u in \<open>simp add: FRAME_PREFIX_def\<close>)
  show "drop FRAME_HEADER_SIZE buf = take (length buf - FRAME_HEADER_SIZE) (p @ r)"
    by (subst 1) (use u in \<open>simp add: FRAME_PREFIX_def FRAME_HEADER_SIZE_def\<close>)
qed

lemma parse_frame_complete:
  assumes bp: "bufferpack_law bp" and m: "sendable mf m" and mf: "mf < 2 ^ 32"
  shows "parse_frame bp mf (message_frame bp m @ r) = Frame m r"
proof -
  let ?p = "show_js m"
  have n: "length ?p < 2 ^ 32" "?p \<noteq> []" "length ?p \<le> mf" "wf_json m"
    using m mf show_js_not_Nil by (auto simp: sendable_def)
  have len: "length (message_frame bp m) = FRAME_HEADER_SIZE + length ?p"
    by (rule message_frame_length [OF bp m mf])
  note h = frame_header [OF bp n(1), of "message_frame bp m @ r" r, simplified len, simplified]
  have d: "drop (FRAME_HEADER_SIZE + length ?p) (message_frame bp m @ r) = r"
    unfolding len [symmetric] by simp
  show ?thesis
    using n h d len by (simp add: parse_frame_def Let_def json_roundtrip)
qed

lemma parse_frame_incomplete:
  assumes bp: "bufferpack_law bp" and m: "sendable mf m" and mf: "mf < 2 ^ 32"
    and b: "strict_prefix buf (message_frame bp m)" and l: "FRAME_HEADER_SIZE \<le> length buf"
  shows "parse_frame bp mf buf = Stop buf None"
proof -
  let ?p = "show_js m"
  have n: "length ?p < 2 ^ 32" "?p \<noteq> []" "length ?p \<le> mf"
    using m mf show_js_not_Nil by (auto simp: sendable_def)
  have "length buf < FRAME_HEADER_SIZE + length ?p"
    using prefix_length_less [OF b] message_frame_length [OF bp m mf] by simp
  moreover note frame_header [OF bp n(1), of buf "[]"] b l
  ultimately show ?thesis
    using n by (simp add: parse_frame_def Let_def strict_prefix_def)
qed

section \<open>Streams of frames\<close>

text \<open>A listener that leaves the connection \<open>c\<close> alone, and the state it ends in after some messages.\<close>

definition quiet :: "'h listener \<Rightarrow> tconn \<Rightarrow> bool" where
  "quiet l c \<longleftrightarrow> (\<forall>m h. fst (l m c h) = c)"

abbreviation deliver :: "'h listener \<Rightarrow> tconn \<Rightarrow> js list \<Rightarrow> 'h \<Rightarrow> 'h" where
  "deliver l c ms h \<equiv> fold (\<lambda>m h. snd (l m c h)) ms h"

text \<open>The incomplete frame that may stay in the buffer, followed by the messages \<open>ms\<close>.\<close>

definition partial_frame :: "bufferpack \<Rightarrow> js list \<Rightarrow> string \<Rightarrow> bool" where
  "partial_frame bp ms rest \<longleftrightarrow>
     (case ms of [] \<Rightarrow> rest = [] | m # _ \<Rightarrow> strict_prefix rest (message_frame bp m))"

lemma parseFrames_stream:
  assumes bp: "bufferpack_law bp" and mf: "maxFrameSize (conn t) < 2 ^ 32"
    and ms: "list_all (sendable (maxFrameSize (conn t))) ms"
    and l: "quiet l (conn t)" and d: "\<not> destroyed (conn t)"
    and b: "prefix (buffer t) (concat (map (message_frame bp) ms))"
  shows "\<exists>ms1 ms2 rest. ms = ms1 @ ms2 \<and> buffer t = concat (map (message_frame bp) ms1) @ rest \<and>
    partial_frame bp ms2 rest \<and>
    parseFrames bp l t = t\<lparr>buffer := rest, handler_state := deliver l (conn t) ms1 (handler_state t)\<rparr>"
  using assms
proof (induction ms arbitrary: t)
  case Nil
  then have "buffer t = []" by simp
  then show ?case
    by (intro exI [of _ "[]"]) (simp add: partial_frame_def parseFrames.simps [of bp l t] FRAME_HEADER_SIZE_def)
next
  case (Cons m ms)
  let ?f = "message_frame bp m" and ?c = "conn t"
  have m: "sendable (maxFrameSize ?c) m" using Cons.prems by simp
  note len = message_frame_length [OF bp m Cons.prems(2)]
  show ?case
  proof (cases "length (buffer t) < length ?f")
    case True
    then have sp: "strict_prefix (buffer t) ?f"
      using Cons.prems(6) by (auto simp: strict_prefix_def prefix_append)
    have "parseFrames bp l t = t"
    proof (cases "length (buffer t) < FRAME_HEADER_SIZE")
      case False
      then have "parse_frame bp (maxFrameSize ?c) (buffer t) = Stop (buffer t) None"
        using sp by (intro parse_frame_incomplete [OF bp m Cons.prems(2)]) auto
      then show ?thesis using Cons.prems(5) by (simp add: parseFrames.simps [of bp l t])
    qed (simp add: parseFrames.simps [of bp l t])
    with sp show ?thesis
      by (intro exI [of _ "[]"] exI [of _ "m # ms"] exI [of _ "buffer t"]) (simp add: partial_frame_def)
  next
    case False
    have "buffer t = ?f @ []" if "prefix (buffer t) ?f"
      using that False by (auto simp: prefix_def)
    then obtain b where b: "buffer t = ?f @ b" "prefix b (concat (map (message_frame bp) ms))"
      using Cons.prems(6) by (auto simp: prefix_append intro: that [of "[]"])
    define t' where "t' = t\<lparr>buffer := b, handler_state := snd (l m ?c (handler_state t))\<rparr>"
    have lm: "l m ?c (handler_state t) = (?c, snd (l m ?c (handler_state t)))"
      using Cons.prems(4) by (simp add: quiet_def prod_eq_iff)
    have pf: "parse_frame bp (maxFrameSize ?c) (buffer t) = Frame m b"
      unfolding b(1) by (rule parse_frame_complete [OF bp m Cons.prems(2)])
    have e: "t\<lparr>buffer := b, conn := ?c, handler_state := snd (l m ?c (handler_state t))\<rparr> = t'"
      unfolding t'_def by (cases t) simp
    have "\<not> (destroyed ?c \<or> length (buffer t) < FRAME_HEADER_SIZE)"
      using Cons.prems(5) b(1) len by simp
    then have "parseFrames bp l t = (case l m ?c (handler_state t) of
        (c, h) \<Rightarrow> parseFrames bp l (t\<lparr>buffer := b, conn := c, handler_state := h\<rparr>))"
      by (subst parseFrames.simps) (simp add: pf)
    also have "\<dots> = parseFrames bp l t'"
      by (subst lm) (simp only: prod.case e)
    finally have p: "parseFrames bp l t = parseFrames bp l t'" .
    have "\<exists>ms1 ms2 rest. ms = ms1 @ ms2 \<and> buffer t' = concat (map (message_frame bp) ms1) @ rest \<and>
      partial_frame bp ms2 rest \<and>
      parseFrames bp l t' = t'\<lparr>buffer := rest, handler_state := deliver l (conn t') ms1 (handler_state t')\<rparr>"
      using Cons.prems b(2) by (intro Cons.IH bp) (auto simp: t'_def)
    then obtain ms1 ms2 rest where r: "ms = ms1 @ ms2" "b = concat (map (message_frame bp) ms1) @ rest"
      "partial_frame bp ms2 rest"
      "parseFrames bp l t' = t'\<lparr>buffer := rest, handler_state := deliver l (conn t') ms1 (handler_state t')\<rparr>"
      by (auto simp: t'_def)
    then show ?thesis
      by (intro exI [of _ "m # ms1"] exI [of _ ms2] exI [of _ rest]) (simp add: p b(1) t'_def)
  qed
qed

lemma partial_frame_length:
  assumes "bufferpack_law bp" and "list_all (sendable mf) ms" and "mf < 2 ^ 32" and "partial_frame bp ms rest"
  shows "length rest < FRAME_HEADER_SIZE + mf"
proof (cases ms)
  case Nil
  with assms(4) show ?thesis by (simp add: partial_frame_def FRAME_HEADER_SIZE_def)
next
  case (Cons m ms')
  then have "sendable mf m" "strict_prefix rest (message_frame bp m)"
    using assms(2,4) by (auto simp: partial_frame_def)
  then show ?thesis
    using message_frame_length [OF assms(1) _ assms(3), of m] prefix_length_less [of rest "message_frame bp m"]
    by (simp add: sendable_def)
qed

lemma chunks_stream:
  assumes bp: "bufferpack_law bp" and mf: "maxFrameSize (conn t) < 2 ^ 32"
    and ms: "list_all (sendable (maxFrameSize (conn t))) ms"
    and l: "quiet l (conn t)" and d: "\<not> destroyed (conn t)"
    and p: "partial_frame bp ms (buffer t)"
    and b: "buffer t @ concat cs = concat (map (message_frame bp) ms)"
    and cs: "\<And>c. c \<in> set cs \<Longrightarrow> length c + FRAME_HEADER_SIZE + maxFrameSize (conn t) \<le> maxBufferSize (conn t)"
  shows "fold (handleData bp l) cs t = t\<lparr>buffer := [], handler_state := deliver l (conn t) ms (handler_state t)\<rparr>"
  using assms
proof (induction cs arbitrary: t ms)
  case Nil
  have "ms = []"
  proof (cases ms)
    case (Cons m ms')
    then have "strict_prefix (buffer t) (message_frame bp m)" using Nil.prems(6) by (simp add: partial_frame_def)
    then show ?thesis using Nil.prems(7) Cons prefix_length_less by fastforce
  qed simp
  with Nil.prems show ?case by simp
next
  case (Cons c cs)
  let ?c = "conn t"
  show ?case
  proof (cases "c = []")
    case True
    then have "handleData bp l c t = t" by (simp add: handleData_def)
    moreover have "fold (handleData bp l) cs t = t\<lparr>buffer := [], handler_state := deliver l ?c ms (handler_state t)\<rparr>"
      using Cons.prems True by (intro Cons.IH) auto
    ultimately show ?thesis by simp
  next
    case False
    define t1 where "t1 = t\<lparr>buffer := buffer t @ c\<rparr>"
    have "length (buffer t) < FRAME_HEADER_SIZE + maxFrameSize ?c"
      using Cons.prems by (intro partial_frame_length) auto
    moreover have "length c + FRAME_HEADER_SIZE + maxFrameSize ?c \<le> maxBufferSize ?c" using Cons.prems(8) by simp
    ultimately have h: "handleData bp l c t = parseFrames bp l t1"
      using False Cons.prems(5) by (simp add: handleData_def t1_def)
    have "prefix (buffer t1) (concat (map (message_frame bp) ms))"
      using Cons.prems(7) by (simp add: t1_def prefix_def) (metis append.assoc)
    with parseFrames_stream [of bp t1 ms l] Cons.prems
    obtain ms1 ms2 rest where r: "ms = ms1 @ ms2" "buffer t1 = concat (map (message_frame bp) ms1) @ rest"
      "partial_frame bp ms2 rest"
      "parseFrames bp l t1 = t1\<lparr>buffer := rest, handler_state := deliver l ?c ms1 (handler_state t)\<rparr>"
      by (auto simp: t1_def)
    define t2 where "t2 = parseFrames bp l t1"
    have t2: "conn t2 = ?c" "buffer t2 = rest" "handler_state t2 = deliver l ?c ms1 (handler_state t)"
      using r(4) by (auto simp: t2_def t1_def)
    have "buffer t2 @ concat cs = concat (map (message_frame bp) ms2)"
    proof -
      have "(buffer t @ c) @ concat cs = concat (map (message_frame bp) ms1) @ concat (map (message_frame bp) ms2)"
        using Cons.prems(7) r(1) by simp
      moreover have "buffer t @ c = concat (map (message_frame bp) ms1) @ rest" using r(2) by (simp add: t1_def)
      ultimately show ?thesis by (simp only: t2 append.assoc same_append_eq)
    qed
    then have "fold (handleData bp l) cs t2 = t2\<lparr>buffer := [], handler_state := deliver l (conn t2) ms2 (handler_state t2)\<rparr>"
      using Cons.prems r(1,3) by (intro Cons.IH) (auto simp: t2)
    moreover have "fold (handleData bp l) (c # cs) t = fold (handleData bp l) cs t2" by (simp add: h t2_def)
    moreover have "t2\<lparr>buffer := [], handler_state := x\<rparr> = t\<lparr>buffer := [], handler_state := x\<rparr>" for x
      by (simp only: t2_def r(4)) (simp add: t1_def)
    ultimately show ?thesis by (simp add: t2 r(1))
  qed
qed

section \<open>Sending\<close>

definition send_all :: "bufferpack \<Rightarrow> js list \<Rightarrow> tconn \<Rightarrow> tconn" where
  "send_all bp ms c = fold (\<lambda>m c. snd (send_message bp m c)) ms c"

lemma send_message_ok:
  assumes "sendable (maxFrameSize c) m" and "writable c"
  shows "send_message bp m c = (True, c\<lparr>written := written c @ [message_frame bp m]\<rparr>)"
  using assms by (auto simp: send_message_def sendable_def json_roundtrip_stringify)

lemma send_all_written:
  assumes "list_all (sendable (maxFrameSize c)) ms" and "writable c"
  shows "send_all bp ms c = c\<lparr>written := written c @ map (message_frame bp) ms\<rparr>"
  using assms
proof (induction ms arbitrary: c)
  case (Cons m ms)
  let ?c = "c\<lparr>written := written c @ [message_frame bp m]\<rparr>"
  have "send_all bp ms ?c = ?c\<lparr>written := written ?c @ map (message_frame bp) ms\<rparr>"
    using Cons.prems by (intro Cons.IH) (auto simp: writable_def)
  then show ?case using Cons.prems by (simp add: send_all_def send_message_ok)
qed (simp add: send_all_def)

section \<open>Bounds\<close>

text \<open>A listener that leaves the limits of the connection alone.\<close>

definition keeps_limits :: "'h listener \<Rightarrow> bool" where
  "keeps_limits l \<longleftrightarrow> (\<forall>m c h. maxFrameSize (fst (l m c h)) = maxFrameSize c \<and>
     maxBufferSize (fst (l m c h)) = maxBufferSize c)"

lemma destroy_limits [simp]:
  "maxFrameSize (destroy_transport e c) = maxFrameSize c"
  "maxBufferSize (destroy_transport e c) = maxBufferSize c"
  "destroyed (destroy_transport e c)"
  by (auto simp: destroy_transport_def)

lemma parse_frame_Stop_length:
  assumes "parse_frame bp mf buf = Stop buf' e"
  shows "length buf' \<le> length buf" and "e = None \<Longrightarrow> length buf' < FRAME_HEADER_SIZE + mf"
  using assms
  by (auto simp: parse_frame_def Let_def FRAME_HEADER_SIZE_def FRAME_PREFIX_def split: option.splits if_splits)

lemma parseFrames_bounds:
  assumes "keeps_limits l"
  shows "maxFrameSize (conn (parseFrames bp l t)) = maxFrameSize (conn t) \<and>
    maxBufferSize (conn (parseFrames bp l t)) = maxBufferSize (conn t) \<and>
    length (buffer (parseFrames bp l t)) \<le> length (buffer t) \<and>
    (destroyed (conn (parseFrames bp l t)) \<or>
     length (buffer (parseFrames bp l t)) < FRAME_HEADER_SIZE + maxFrameSize (conn t))"
  using assms
proof (induction bp l t rule: parseFrames.induct)
  case (1 bp l t)
  show ?case
  proof (cases "destroyed (conn t) \<or> length (buffer t) < FRAME_HEADER_SIZE")
    case True
    then show ?thesis by (auto simp: parseFrames.simps [of bp l t])
  next
    case False
    show ?thesis
    proof (cases "parse_frame bp (maxFrameSize (conn t)) (buffer t)")
      case (Stop buf e)
      with False parse_frame_Stop_length [OF Stop] show ?thesis
        by (cases e) (auto simp: parseFrames.simps [of bp l t])
    next
      case (Frame m rest)
      obtain c h where ch: "l m (conn t) (handler_state t) = (c, h)" by (cases "l m (conn t) (handler_state t)")
      have k: "maxFrameSize c = maxFrameSize (conn t)" "maxBufferSize c = maxBufferSize (conn t)"
        using "1.prems" ch unfolding keeps_limits_def by (metis fst_conv)+
      have e: "parseFrames bp l t = parseFrames bp l (t\<lparr>buffer := rest, conn := c, handler_state := h\<rparr>)"
        using False Frame ch by (subst parseFrames.simps) simp
      show ?thesis
        unfolding e using "1.IH" [OF False Frame ch [symmetric] "1.prems"] k parse_frame_shorter [OF Frame] by auto
    qed
  qed
qed

lemma handleData_destroyed: "destroyed (conn t) \<Longrightarrow> handleData bp l chunk t = t"
  by (simp add: handleData_def)

lemma fold_handleData_destroyed: "destroyed (conn t) \<Longrightarrow> fold (handleData bp l) cs t = t"
  by (induction cs) (auto simp: handleData_destroyed)

section \<open>Properties\<close>

definition collect :: "js list listener" where
  "collect m c h = (c, h @ [m])"

lemma quiet_collect [simp]: "quiet collect c"
  by (simp add: quiet_def collect_def)

lemma deliver_collect [simp]: "deliver collect c ms h = h @ ms"
  by (induction ms arbitrary: h) (auto simp: collect_def)

text \<open>
  (C8) End to end: the messages one side sends are the messages the other side's listener
  receives, in order and each once, however the byte stream is cut into chunks, provided each
  message is a JSON value whose text fits a frame and each chunk leaves room for one more frame
  in the buffer; nothing stays buffered and neither side is destroyed.
\<close>

theorem transport_roundtrip:
  assumes bp: "bufferpack_law bp" and mf: "maxFrameSize (conn t) < 2 ^ 32"
    and ms: "\<forall>m \<in> set ms. wf_json m \<and> length (show_js m) \<le> maxFrameSize (conn t)"
    and snd: "writable a" "maxFrameSize a = maxFrameSize (conn t)" "written a = []"
    and rcv: "\<not> destroyed (conn t)" "buffer t = []"
    and chunks: "concat cs = concat (written (send_all bp ms a))"
    and room: "\<forall>c \<in> set cs. length c + FRAME_HEADER_SIZE + maxFrameSize (conn t) \<le> maxBufferSize (conn t)"
  shows "fold (handleData bp collect) cs t = t\<lparr>handler_state := handler_state t @ ms\<rparr> \<and>
    writable (send_all bp ms a)"
proof -
  have s: "list_all (sendable (maxFrameSize (conn t))) ms" using ms by (auto simp: list_all_iff sendable_def)
  then have w: "send_all bp ms a = a\<lparr>written := map (message_frame bp) ms\<rparr>"
    using send_all_written [of a ms bp] snd by simp
  have pn: "partial_frame bp ms []"
  proof (cases ms)
    case (Cons m ms')
    have "message_frame bp m \<noteq> []" by (simp add: frame_def FRAME_PREFIX_def)
    with Cons show ?thesis by (simp add: partial_frame_def strict_prefix_def)
  qed (simp add: partial_frame_def)
  have "fold (handleData bp collect) cs t = t\<lparr>buffer := [], handler_state := handler_state t @ ms\<rparr>"
    using chunks_stream [OF bp mf s quiet_collect rcv(1), of cs] pn rcv(2) chunks room by (auto simp: w)
  also have "\<dots> = t\<lparr>handler_state := handler_state t @ ms\<rparr>" using rcv(2) by (cases t) simp
  finally show ?thesis using snd(1) by (simp add: w writable_def)
qed

definition sample_stream :: "js list \<Rightarrow> string" where
  "sample_stream ms = concat (written (send_all be_bufferpack ms (new_tconn None None)))"

theorem transport_roundtrip_witness:
  "fold (handleData be_bufferpack collect)
     [take 5 (sample_stream [Bool True, Null]), drop 5 (sample_stream [Bool True, Null])]
     (new_transport None None []) = new_transport None None [Bool True, Null]"
proof -
  have l: "length (sample_stream [Bool True, Null]) = 24"
    by (simp add: sample_stream_def send_all_def send_message_def json_stringify_def new_tconn_def writable_def
        frame_def FRAME_PREFIX_def be_bufferpack_def DEFAULT_MULTIPLEXER_CONTROL_MAX_FRAME_SIZE_def)
  let ?ms = "[Bool True, Null]" and ?t = "new_transport None None [] :: js list transport"
  let ?cs = "[take 5 (sample_stream ?ms), drop 5 (sample_stream ?ms)]"
  have t: "maxFrameSize (conn ?t) = 16777216" "maxBufferSize (conn ?t) = 33554432" "\<not> destroyed (conn ?t)"
      "buffer ?t = []"
    by (simp_all add: new_transport_def new_tconn_def DEFAULT_MULTIPLEXER_CONTROL_MAX_FRAME_SIZE_def
        DEFAULT_MULTIPLEXER_CONTROL_MAX_BUFFER_SIZE_def)
  have "fold (handleData be_bufferpack collect) ?cs ?t = ?t\<lparr>handler_state := handler_state ?t @ ?ms\<rparr> \<and>
      writable (send_all be_bufferpack ?ms (new_tconn None None))"
  proof (rule transport_roundtrip [OF be_bufferpack_law])
    show "concat ?cs = concat (written (send_all be_bufferpack ?ms (new_tconn None None)))"
      by (simp add: sample_stream_def)
    show "\<forall>c \<in> set ?cs. length c + FRAME_HEADER_SIZE + maxFrameSize (conn ?t) \<le> maxBufferSize (conn ?t)"
      using l by (simp add: t FRAME_HEADER_SIZE_def)
    show "writable (new_tconn None None)" "maxFrameSize (new_tconn None None) = maxFrameSize (conn ?t)"
      "written (new_tconn None None) = []"
      by (simp_all add: new_transport_def new_tconn_def writable_def)
  qed (simp_all add: t)
  then show ?thesis by (simp add: new_transport_def)
qed

text \<open>
  (C9) Memory: whatever the peer sends and whatever the listener does, a chunk never makes the
  buffer exceed \<open>maxBufferSize\<close>, and as long as the transport is open what stays buffered is less
  than one frame of maximal size.
\<close>

theorem transport_buffer_bound:
  assumes "keeps_limits l" and "length (buffer t) \<le> maxBufferSize (conn t)"
    and "destroyed (conn t) \<or> length (buffer t) < FRAME_HEADER_SIZE + maxFrameSize (conn t)"
  shows "let t' = fold (handleData bp l) cs t in
    length (buffer t') \<le> maxBufferSize (conn t) \<and>
    (destroyed (conn t') \<or> length (buffer t') < FRAME_HEADER_SIZE + maxFrameSize (conn t))"
proof -
  have step: "length (buffer (handleData bp l c t)) \<le> maxBufferSize (conn t) \<and>
      (destroyed (conn (handleData bp l c t)) \<or>
       length (buffer (handleData bp l c t)) < FRAME_HEADER_SIZE + maxFrameSize (conn t)) \<and>
      maxBufferSize (conn (handleData bp l c t)) = maxBufferSize (conn t) \<and>
      maxFrameSize (conn (handleData bp l c t)) = maxFrameSize (conn t)"
    if "length (buffer t) \<le> maxBufferSize (conn t)"
      "destroyed (conn t) \<or> length (buffer t) < FRAME_HEADER_SIZE + maxFrameSize (conn t)" for c t
    using that parseFrames_bounds [OF assms(1), of bp "t\<lparr>buffer := buffer t @ c\<rparr>"]
    by (auto simp: handleData_def)
  from assms(2,3) show ?thesis
  proof (induction cs arbitrary: t)
    case (Cons c cs)
    from step [OF Cons.prems, of c] Cons.IH [of "handleData bp l c t"] show ?case by simp
  qed (simp add: Let_def)
qed

theorem transport_buffer_bound_witness:
  "length (buffer (fold (handleData be_bufferpack collect) [''$MUX'', ''abc''] (new_transport None None []))) \<le> 33554432"
  using transport_buffer_bound [of collect "new_transport None None []" be_bufferpack "[''$MUX'', ''abc'']"]
  by (simp add: keeps_limits_def collect_def new_transport_def new_tconn_def FRAME_HEADER_SIZE_def Let_def
      DEFAULT_MULTIPLEXER_CONTROL_MAX_BUFFER_SIZE_def)

text \<open>
  (C10) Bad input: a frame whose header announces no payload or too much, or whose payload is
  not JSON, destroys the transport with the error of its kind before anything is delivered, and
  nothing received later reaches the listener.
\<close>

theorem bad_frame_destroys:
  assumes "\<not> destroyed (conn t)" and "closeError (conn t) = None" and "buffer t = []"
    and "length hdr = 4" and "n = unpack_u32 bp hdr"
    and "length (FRAME_PREFIX @ hdr @ rest) \<le> maxBufferSize (conn t)"
    and "if n = 0 then e = InvalidFrame
         else if n > maxFrameSize (conn t) then e = FrameTooLarge
         else n \<le> length rest \<and> json_parse (take n rest) = None \<and> e = InvalidFrame"
  shows "let t' = fold (handleData bp l) cs (handleData bp l (FRAME_PREFIX @ hdr @ rest) t) in
    destroyed (conn t') \<and> closeError (conn t') = Some e \<and> handler_state t' = handler_state t"
proof -
  define b where "b = FRAME_PREFIX @ hdr @ rest"
  have "prefix FRAME_PREFIX b" by (simp add: b_def)
  then have i: "index_of FRAME_PREFIX b = Some 0" by (rule index_of_prefix)
  have h: "take 4 (drop 4 b) = hdr" "drop FRAME_HEADER_SIZE b = rest"
      "length b = FRAME_HEADER_SIZE + length rest" "b \<noteq> []"
    using assms(4) by (auto simp: b_def FRAME_PREFIX_def FRAME_HEADER_SIZE_def)
  have "parse_frame bp (maxFrameSize (conn t)) b = Stop b (Some e)"
    using assms(5,7) i h by (auto simp: parse_frame_def Let_def split: if_splits)
  then have "handleData bp l b t = t\<lparr>buffer := b, conn := destroy_transport (Some e) (conn t)\<rparr>"
    using assms(1,3) assms(6) [folded b_def] h
    by (auto simp: handleData_def parseFrames.simps FRAME_HEADER_SIZE_def)
  then show ?thesis
    unfolding b_def [symmetric] using assms(1)
    by (simp add: Let_def fold_handleData_destroyed) (simp add: destroy_transport_def)
qed

theorem bad_frame_destroys_witness:
  "closeError (conn (fold (handleData be_bufferpack collect) [''more'']
     (handleData be_bufferpack collect (FRAME_PREFIX @ [CHR 0x00, CHR 0x00, CHR 0x00, CHR 0x00] @ ''x'')
       (new_transport None None [])))) = Some InvalidFrame"
proof -
  let ?t = "new_transport None None [] :: js list transport"
  have t: "\<not> destroyed (conn ?t)" "closeError (conn ?t) = None" "buffer ?t = []" "maxBufferSize (conn ?t) = 33554432"
    by (simp_all add: new_transport_def new_tconn_def DEFAULT_MULTIPLEXER_CONTROL_MAX_BUFFER_SIZE_def)
  have "let t' = fold (handleData be_bufferpack collect) [''more'']
      (handleData be_bufferpack collect (FRAME_PREFIX @ [CHR 0x00, CHR 0x00, CHR 0x00, CHR 0x00] @ ''x'') ?t)
    in destroyed (conn t') \<and> closeError (conn t') = Some InvalidFrame \<and> handler_state t' = handler_state ?t"
    by (rule bad_frame_destroys [where n = 0])
       (simp_all add: t be_bufferpack_def FRAME_PREFIX_def)
  then show ?thesis by (simp only: Let_def)
qed

end
