(* ===== verification/Control_Server.thy ===== *)
theory Control_Server
  imports Control_Transport Protocol_Validation
begin

text \<open>
  The daemon's control channel: \<^verbatim>\<open>MultiplexerControlServer.ts\<close> (handshake, registration, dispatch)
  and \<^verbatim>\<open>MultiplexerControlConnection.ts\<close> (one registered connection).

  A socket is a number.  The state holds, per socket, its transport and the message listener that
  is installed on it, the set of provisional transports, the armed handshake timers, the
  connection objects with their flag \<^verbatim>\<open>closed\<close>, and the map \<^verbatim>\<open>connections\<close> of the registered
  ones.  The calls into the daemon host are outputs (\<open>host_call\<close>); what the host answers comes
  back as the event \<open>RpcDone\<close>.  \<open>server_step\<close> is one event, \<open>server_run\<close> a sequence.
\<close>

section \<open>State\<close>

record server_option =
  bp :: bufferpack
  protocolVersion :: int
  debugInfo :: "js option"
  processId :: int

datatype msg_listener = NoListener | HandshakeListener | ConnectionListener int

record control_conn =
  conn_transport :: nat
  conn_closed :: bool

record control_server =
  transports :: "(nat, tconn) jsmap"
  listeners :: "(nat, msg_listener) jsmap"
  handshakeTimers :: "nat jsset"
  provisionalTransports :: "nat jsset"
  conn_objects :: "(int, control_conn) jsmap"
  connections :: "(int, unit) jsmap"
  nextControlId :: int

datatype host_call =
    HandleControlConnected int bool js
  | HandleControlRpc int js
  | HandleControlDisconnected int

definition new_server :: control_server where
  "new_server = \<lparr>transports = [], listeners = [], handshakeTimers = [], provisionalTransports = [],
                 conn_objects = [], connections = [], nextControlId = 1\<rparr>"

definition INVALID_MESSAGE_RPC_ID :: int where
  "INVALID_MESSAGE_RPC_ID = -1"

section \<open>Messages the server builds\<close>

definition createDebugInfo :: "server_option \<Rightarrow> int \<Rightarrow> js option" where
  "createDebugInfo opt timestamp =
     (case debugInfo opt of
        None \<Rightarrow> None
      | Some d \<Rightarrow> Some (jput (jput (jput d ''protocolVersion'' (int_num (protocolVersion opt)))
                              ''processId'' (int_num (processId opt))) ''timestamp'' (int_num timestamp)))"

definition with_debugInfo :: "js option \<Rightarrow> js \<Rightarrow> js" where
  "with_debugInfo d m = (case d of None \<Rightarrow> m | Some x \<Rightarrow> jput m ''debugInfo'' x)"

definition health_response :: "server_option \<Rightarrow> int \<Rightarrow> bool \<Rightarrow> js" where
  "health_response opt now inUse =
     with_debugInfo (createDebugInfo opt now)
       (Obj [(''kind'', Str ''health-response''), (''ok'', Bool True),
             (''protocolVersion'', int_num (protocolVersion opt)), (''isInUse'', Bool inUse)])"

definition register_response :: js where
  "register_response = Obj [(''kind'', Str ''register-response''), (''ok'', Bool True)]"

definition handshake_error :: "string \<Rightarrow> string \<Rightarrow> js" where
  "handshake_error code msg =
     Obj [(''kind'', Str ''handshake-error-response''),
          (''error'', Obj [(''code'', Str code), (''message'', Str msg)])]"

definition rpc_success :: "js \<Rightarrow> js \<Rightarrow> js" where
  "rpc_success rpcId result =
     Obj [(''kind'', Str ''rpc-response''), (''id'', rpcId), (''ok'', Bool True),
          (''result'', if result = Undefined then Obj [] else result)]"

definition rpc_failure :: "js \<Rightarrow> js \<Rightarrow> js" where
  "rpc_failure rpcId error =
     Obj [(''kind'', Str ''rpc-response''), (''id'', rpcId), (''ok'', Bool False), (''error'', error)]"

text \<open>
  \<^verbatim>\<open>createRpcError\<close>: what was thrown is an object of the shape of \<^verbatim>\<open>ControlRpcError\<close>, another
  \<^verbatim>\<open>Error\<close> with a message, or anything else.
\<close>

datatype thrown = ThrownObject js | ThrownError string | ThrownOther

definition createRpcError :: "thrown \<Rightarrow> js" where
  "createRpcError e =
     (case e of
        ThrownObject v \<Rightarrow>
          if isString (jget v ''code'') \<and> isString (jget v ''message'') then
            Obj ([(''code'', jget v ''code''), (''message'', jget v ''message'')] @
                 (if jget v ''details'' \<noteq> Undefined then [(''details'', jget v ''details'')] else []))
          else Obj [(''code'', Str ''control-rpc-failed''), (''message'', Str ''Multiplexer control RPC failed'')]
      | ThrownError m \<Rightarrow> Obj [(''code'', Str ''control-rpc-failed''), (''message'', Str m)]
      | ThrownOther \<Rightarrow> Obj [(''code'', Str ''control-rpc-failed''), (''message'', Str ''Multiplexer control RPC failed'')])"

section \<open>Transports of the server\<close>

definition transport_send :: "server_option \<Rightarrow> nat \<Rightarrow> js \<Rightarrow> control_server \<Rightarrow> bool \<times> control_server" where
  "transport_send opt s m sv =
     (case map_of (transports sv) s of
        None \<Rightarrow> (False, sv)
      | Some c \<Rightarrow> (case send_message (bp opt) m c of
                    (ok, c') \<Rightarrow> (ok, sv\<lparr>transports := AList.update s c' (transports sv)\<rparr>)))"

definition transport_end :: "nat \<Rightarrow> control_server \<Rightarrow> control_server" where
  "transport_end s sv =
     (case map_of (transports sv) s of
        None \<Rightarrow> sv
      | Some c \<Rightarrow> sv\<lparr>transports := AList.update s (snd (end_transport 0 c)) (transports sv)\<rparr>)"

definition set_listener :: "nat \<Rightarrow> msg_listener \<Rightarrow> control_server \<Rightarrow> control_server" where
  "set_listener s l sv = sv\<lparr>listeners := AList.update s l (listeners sv)\<rparr>"

section \<open>A registered connection\<close>

definition conn_send :: "server_option \<Rightarrow> int \<Rightarrow> int \<Rightarrow> js \<Rightarrow> control_server \<Rightarrow> control_server" where
  "conn_send opt now cid m sv =
     (case map_of (conn_objects sv) cid of
        None \<Rightarrow> sv
      | Some k \<Rightarrow>
          if conn_closed k then sv
          else snd (transport_send opt (conn_transport k) (with_debugInfo (createDebugInfo opt now) m) sv))"

definition unregisterConnection :: "int \<Rightarrow> control_server \<Rightarrow> host_call list \<times> control_server" where
  "unregisterConnection cid sv =
     ([HandleControlDisconnected cid], sv\<lparr>connections := AList.delete cid (connections sv)\<rparr>)"

definition conn_handleClose :: "int \<Rightarrow> control_server \<Rightarrow> host_call list \<times> control_server" where
  "conn_handleClose cid sv =
     (case map_of (conn_objects sv) cid of
        None \<Rightarrow> ([], sv)
      | Some k \<Rightarrow>
          if conn_closed k then ([], sv)
          else unregisterConnection cid
                 (set_listener (conn_transport k) NoListener
                    (sv\<lparr>conn_objects := AList.update cid (k\<lparr>conn_closed := True\<rparr>) (conn_objects sv)\<rparr>)))"

definition conn_close :: "int \<Rightarrow> control_server \<Rightarrow> host_call list \<times> control_server" where
  "conn_close cid sv =
     (case conn_handleClose cid sv of
        (out, sv1) \<Rightarrow>
          (out, case map_of (conn_objects sv1) cid of None \<Rightarrow> sv1 | Some k \<Rightarrow> transport_end (conn_transport k) sv1))"

definition conn_handleTransportMessage ::
    "server_option \<Rightarrow> int \<Rightarrow> int \<Rightarrow> js \<Rightarrow> control_server \<Rightarrow> host_call list \<times> control_server" where
  "conn_handleTransportMessage opt now cid v sv =
     (case map_of (conn_objects sv) cid of
        None \<Rightarrow> ([], sv)
      | Some k \<Rightarrow>
          if conn_closed k then ([], sv)
          else if \<not> isControlRpcRequest v then
            let rpcId = (if isRecord v \<and> isNumber (jget v ''id'') then jget v ''id'' else int_num INVALID_MESSAGE_RPC_ID)
            in ([], conn_send opt now cid
                      (rpc_failure rpcId (Obj [(''code'', Str ''invalid-control-message''),
                                              (''message'', Str ''Invalid multiplexer control message'')])) sv)
          else ([HandleControlRpc cid v], sv))"

section \<open>The server\<close>

definition registerConnection :: "nat \<Rightarrow> control_server \<Rightarrow> int \<times> control_server" where
  "registerConnection s sv =
     (let cid = nextControlId sv;
          sv1 = sv\<lparr>provisionalTransports := set_delete s (provisionalTransports sv), nextControlId := cid + 1\<rparr>;
          sv2 = set_listener s (ConnectionListener cid)
                  (sv1\<lparr>conn_objects := AList.update cid \<lparr>conn_transport = s, conn_closed = False\<rparr> (conn_objects sv1)\<rparr>)
      in (cid, sv2\<lparr>connections := AList.update cid () (connections sv2)\<rparr>))"

definition handleSocket :: "nat \<Rightarrow> control_server \<Rightarrow> control_server" where
  "handleSocket s sv =
     sv\<lparr>transports := AList.update s (new_tconn None None) (transports sv),
        listeners := AList.update s HandshakeListener (listeners sv),
        handshakeTimers := set_add s (handshakeTimers sv),
        provisionalTransports := set_add s (provisionalTransports sv)\<rparr>"

definition handshake_message ::
    "server_option \<Rightarrow> int \<Rightarrow> bool \<Rightarrow> nat \<Rightarrow> js \<Rightarrow> control_server \<Rightarrow> host_call list \<times> control_server" where
  "handshake_message opt now inUse s m sv =
     (let sv1 = set_listener s NoListener (sv\<lparr>handshakeTimers := set_delete s (handshakeTimers sv)\<rparr>) in
      if isMultiplexerHealthRequest m then
        ([], transport_end s (snd (transport_send opt s (health_response opt now inUse) sv1)))
      else if isMultiplexerRegisterRequest m then
        (case transport_send opt s register_response sv1 of
           (False, sv2) \<Rightarrow> ([], sv2)
         | (True, sv2) \<Rightarrow>
             (case registerConnection s sv2 of
                (cid, sv3) \<Rightarrow>
                  ([HandleControlConnected cid (truthy (jget m ''reportServiceEnabled'')) (jget m ''connectorFacadeOption'')],
                   sv3)))
      else
        ([], transport_end s (snd (transport_send opt s
               (handshake_error ''invalid-control-handshake''
                  ''First control message must be a valid health or register request'') sv1))))"

definition handle_message ::
    "server_option \<Rightarrow> int \<Rightarrow> bool \<Rightarrow> nat \<Rightarrow> js \<Rightarrow> control_server \<Rightarrow> host_call list \<times> control_server" where
  "handle_message opt now inUse s m sv =
     (case map_of (listeners sv) s of
        Some HandshakeListener \<Rightarrow> handshake_message opt now inUse s m sv
      | Some (ConnectionListener cid) \<Rightarrow> conn_handleTransportMessage opt now cid m sv
      | _ \<Rightarrow> ([], sv))"

definition handshake_timeout :: "server_option \<Rightarrow> nat \<Rightarrow> control_server \<Rightarrow> control_server" where
  "handshake_timeout opt s sv =
     (if s \<notin> set (handshakeTimers sv) then sv
      else transport_end s (snd (transport_send opt s
             (handshake_error ''control-handshake-timeout'' ''Timed out waiting for the first control message'')
             (set_listener s NoListener (sv\<lparr>handshakeTimers := set_delete s (handshakeTimers sv)\<rparr>)))))"

text \<open>The socket has closed: the listener of \<^verbatim>\<open>handleSocket\<close> runs, then the one of the connection.\<close>

definition handle_close :: "nat \<Rightarrow> control_server \<Rightarrow> host_call list \<times> control_server" where
  "handle_close s sv =
     (let l = map_of (listeners sv) s;
          sv1 = set_listener s NoListener
                  (sv\<lparr>handshakeTimers := set_delete s (handshakeTimers sv),
                      provisionalTransports := set_delete s (provisionalTransports sv),
                      transports := AList.delete s (transports sv)\<rparr>)
      in case l of Some (ConnectionListener cid) \<Rightarrow> conn_handleClose cid sv1 | _ \<Rightarrow> ([], sv1))"

definition broadcast :: "server_option \<Rightarrow> int \<Rightarrow> js \<Rightarrow> control_server \<Rightarrow> control_server" where
  "broadcast opt now event sv = fold (\<lambda>cid. conn_send opt now cid event) (map_keys (connections sv)) sv"

definition sendToControl :: "server_option \<Rightarrow> int \<Rightarrow> int \<Rightarrow> js \<Rightarrow> control_server \<Rightarrow> control_server" where
  "sendToControl opt now cid event sv =
     (if map_has (connections sv) cid then conn_send opt now cid event sv else sv)"

text \<open>The second half of \<^verbatim>\<open>dispatchRpc\<close>, when the host's promise has settled.\<close>

definition rpc_done :: "server_option \<Rightarrow> int \<Rightarrow> int \<Rightarrow> js \<Rightarrow> thrown + js \<Rightarrow> control_server \<Rightarrow> control_server" where
  "rpc_done opt now cid rpcId r sv =
     (case r of
        Inr result \<Rightarrow> conn_send opt now cid (rpc_success rpcId result) sv
      | Inl e \<Rightarrow> conn_send opt now cid (rpc_failure rpcId (createRpcError e)) sv)"

fun close_all :: "int list \<Rightarrow> control_server \<Rightarrow> host_call list \<times> control_server" where
  "close_all [] sv = ([], sv)"
| "close_all (cid # cids) sv =
     (case conn_close cid sv of (out, sv1) \<Rightarrow>
       (case close_all cids sv1 of (out', sv2) \<Rightarrow> (out @ out', sv2)))"

definition server_stop :: "control_server \<Rightarrow> host_call list \<times> control_server" where
  "server_stop sv =
     (let sv1 = (fold transport_end (provisionalTransports sv) sv)\<lparr>provisionalTransports := []\<rparr>;
          cids = map_keys (connections sv1)
      in close_all cids (sv1\<lparr>connections := []\<rparr>))"

section \<open>Events\<close>

datatype server_event =
    SockOpen nat
  | SockMessage nat js bool
  | HandshakeTimeout nat
  | SockClosed nat
  | RpcDone int js "thrown + js"
  | BroadcastEvent js
  | SendTo int js
  | StopServer

text \<open>A socket is opened once, and an open one delivers messages.\<close>

fun server_step :: "server_option \<Rightarrow> int \<Rightarrow> server_event \<Rightarrow> control_server \<Rightarrow> host_call list \<times> control_server" where
  "server_step opt now (SockOpen s) sv = ([], if map_has (listeners sv) s then sv else handleSocket s sv)"
| "server_step opt now (SockMessage s m inUse) sv = handle_message opt now inUse s m sv"
| "server_step opt now (HandshakeTimeout s) sv = ([], handshake_timeout opt s sv)"
| "server_step opt now (SockClosed s) sv = (if map_has (transports sv) s then handle_close s sv else ([], sv))"
| "server_step opt now (RpcDone cid i r) sv = ([], rpc_done opt now cid i r sv)"
| "server_step opt now (BroadcastEvent e) sv = ([], broadcast opt now e sv)"
| "server_step opt now (SendTo cid e) sv = ([], sendToControl opt now cid e sv)"
| "server_step opt now StopServer sv = server_stop sv"

fun server_run :: "server_option \<Rightarrow> (int \<times> server_event) list \<Rightarrow> control_server \<Rightarrow> host_call list \<times> control_server" where
  "server_run opt [] sv = ([], sv)"
| "server_run opt ((now, e) # es) sv =
     (case server_step opt now e sv of (out, sv1) \<Rightarrow>
       (case server_run opt es sv1 of (out', sv2) \<Rightarrow> (out @ out', sv2)))"

section \<open>What the transports' operations leave alone\<close>

text \<open>The connection objects, the registered connections and the counter.\<close>

definition core :: "control_server \<Rightarrow> (int, control_conn) jsmap \<times> (int, unit) jsmap \<times> int" where
  "core sv = (conn_objects sv, connections sv, nextControlId sv)"

lemma core_transport [simp]:
  "core (snd (transport_send opt s m sv)) = core sv"
  "core (transport_end s sv) = core sv"
  "core (set_listener s l sv) = core sv"
  "core (conn_send opt now cid m sv) = core sv"
  "core (handleSocket s sv) = core sv"
  "core (sv\<lparr>handshakeTimers := ts\<rparr>) = core sv"
  "core (sv\<lparr>provisionalTransports := ps\<rparr>) = core sv"
  "core (sv\<lparr>transports := tr\<rparr>) = core sv"
  "core (sv\<lparr>listeners := ls\<rparr>) = core sv"
proof -
  show t: "core (snd (transport_send opt s m sv)) = core sv" for s m
    by (auto simp: transport_send_def core_def split: option.split prod.split)
  show "core (conn_send opt now cid m sv) = core sv"
    using t by (auto simp: conn_send_def split: option.split)
qed (auto simp: transport_end_def core_def set_listener_def handleSocket_def split: option.split)

lemma core_fold_end [simp]: "core (fold transport_end ss sv) = core sv"
  by (induction ss arbitrary: sv) auto

lemma core_fold_send [simp]: "core (fold (\<lambda>cid. conn_send opt now cid e) cids sv) = core sv"
  by (induction cids arbitrary: sv) auto

lemma core_timeout [simp]: "core (handshake_timeout opt s sv) = core sv"
  by (simp add: handshake_timeout_def)

lemma core_broadcast [simp]: "core (broadcast opt now e sv) = core sv"
  by (simp add: broadcast_def)

lemma core_sendTo [simp]: "core (sendToControl opt now cid e sv) = core sv"
  by (simp add: sendToControl_def)

lemma core_rpc_done [simp]: "core (rpc_done opt now cid i r sv) = core sv"
  by (cases r) (simp_all add: rpc_done_def)

lemma coreD:
  "core sv' = core sv \<Longrightarrow> conn_objects sv' = conn_objects sv"
  "core sv' = core sv \<Longrightarrow> connections sv' = connections sv"
  "core sv' = core sv \<Longrightarrow> nextControlId sv' = nextControlId sv"
  by (auto simp: core_def)

section \<open>The life of a control connection\<close>

datatype life = Fresh | Live | Gone

text \<open>One call of the host seen by the connection \<open>cid\<close>; \<open>None\<close>: a call out of order.\<close>

fun life_step :: "int \<Rightarrow> life option \<Rightarrow> host_call \<Rightarrow> life option" where
  "life_step cid None c = None"
| "life_step cid (Some st) (HandleControlConnected c e f) =
     (if c \<noteq> cid then Some st else if st = Fresh then Some Live else None)"
| "life_step cid (Some st) (HandleControlRpc c m) =
     (if c \<noteq> cid then Some st else if st = Live then Some Live else None)"
| "life_step cid (Some st) (HandleControlDisconnected c) =
     (if c \<noteq> cid then Some st else if st = Live then Some Gone else None)"

abbreviation life_of :: "int \<Rightarrow> life \<Rightarrow> host_call list \<Rightarrow> life option" where
  "life_of cid st cs \<equiv> foldl (life_step cid) (Some st) cs"

definition life_in :: "control_server \<Rightarrow> int \<Rightarrow> life" where
  "life_in sv cid =
     (case map_of (conn_objects sv) cid of
        None \<Rightarrow> Fresh | Some k \<Rightarrow> if conn_closed k then Gone else Live)"

definition server_ok :: "control_server \<Rightarrow> bool" where
  "server_ok sv \<longleftrightarrow>
     (\<forall>cid. life_in sv cid \<noteq> Fresh \<longrightarrow> 1 \<le> cid \<and> cid < nextControlId sv) \<and>
     (\<forall>cid. map_has (connections sv) cid \<longleftrightarrow> life_in sv cid = Live) \<and>
     1 \<le> nextControlId sv \<and> wf_map (connections sv)"

lemma life_in_core: "core sv' = core sv \<Longrightarrow> life_in sv' cid = life_in sv cid"
  by (simp add: life_in_def core_def)

lemma server_ok_core: "core sv' = core sv \<Longrightarrow> server_ok sv' = server_ok sv"
  proof -
  assume a: "core sv' = core sv"
  then have "life_in sv' cid = life_in sv cid" for cid by (rule life_in_core)
  with a show ?thesis by (simp add: server_ok_def core_def)
qed

text \<open>A step is fine if it takes every connection along its life.\<close>

definition good_step :: "host_call list \<Rightarrow> control_server \<Rightarrow> control_server \<Rightarrow> bool" where
  "good_step out sv sv' \<longleftrightarrow> (\<forall>cid. life_of cid (life_in sv cid) out = Some (life_in sv' cid))"

lemma good_step_core: "core sv' = core sv \<Longrightarrow> good_step [] sv sv'"
  by (simp add: good_step_def life_in_core [of sv' sv])

lemma good_step_append: "good_step out sv sv1 \<Longrightarrow> good_step out' sv1 sv2 \<Longrightarrow> good_step (out @ out') sv sv2"
  by (simp add: good_step_def)

lemma handleClose_live:
  assumes "map_of (conn_objects sv) cid = Some k"
  shows "good_step (fst (conn_handleClose cid sv)) sv (snd (conn_handleClose cid sv))"
    and "life_in (snd (conn_handleClose cid sv)) c = (if c = cid then Gone else life_in sv c)"
    and "nextControlId (snd (conn_handleClose cid sv)) = nextControlId sv"
    and "connections (snd (conn_handleClose cid sv)) =
      (if conn_closed k then connections sv else AList.delete cid (connections sv))"
  using assms
  by (auto simp: conn_handleClose_def unregisterConnection_def good_step_def life_in_def set_listener_def)

lemma handleClose_none: "map_of (conn_objects sv) cid = None \<Longrightarrow> conn_handleClose cid sv = ([], sv)"
  by (simp add: conn_handleClose_def)

lemma handleClose_ok:
  assumes "server_ok sv"
  shows "server_ok (snd (conn_handleClose cid sv))"
    and "good_step (fst (conn_handleClose cid sv)) sv (snd (conn_handleClose cid sv))"
proof -
  have "server_ok (snd (conn_handleClose cid sv)) \<and>
      good_step (fst (conn_handleClose cid sv)) sv (snd (conn_handleClose cid sv))"
  proof (cases "map_of (conn_objects sv) cid")
    case None
    then show ?thesis using assms by (simp add: handleClose_none good_step_def)
  next
    case (Some k)
    note h = handleClose_live [OF Some]
    have l: "life_in sv cid = (if conn_closed k then Gone else Live)" using Some by (simp add: life_in_def)
    have "server_ok (snd (conn_handleClose cid sv))"
      unfolding server_ok_def h(2-4) using assms l by (auto simp: server_ok_def split: if_splits)
    with h(1) show ?thesis by simp
  qed
  then show "server_ok (snd (conn_handleClose cid sv))"
    "good_step (fst (conn_handleClose cid sv)) sv (snd (conn_handleClose cid sv))" by auto
qed

lemma registerConnection_ok:
  assumes "server_ok sv"
  shows "server_ok (snd (registerConnection s sv))"
    and "good_step [HandleControlConnected (fst (registerConnection s sv)) e f] sv (snd (registerConnection s sv))"
proof -
  let ?r = "snd (registerConnection s sv)" and ?n = "nextControlId sv"
  have fresh: "life_in sv ?n = Fresh" using assms unfolding server_ok_def by force
  have l: "life_in ?r c = (if c = ?n then Live else life_in sv c)" for c
    by (simp add: registerConnection_def life_in_def set_listener_def Let_def)
  have n: "nextControlId ?r = ?n + 1" "connections ?r = AList.update ?n () (connections sv)"
    by (simp_all add: registerConnection_def set_listener_def Let_def)
  show "server_ok ?r" unfolding server_ok_def l n using assms by (auto simp: server_ok_def split: if_splits)
  show "good_step [HandleControlConnected (fst (registerConnection s sv)) e f] sv ?r"
    unfolding good_step_def l using fresh by (auto simp: registerConnection_def Let_def)
qed


text \<open>Steps compose from a change of the core and a good step.\<close>

definition fine :: "host_call list \<Rightarrow> control_server \<Rightarrow> control_server \<Rightarrow> bool" where
  "fine out sv sv' \<longleftrightarrow> server_ok sv' \<and> good_step out sv sv'"

lemma fine_core: "server_ok sv \<Longrightarrow> core sv' = core sv \<Longrightarrow> fine [] sv sv'"
  using server_ok_core [of sv' sv] good_step_core [of sv' sv] by (simp add: fine_def)

lemma fine_pre: "core sv1 = core sv \<Longrightarrow> fine out sv1 sv2 \<Longrightarrow> fine out sv sv2"
  using life_in_core [of sv1 sv] by (simp add: fine_def good_step_def)

lemma fine_append: "fine out sv sv1 \<Longrightarrow> fine out' sv1 sv2 \<Longrightarrow> fine (out @ out') sv sv2"
  using good_step_append by (auto simp: fine_def)

lemma fine_handleClose: "server_ok sv \<Longrightarrow> fine (fst (conn_handleClose cid sv)) sv (snd (conn_handleClose cid sv))"
  using handleClose_ok by (simp add: fine_def)

lemma fine_close:
  assumes "server_ok sv"
  shows "fine (fst (conn_close cid sv)) sv (snd (conn_close cid sv))"
proof -
  let ?s1 = "snd (conn_handleClose cid sv)" and ?s2 = "snd (conn_close cid sv)"
  have "core ?s2 = core ?s1" "fst (conn_close cid sv) = fst (conn_handleClose cid sv)"
    by (auto simp: conn_close_def split: prod.split option.split)
  moreover note f = fine_handleClose [OF assms, of cid]
  ultimately show ?thesis
    using fine_append [OF f fine_core [of ?s1 ?s2]] by (simp add: fine_def)
qed

lemma fine_message:
  assumes "server_ok sv"
  shows "fine (fst (conn_handleTransportMessage opt now cid v sv)) sv (snd (conn_handleTransportMessage opt now cid v sv))"
proof (cases "map_of (conn_objects sv) cid")
  case None
  then show ?thesis using assms by (simp add: conn_handleTransportMessage_def fine_core)
next
  case (Some k)
  then have "life_in sv cid = (if conn_closed k then Gone else Live)" by (simp add: life_in_def)
  then have "fine [HandleControlRpc cid v] sv sv" if "\<not> conn_closed k"
    using assms that by (auto simp: fine_def good_step_def)
  then show ?thesis
    using assms Some by (auto simp: conn_handleTransportMessage_def Let_def fine_core)
qed

lemma fine_handshake:
  assumes "server_ok sv"
  shows "fine (fst (handshake_message opt now u s m sv)) sv (snd (handshake_message opt now u s m sv))"
proof -
  let ?s1 = "set_listener s NoListener (sv\<lparr>handshakeTimers := set_delete s (handshakeTimers sv)\<rparr>)"
  let ?s2 = "snd (transport_send opt s register_response ?s1)"
  have c: "core ?s2 = core sv" by simp
  have ok: "server_ok ?s2" using assms server_ok_core [OF c] by simp
  have "fine [HandleControlConnected (fst (registerConnection s ?s2)) e f] sv (snd (registerConnection s ?s2))" for e f
    using registerConnection_ok [OF ok] by (intro fine_pre [OF c]) (simp add: fine_def)
  moreover have "fine [] sv (snd (transport_send opt s x ?s1))" "fine [] sv (transport_end s (snd (transport_send opt s x ?s1)))" for x
    using assms by (simp_all add: fine_core)
  ultimately show ?thesis
    by (auto simp: handshake_message_def Let_def split: prod.split bool.split)
       (metis fst_conv snd_conv)+
qed


text \<open>\<^verbatim>\<open>stop\<close> empties the map of connections before it closes them.\<close>

lemma close_one:
  "good_step (fst (conn_close cid sv)) sv (snd (conn_close cid sv))"
  "life_in (snd (conn_close cid sv)) c = (if c = cid \<and> life_in sv c \<noteq> Fresh then Gone else life_in sv c)"
  "nextControlId (snd (conn_close cid sv)) = nextControlId sv"
  "connections sv = [] \<Longrightarrow> connections (snd (conn_close cid sv)) = []"
proof -
  let ?s1 = "snd (conn_handleClose cid sv)" and ?s2 = "snd (conn_close cid sv)"
  have c: "core ?s2 = core ?s1" and f: "fst (conn_close cid sv) = fst (conn_handleClose cid sv)"
    by (auto simp: conn_close_def split: prod.split option.split)
  have l: "life_in ?s2 x = life_in ?s1 x" for x using c by (rule life_in_core)
  have n: "nextControlId ?s2 = nextControlId ?s1" "connections ?s2 = connections ?s1" using coreD c by blast+
  have "good_step (fst (conn_close cid sv)) sv ?s2 \<and>
      life_in ?s2 c = (if c = cid \<and> life_in sv c \<noteq> Fresh then Gone else life_in sv c) \<and>
      nextControlId ?s2 = nextControlId sv \<and> (connections sv = [] \<longrightarrow> connections ?s2 = [])" for c
  proof (cases "map_of (conn_objects sv) cid")
    case None
    then have "life_in sv cid = Fresh" by (simp add: life_in_def)
    with None show ?thesis by (auto simp: good_step_def f l n handleClose_none)
  next
    case (Some k)
    note h = handleClose_live [OF Some]
    have "life_in sv cid \<noteq> Fresh" using Some by (simp add: life_in_def)
    then show ?thesis using h(1) by (auto simp: good_step_def f l n h(2-4))
  qed
  then show "good_step (fst (conn_close cid sv)) sv ?s2"
    "life_in ?s2 c = (if c = cid \<and> life_in sv c \<noteq> Fresh then Gone else life_in sv c)"
    "nextControlId ?s2 = nextControlId sv" "connections sv = [] \<Longrightarrow> connections ?s2 = []" by auto
qed

lemma close_all_life:
  "good_step (fst (close_all cids sv)) sv (snd (close_all cids sv)) \<and>
   (\<forall>c. life_in (snd (close_all cids sv)) c = (if c \<in> set cids \<and> life_in sv c \<noteq> Fresh then Gone else life_in sv c)) \<and>
   nextControlId (snd (close_all cids sv)) = nextControlId sv \<and>
   (connections sv = [] \<longrightarrow> connections (snd (close_all cids sv)) = [])"
proof (induction cids arbitrary: sv)
  case Nil
  then show ?case by (simp add: good_step_def)
next
  case (Cons cid cids)
  let ?s1 = "snd (conn_close cid sv)"
  have e: "close_all (cid # cids) sv = (fst (conn_close cid sv) @ fst (close_all cids ?s1), snd (close_all cids ?s1))"
    by (simp split: prod.split)
  note c = close_one [where cid = cid and sv = sv] and i = Cons.IH [of ?s1]
  show ?case
    unfolding e fst_conv snd_conv
    using c i good_step_append [OF c(1), of "fst (close_all cids ?s1)" "snd (close_all cids ?s1)"]
    by (auto split: if_splits)
qed

lemma fine_stop:
  assumes "server_ok sv"
  shows "fine (fst (server_stop sv)) sv (snd (server_stop sv))"
proof -
  let ?s1 = "(fold transport_end (provisionalTransports sv) sv)\<lparr>provisionalTransports := []\<rparr>"
  let ?s2 = "?s1\<lparr>connections := []\<rparr>" and ?cids = "map_keys (connections sv)"
  have c: "core ?s1 = core sv" by simp
  have l: "life_in ?s2 x = life_in sv x" for x using life_in_core [OF c, of x] by (simp add: life_in_def)
  have n: "nextControlId ?s2 = nextControlId sv" using coreD(3) [OF c] by simp
  have e: "server_stop sv = close_all ?cids ?s2"
    using coreD(2) [OF c] by (simp add: server_stop_def Let_def)
  note a = close_all_life [of ?cids ?s2, unfolded l n]
  have live: "life_in sv x = Live \<longleftrightarrow> x \<in> set ?cids" for x
    using assms map_has_keys [of "connections sv" x] by (auto simp: server_ok_def)
  define S where "S = snd (server_stop sv)"
  have S: "life_in S c = (if life_in sv c = Live then Gone else life_in sv c)" "nextControlId S = nextControlId sv"
    "connections S = []" for c
    using a live [of c] by (auto simp: S_def e)
  have "server_ok (snd (server_stop sv))"
    unfolding S_def [symmetric] server_ok_def S using assms by (auto simp: server_ok_def)
  moreover have "good_step (fst (server_stop sv)) sv (snd (server_stop sv))"
    using a unfolding e good_step_def by (simp add: l)
  ultimately show ?thesis by (simp add: fine_def)
qed

lemma fine_step:
  assumes "server_ok sv"
  shows "fine (fst (server_step opt now e sv)) sv (snd (server_step opt now e sv))"
proof (cases e)
  case (SockMessage s m u)
  then show ?thesis
    using assms fine_handshake fine_message
    by (auto simp: handle_message_def fine_core split: option.split msg_listener.split)
next
  case (SockClosed s)
  let ?s1 = "set_listener s NoListener
     (sv\<lparr>handshakeTimers := set_delete s (handshakeTimers sv),
         provisionalTransports := set_delete s (provisionalTransports sv),
         transports := AList.delete s (transports sv)\<rparr>)"
  have c: "core ?s1 = core sv" by simp
  have "server_ok ?s1" using assms server_ok_core [OF c] by simp
  then have "fine (fst (conn_handleClose cid ?s1)) sv (snd (conn_handleClose cid ?s1))" for cid
    using fine_pre [OF c] fine_handleClose by blast
  then show ?thesis
    using assms SockClosed fine_core [OF assms c]
    by (auto simp: handle_close_def Let_def fine_core split: option.split msg_listener.split)
qed (use assms fine_stop in \<open>auto simp: fine_core\<close>)

lemma fine_run:
  assumes "server_ok sv"
  shows "fine (fst (server_run opt es sv)) sv (snd (server_run opt es sv))"
  using assms
proof (induction es arbitrary: sv)
  case Nil
  then show ?case by (simp add: fine_core)
next
  case (Cons ne es)
  obtain now e where ne: "ne = (now, e)" by (cases ne)
  let ?s1 = "snd (server_step opt now e sv)"
  have e: "server_run opt (ne # es) sv =
      (fst (server_step opt now e sv) @ fst (server_run opt es ?s1), snd (server_run opt es ?s1))"
    by (simp add: ne split: prod.split)
  note f = fine_step [OF Cons.prems, of opt now e]
  then have "server_ok ?s1" by (simp add: fine_def)
  from fine_append [OF f Cons.IH [OF this]] show ?case unfolding e by simp
qed

lemma new_server_ok [simp]: "server_ok new_server"
  by (simp add: server_ok_def new_server_def life_in_def)

section \<open>Properties\<close>

text \<open>
  (C17) The life of control connections: whatever sockets open, send, time out and close, and
  whenever the host answers, broadcasts or the server stops, the host sees every control id
  connected at most once, then only requests of that id, then disconnected at most once and
  nothing more; control ids are fresh; and the connections the server broadcasts to are exactly
  those connected and not yet disconnected.
\<close>

theorem control_connection_lifecycle:
  "let (out, sv) = server_run opt es new_server in
    (\<forall>cid. life_of cid Fresh out =
       Some (if map_has (connections sv) cid then Live
             else if HandleControlDisconnected cid \<in> set out then Gone else Fresh)) \<and>
    set (map fst (connections sv)) \<subseteq> {1..<nextControlId sv}"
proof -
  obtain out sv where r: "server_run opt es new_server = (out, sv)" by (cases "server_run opt es new_server")
  have f: "fine out new_server sv" using fine_run [OF new_server_ok, of opt es] by (simp add: r)
  have fresh: "life_in new_server cid = Fresh" for cid by (simp add: life_in_def new_server_def)
  have l: "life_of cid Fresh out = Some (life_in sv cid)" for cid
    using f fresh by (simp add: fine_def good_step_def)
  have none: "foldl (life_step cid) None cs = None" for cid cs by (induction cs) auto
  have gone: "(st = Gone \<or> HandleControlDisconnected cid \<in> set cs) \<longleftrightarrow> st' = Gone"
    if "life_of cid st cs = Some st'" for cid cs st st'
    using that
  proof (induction cs arbitrary: st)
    case (Cons c cs)
    then obtain st1 where s: "life_step cid (Some st) c = Some st1" "life_of cid st1 cs = Some st'"
      using none by (cases "life_step cid (Some st) c") auto
    with Cons.IH [OF s(2)] show ?case by (cases c) (auto split: if_splits)
  qed auto
  have "HandleControlDisconnected cid \<in> set out \<longleftrightarrow> life_in sv cid = Gone" for cid
    using gone [OF l, of cid] by auto
  moreover have "server_ok sv" using f by (simp add: fine_def)
  ultimately show ?thesis
    unfolding r Let_def prod.case l
    using map_has_keys [of "connections sv"]
    by (auto simp: server_ok_def simp del: set_map) (metis life.exhaust life.distinct(1))+
qed


definition sample_server_option :: server_option where
  "sample_server_option = \<lparr>bp = be_bufferpack, protocolVersion = 2,
     debugInfo = Some (Obj [(''daemonVersion'', Str ''1.0'')]), processId = 9\<rparr>"


end
