(* ===== verification/Daemon_Host.thy ===== *)
theory Daemon_Host
  imports Message_Rewrite Pending_Routes Memoized_Queries Report_Bridge Legacy_Ownership Control_Server
begin

text \<open>
  The daemon host (\<^verbatim>\<open>multiplexer/daemon/MultiplexerDaemonHost.ts\<close>): it routes requests of connectors
  and Web frontends to runtimes and the responses back, publishes snapshots, shares device managers
  and client watchers between the connectors, and decides when the daemon may go.

  A handler is a function on the record \<open>host\<close>, whose field \<open>log\<close> collects, in order, the calls
  the handler makes on the other parts of the daemon (\<open>host_out\<close>): the control server, the
  physical connector, the WebSocket controller, the promises it settles and the trace recorder
  (by the name of the event).  What the handler reads of those parts is the record \<open>host_env\<close>:
  the clock, the devices and clients of the physical connector, the clients of the WebSocket
  controller, the ownership status, and whether the runtime's \<^verbatim>\<open>sendMessage\<close> returns.  A handler
  that can throw also returns \<open>host_error option\<close>.  An asynchronous method is one definition per
  segment between two \<^verbatim>\<open>await\<close>s; a promise is a number.  Log output is left out.
\<close>

section \<open>State\<close>

datatype lifecycle = Uninitialized | Ready | HostClosed

datatype manager_key =
    AndroidKey js js
  | HarmonyKey js js
  | IOSKey
  | DesktopKey
  | NetworkKey js

datatype host_error =
    ClientNotFound int
  | InvalidJsonMessage
  | NotRoutable
  | SendFailed
  | OwnerNotAttached
  | ShutdownUnavailable
  | WebSocketUnavailable
  | WebSocketDisabled
  | WebSocketInfoUnavailable
  | WebSocketStartFailed
  | UnknownRpc
  | InternalTypeError

datatype route_error = ControlGone int | RuntimeGone int | OwnerPreempted | RouteTableReset | RouteTimedOut

datatype host_out =
    ToControl int js
  | ToAll js
  | ToUsb int js
  | ToWsApp int string
  | ToWeb string
  | ToWebClient int string
  | SendClientList
  | Resolve nat js
  | Reject nat route_error
  | AddManager manager_key js bool
  | CloseManager manager_key
  | UpdateUsbOption js
  | ConnectDevices
  | StartWatch string nat
  | StopWatchClient string
  | DisconnectDevice string
  | DisableAllClients
  | ClearUsbClients
  | CloseWsClient int
  | CloseUsbClient int
  | StopGuard
  | CloseWebSocketController
  | StopControlServer
  | ClosePhysical
  | RunIdleHandler
  | RunShutdownHandler
  | StartWebSocketServer
  | Trace string

record device_view =
  dv_info :: js
  dv_ports :: "int list"
  dv_host :: string

record host_env =
  e_now :: int
  e_pid :: int
  e_devices :: "(string, device_view) jsmap"
  e_usbClients :: "(int, js) jsmap"
  e_wsApps :: "(int, js) jsmap"
  e_wsWebs :: "(int, js) jsmap"
  e_ownership :: ownership_status
  e_send_ok :: bool

record host_option =
  ho_server :: server_option
  multiplexerDaemonIdleTimeout :: int
  ho_enableWebSocket :: "bool option"
  ho_memoizedNotificationTtlMs :: "int option"

record retry_send =
  rs_client :: int
  rs_websocket :: bool
  rs_message :: js

record host =
  log :: "host_out list"
  lifecycleStatus :: lifecycle
  startInFlight :: bool
  enableWebSocket :: bool
  manualConnect :: bool
  enabledManagers :: "(manager_key, int jsset) jsmap"
  pendingRoutes :: pending_route_table
  memoizedQueryTable :: memo_table
  retry_sends :: "(nat, retry_send) jsmap"
  controlServer :: bool
  webSocketController :: bool
  webSocketServerInfo :: "js option"
  webSocketServerStarted :: bool
  webSocketServerStarting :: bool
  clientWatcherStartedDeviceIds :: "string jsset"
  clientWatcherStartingByDeviceId :: "(string, nat) jsmap"
  next_attempt :: nat
  activeControlIds :: "int jsset"
  autoConnectControlIds :: "int jsset"
  reportControlIds :: "int jsset"
  reportBridge :: bridge
  webSocketRequesterControlIds :: "int jsset"
  activeWebSocketDriverIds :: "int jsset"
  idleTimer :: bool
  idleTimeoutHandler :: bool
  shutdownHandler :: bool
  shutdownRequested :: bool
  daemonStopReason :: "string option"

abbreviation no_reentry :: report_send where
  "no_reentry \<equiv> \<lambda>_ _. NoReentry"

definition new_host :: "host_option \<Rightarrow> host" where
  "new_host opt =
     \<lparr>log = [], lifecycleStatus = Uninitialized, startInFlight = False,
      enableWebSocket = (case ho_enableWebSocket opt of None \<Rightarrow> False | Some b \<Rightarrow> b),
      manualConnect = True, enabledManagers = [], pendingRoutes = new_PendingRouteTable None,
      memoizedQueryTable = new_MemoizedQueryTable None (ho_memoizedNotificationTtlMs opt),
      retry_sends = [], controlServer = False, webSocketController = False, webSocketServerInfo = None,
      webSocketServerStarted = False, webSocketServerStarting = False,
      clientWatcherStartedDeviceIds = [], clientWatcherStartingByDeviceId = [], next_attempt = 0,
      activeControlIds = [], autoConnectControlIds = [], reportControlIds = [],
      reportBridge = report no_reentry ''PhysicalConnectorInit'' (Obj []) (Obj []) new_bridge,
      webSocketRequesterControlIds = [], activeWebSocketDriverIds = [], idleTimer = False,
      idleTimeoutHandler = False, shutdownHandler = False, shutdownRequested = False,
      daemonStopReason = None\<rparr>"

definition emit :: "host_out \<Rightarrow> host \<Rightarrow> host" where
  "emit x h = h\<lparr>log := log h @ [x]\<rparr>"

abbreviation attached :: "host_env \<Rightarrow> bool" where
  "attached env \<equiv> e_ownership env = Attached"

section \<open>Events to connectors and frontends\<close>

definition control_event :: "string \<Rightarrow> js \<Rightarrow> js" where
  "control_event name data = Obj [(''kind'', Str ''event''), (''event'', Str name), (''data'', data)]"

definition host_broadcast :: "js \<Rightarrow> host \<Rightarrow> host" where
  "host_broadcast ev h = (if controlServer h then emit (ToAll ev) h else h)"

definition host_sendToControl :: "int \<Rightarrow> js \<Rightarrow> host \<Rightarrow> host" where
  "host_sendToControl cid ev h = (if controlServer h then emit (ToControl cid ev) h else h)"

definition getWebSocketAppClients :: "host_env \<Rightarrow> host \<Rightarrow> (int, js) jsmap option" where
  "getWebSocketAppClients env h = (if webSocketController h then Some (e_wsApps env) else None)"

definition getWebSocketWebClients :: "host_env \<Rightarrow> host \<Rightarrow> (int, js) jsmap option" where
  "getWebSocketWebClients env h = (if webSocketController h then Some (e_wsWebs env) else None)"

definition serializeDevice :: "device_view \<Rightarrow> js" where
  "serializeDevice d =
     jput (jput (Obj (own_props (dv_info d))) ''ports'' (Arr (map int_num (dv_ports d)))) ''host'' (Str (dv_host d))"

definition serializeClient :: "js \<Rightarrow> js" where
  "serializeClient info = Obj (own_props info)"

definition serializeWebSocketClient :: "js \<Rightarrow> js" where
  "serializeWebSocketClient info =
     Obj [(''id'', jget info ''id''), (''app'', jget info ''app''),
          (''debugRouterVersion'', jget info ''debugRouterVersion''),
          (''deviceModel'', jget info ''deviceModel''), (''network'', Str ''WiFi''),
          (''osVersion'', jget info ''osVersion''), (''sdkVersion'', jget info ''sdkVersion''),
          (''type'', jget info ''type''),
          (''raw_info'', nullish (cloneJsonValue (jget info ''raw_info'')) Null)]"

definition createSnapshot :: "host_option \<Rightarrow> host_env \<Rightarrow> host \<Rightarrow> js" where
  "createSnapshot opt env h =
     (let devices = (if attached env then map_values (e_devices env) else []);
          clients = (if attached env then map_values (e_usbClients env) else []);
          snapshot = with_debugInfo (createDebugInfo (ho_server opt) (e_now env))
            (Obj [(''protocolVersion'', int_num (protocolVersion (ho_server opt))),
                  (''generatedAt'', int_num (e_now env)),
                  (''devices'', Arr (map serializeDevice devices)),
                  (''clients'', Arr (map serializeClient clients))]);
          snapshot1 = (case getWebSocketAppClients env h of
                         None \<Rightarrow> snapshot
                       | Some m \<Rightarrow> jput snapshot ''websocketAppClients''
                           (Arr (if attached env then map serializeWebSocketClient (map_values m) else [])))
      in case getWebSocketWebClients env h of
           None \<Rightarrow> snapshot1
         | Some m \<Rightarrow> jput snapshot1 ''websocketWebClients'' (Arr (map serializeWebSocketClient (map_values m))))"

definition sendSnapshot :: "host_option \<Rightarrow> host_env \<Rightarrow> int list option \<Rightarrow> host \<Rightarrow> host" where
  "sendSnapshot opt env controlIds h =
     (let event = control_event ''snapshot'' (createSnapshot opt env h) in
      case controlIds of
        None \<Rightarrow> host_broadcast event h
      | Some cids \<Rightarrow> fold (\<lambda>cid. host_sendToControl cid event) cids h)"

definition sendClientList :: "host \<Rightarrow> host" where
  "sendClientList h = (if webSocketController h then emit SendClientList h else h)"

definition sendMessageToWeb :: "string \<Rightarrow> host \<Rightarrow> host" where
  "sendMessageToWeb m h =
     (if \<not> enableWebSocket h then h else if \<not> webSocketController h then h else emit (ToWeb m) h)"

definition sendMessageToWebClient :: "int \<Rightarrow> string \<Rightarrow> host \<Rightarrow> host" where
  "sendMessageToWebClient wid m h =
     (if \<not> enableWebSocket h then h else if \<not> webSocketController h then h else emit (ToWebClient wid m) h)"

definition publishClientSnapshot :: "host_option \<Rightarrow> host_env \<Rightarrow> host \<Rightarrow> host" where
  "publishClientSnapshot opt env h = sendSnapshot opt env None (sendClientList h)"

definition sendToWebSocketRequesters :: "js \<Rightarrow> host \<Rightarrow> host" where
  "sendToWebSocketRequesters event h =
     fold (\<lambda>cid. host_sendToControl cid event) (webSocketRequesterControlIds h) h"

section \<open>Idle timeout\<close>

definition isInUse :: "host \<Rightarrow> bool" where
  "isInUse h \<longleftrightarrow> activeControlIds h \<noteq> [] \<or> activeWebSocketDriverIds h \<noteq> []"

definition clearIdleTimeout :: "host \<Rightarrow> host" where
  "clearIdleTimeout h = (if \<not> idleTimer h then h else h\<lparr>idleTimer := False\<rparr>)"

definition scheduleIdleTimeoutIfNeeded :: "host_option \<Rightarrow> host \<Rightarrow> host" where
  "scheduleIdleTimeoutIfNeeded opt h =
     (if lifecycleStatus h \<noteq> Ready \<or> \<not> idleTimeoutHandler h then h
      else if multiplexerDaemonIdleTimeout opt < 0 \<or> isInUse h then h
      else (clearIdleTimeout h)\<lparr>idleTimer := True\<rparr>)"

text \<open>The callback of the idle timer, which the event loop runs while it is armed.\<close>

definition idle_timer_fires :: "host \<Rightarrow> host" where
  "idle_timer_fires h =
     (if \<not> idleTimer h then h
      else let h1 = h\<lparr>idleTimer := False\<rparr> in
           if isInUse h1 then h1
           else let h2 = emit (Trace ''daemon_idle_timeout_reached'') (h1\<lparr>daemonStopReason := Some ''idle_timeout''\<rparr>)
                in if idleTimeoutHandler h2 then emit RunIdleHandler h2 else h2)"

definition setIdleTimeoutHandler :: "host \<Rightarrow> host" where
  "setIdleTimeoutHandler h = h\<lparr>idleTimeoutHandler := True\<rparr>"

definition setShutdownHandler :: "host \<Rightarrow> host" where
  "setShutdownHandler h = h\<lparr>shutdownHandler := True\<rparr>"

section \<open>Routes and promises\<close>

fun rejectRoutes :: "pending_route list \<Rightarrow> route_error \<Rightarrow> host \<Rightarrow> host" where
  "rejectRoutes [] e h = h"
| "rejectRoutes (r # rs) e h =
     rejectRoutes rs e
       (if kind r = Control then (case reject r of None \<Rightarrow> h | Some p \<Rightarrow> emit (Reject p e) h) else h)"

definition clear_and_reject ::
    "(pending_route_table \<Rightarrow> pending_route list \<times> pending_route_table) \<Rightarrow> route_error \<Rightarrow> host \<Rightarrow> host" where
  "clear_and_reject clear e h =
     (case clear (pendingRoutes h) of (rs, t) \<Rightarrow> rejectRoutes rs e (h\<lparr>pendingRoutes := t\<rparr>))"

text \<open>What the requester of a message is, before it has a route.\<close>

record pending_target_seed =
  seed_kind :: requester_kind
  seed_requesterId :: int
  seed_clientId :: int
  seed_timeoutMs :: "int option"
  seed_resolve :: "nat option"
  seed_reject :: "nat option"

definition route_input :: "pending_target_seed \<Rightarrow> int \<Rightarrow> pending_route_input" where
  "route_input s i =
     \<lparr>kind = seed_kind s, requesterId = seed_requesterId s, originalId = i, route_clientId = seed_clientId s,
      route_timeoutMs = seed_timeoutMs s, resolve = seed_resolve s, reject = seed_reject s\<rparr>"

definition rewriteOutboundMessageData ::
    "int \<Rightarrow> js \<Rightarrow> pending_target_seed \<Rightarrow> host \<Rightarrow> pending_route option \<times> js \<times> host" where
  "rewriteOutboundMessageData now data seed h =
     (case getRoutableCustomizedPayload data of
        None \<Rightarrow> (None, data, h)
      | Some p \<Rightarrow>
          (case getValidMessageId (inner p) of
             None \<Rightarrow> (None, data, h)
           | Some i \<Rightarrow>
               (case add_route now (route_input seed i) (pendingRoutes h) of
                  (route, t) \<Rightarrow>
                    (Some route, writeCustomizedMessage (set_message_id (globalMessageId route) p) data,
                     h\<lparr>pendingRoutes := t\<rparr>))))"

definition restoreInboundMessage ::
    "js \<Rightarrow> customized_payload option \<Rightarrow> int \<Rightarrow> host \<Rightarrow> (pending_route \<times> js) option \<times> host" where
  "restoreInboundMessage parsedValue customized sourceClientId h =
     (if \<not> truthy parsedValue then (None, h)
      else case Option.bind customized (\<lambda>p. getValidMessageId (inner p)) of
        None \<Rightarrow> (None, h)
      | Some gid \<Rightarrow>
          (case get_route gid (pendingRoutes h) of
             Some r \<Rightarrow>
               if route_clientId r \<noteq> sourceClientId then (None, h)
               else (case take_route gid (pendingRoutes h) of
                       (None, t) \<Rightarrow> (None, h\<lparr>pendingRoutes := t\<rparr>)
                     | (Some target, t) \<Rightarrow>
                         (Some (target, (case customized of
                                           None \<Rightarrow> parsedValue
                                         | Some p \<Rightarrow> writeCustomizedMessage (set_message_id (originalId target) p) parsedValue)),
                          h\<lparr>pendingRoutes := t\<rparr>))
           | None \<Rightarrow>
               (case take_route gid (pendingRoutes h) of (_, t) \<Rightarrow> (None, h\<lparr>pendingRoutes := t\<rparr>))))"

text \<open>The timer of a route fires (\<^verbatim>\<open>PendingRouteTable.createTimer\<close>).\<close>

definition route_timer_fires :: "nat \<Rightarrow> host \<Rightarrow> host" where
  "route_timer_fires t h =
     (case fire_timer t (pendingRoutes h) of
        (p, tab) \<Rightarrow>
          let h1 = h\<lparr>pendingRoutes := tab\<rparr> in
          case p of None \<Rightarrow> h1 | Some q \<Rightarrow> emit (Reject q RouteTimedOut) h1)"

section \<open>Messages to a runtime\<close>

datatype runtime_message = MString string | MObject js

definition runtime_source :: "bool \<Rightarrow> js" where
  "runtime_source ws = Str (if ws then ''websocket-runtime'' else ''usb-runtime'')"

definition client_message :: "js \<Rightarrow> int \<Rightarrow> string \<Rightarrow> js" where
  "client_message src cid m =
     control_event ''client-message'' (Obj [(''source'', src), (''id'', int_num cid), (''message'', Str m)])"

definition sendMessageToTargetDriver ::
    "host_env \<Rightarrow> pending_target_seed \<Rightarrow> int \<Rightarrow> string \<Rightarrow> js \<Rightarrow> host \<Rightarrow> host" where
  "sendMessageToTargetDriver env seed clientId m parsedValue h =
     (if seed_kind seed = Control then
        (case seed_resolve seed of
           Some p \<Rightarrow> emit (Resolve p (normalizeRawResponse parsedValue clientId)) h
         | None \<Rightarrow>
             host_sendToControl (seed_requesterId seed)
               (client_message
                 (runtime_source (case getWebSocketAppClients env h of None \<Rightarrow> False | Some a \<Rightarrow> map_has a clientId))
                 clientId m) h)
      else sendMessageToWebClient (seed_requesterId seed) m h)"

text \<open>\<^verbatim>\<open>websocketClient.sendMessage(JSON.stringify(data))\<close> or \<^verbatim>\<open>usbClient.sendMessage(data)\<close>\<close>

definition runtime_out :: "bool \<Rightarrow> int \<Rightarrow> js \<Rightarrow> host_out" where
  "runtime_out ws cid data = (if ws then ToWsApp cid (show_js data) else ToUsb cid data)"

definition is_usb_handshake :: "js \<Rightarrow> bool" where
  "is_usb_handshake data \<longleftrightarrow>
     jget (jget data ''data'') ''type'' \<in> {Str ''UsbConnect'', Str ''UsbConnectAck''}"

definition set_runtime_client_id :: "int \<Rightarrow> js \<Rightarrow> js" where
  "set_runtime_client_id i data =
     (if truthy (jget (jget (jget data ''data'') ''data'') ''client_id'')
      then put_container data (jput (jget (jget data ''data'') ''data'') ''client_id'' (int_num i)) else data)"

text \<open>The second half of \<^verbatim>\<open>sendMessageToRuntime\<close>, after the memoization: \<open>fwd\<close> is the request type to be retried.\<close>

definition forward_to_runtime ::
    "host_env \<Rightarrow> bool \<Rightarrow> int \<Rightarrow> js \<Rightarrow> pending_target_seed \<Rightarrow> string option \<Rightarrow> host \<Rightarrow> host_error option \<times> host" where
  "forward_to_runtime env ws clientId data seed fwd h =
     (case rewriteOutboundMessageData (e_now env) data seed h of
        (route, data1, h1) \<Rightarrow>
          if \<not> e_send_ok env then
            let h2 = (case fwd of
                        None \<Rightarrow> h1
                      | Some rtype \<Rightarrow>
                          h1\<lparr>memoizedQueryTable := handleSendFailure clientId rtype (memoizedQueryTable h1)\<rparr>);
                h3 = (case route of
                        None \<Rightarrow> h2
                      | Some r \<Rightarrow> h2\<lparr>pendingRoutes := snd (take_route (globalMessageId r) (pendingRoutes h2))\<rparr>)
            in (Some SendFailed, h3)
          else
            let h2 = emit (runtime_out ws clientId data1) h1 in
            case fwd of
              None \<Rightarrow> (None, h2)
            | Some rtype \<Rightarrow>
                (case lookup2 (pendingQueries (memoizedQueryTable h2)) clientId rtype of
                   None \<Rightarrow> (Some InternalTypeError, h2)
                 | Some q \<Rightarrow>
                     (case setRetryTimer (e_now env) clientId rtype (memoizedQueryTable h2) of
                        None \<Rightarrow> (Some InternalTypeError, h2)
                      | Some t \<Rightarrow>
                          (None, h2\<lparr>memoizedQueryTable := t,
                                   retry_sends := AList.update q
                                     \<lparr>rs_client = clientId, rs_websocket = ws, rs_message = cloneJsonValue data1\<rparr>
                                     (retry_sends h2)\<rparr>))))"

definition sendMessageToRuntime ::
    "host_env \<Rightarrow> int \<Rightarrow> runtime_message \<Rightarrow> pending_target_seed \<Rightarrow> host \<Rightarrow> host_error option \<times> host" where
  "sendMessageToRuntime env clientId m seed h =
     (let ws = (case getWebSocketAppClients env h of None \<Rightarrow> False | Some a \<Rightarrow> map_has a clientId);
          usb = map_has (e_usbClients env) clientId
      in if \<not> ws \<and> \<not> usb then (Some (ClientNotFound clientId), h)
         else case (case m of MString s \<Rightarrow> json_parse s | MObject v \<Rightarrow> Some (cloneJsonValue v)) of
           None \<Rightarrow> (Some InvalidJsonMessage, h)
         | Some data0 \<Rightarrow>
             if is_usb_handshake data0 then (None, h)
             else
               let data = set_runtime_client_id (if ws then clientId else -1) data0 in
               (case memo_query (e_now env) clientId data (memoizedQueryTable h) of
                  (decision, t) \<Rightarrow>
                    let h1 = h\<lparr>memoizedQueryTable := t\<rparr> in
                    (case decision of
                       Cached s v \<Rightarrow> (None, sendMessageToTargetDriver env seed clientId s v h1)
                     | Pending \<Rightarrow> (None, h1)
                     | Forward rtype \<Rightarrow> forward_to_runtime env ws clientId data seed (Some rtype) h1
                     | NotMemoized \<Rightarrow> forward_to_runtime env ws clientId data seed None h1)))"

text \<open>A retry timer of the memoized-query table fires; the callback resends the stored message.\<close>

definition retry_timer_fires :: "host_env \<Rightarrow> nat \<Rightarrow> host \<Rightarrow> host" where
  "retry_timer_fires env t h =
     (case map_of (retry_timers (memoizedQueryTable h)) t of
        None \<Rightarrow> h
      | Some c \<Rightarrow>
          (case map_of (retry_sends h) (rc_query c) of
             None \<Rightarrow> h
           | Some r \<Rightarrow>
               let h1 = h\<lparr>memoizedQueryTable :=
                            fire_retry (e_now env) (\<lambda>m. (e_send_ok env, m)) t (memoizedQueryTable h)\<rparr>
               in if e_send_ok env then emit (runtime_out (rs_websocket r) (rs_client r) (rs_message r)) h1 else h1))"

definition handleWebSocketDriverMessage ::
    "host_env \<Rightarrow> int \<Rightarrow> int \<Rightarrow> string \<Rightarrow> host \<Rightarrow> host_error option \<times> host" where
  "handleWebSocketDriverMessage env webClientId targetClientId m h =
     sendMessageToRuntime env targetClientId (MString m)
       \<lparr>seed_kind = Websocket, seed_requesterId = webClientId, seed_clientId = targetClientId,
        seed_timeoutMs = None, seed_resolve = None, seed_reject = None\<rparr> h"

definition control_seed :: "int \<Rightarrow> int \<Rightarrow> pending_target_seed" where
  "control_seed controlId clientId =
     \<lparr>seed_kind = Control, seed_requesterId = controlId, seed_clientId = clientId,
      seed_timeoutMs = None, seed_resolve = None, seed_reject = None\<rparr>"

text \<open>
  \<^verbatim>\<open>sendMessageWithReply\<close>: \<open>p\<close> is the promise of the call; it is settled by a later \<open>Resolve p\<close> or
  \<open>Reject p\<close>, or here by the exception returned.
\<close>

definition sendMessageWithReply ::
    "host_env \<Rightarrow> nat \<Rightarrow> int \<Rightarrow> js \<Rightarrow> int option \<Rightarrow> int \<Rightarrow> host \<Rightarrow> host_error option \<times> host" where
  "sendMessageWithReply env p clientId m timeout controlId h =
     (if getRoutableCustomizedPayload m = None then
        (case sendMessageToRuntime env clientId (MObject m) (control_seed controlId clientId) h of
           (Some e, h1) \<Rightarrow> (Some e, h1)
         | (None, h1) \<Rightarrow> (Some NotRoutable, h1))
      else sendMessageToRuntime env clientId (MObject m)
             ((control_seed controlId clientId)\<lparr>seed_timeoutMs := timeout, seed_resolve := Some p, seed_reject := Some p\<rparr>) h)"

definition sendMessageWithoutReply ::
    "host_env \<Rightarrow> bool \<Rightarrow> int \<Rightarrow> js \<Rightarrow> int \<Rightarrow> host \<Rightarrow> host_error option \<times> host" where
  "sendMessageWithoutReply env web clientId m controlId h =
     (let s = (case m of Str t \<Rightarrow> t | _ \<Rightarrow> show_js m) in
      if web then
        (None, if clientId = -1 then sendMessageToWeb s h else sendMessageToWebClient clientId s h)
      else sendMessageToRuntime env clientId (MString s) (control_seed controlId clientId) h)"

section \<open>Messages from a runtime\<close>

definition deliver_routed :: "bool \<Rightarrow> pending_route \<Rightarrow> js \<Rightarrow> host \<Rightarrow> host" where
  "deliver_routed ws target v h =
     (if kind target = Control then
        (case resolve target of
           Some p \<Rightarrow> emit (Resolve p (normalizeRawResponse v (route_clientId target))) h
         | None \<Rightarrow>
             host_sendToControl (requesterId target)
               (client_message (runtime_source ws) (route_clientId target) (show_js v)) h)
      else sendMessageToWebClient (requesterId target)
             (show_js (rewriteRuntimeClientIdData v (route_clientId target))) h)"

definition handleRuntimeMessage :: "host_env \<Rightarrow> bool \<Rightarrow> int \<Rightarrow> string \<Rightarrow> host \<Rightarrow> host" where
  "handleRuntimeMessage env ws clientId m h =
     (let parsedValue = parseJsonMessageOrNull m;
          customized = getCustomizedPayload parsedValue
      in case restoreInboundMessage parsedValue customized clientId h of
           (Some (target, v), h1) \<Rightarrow> deliver_routed ws target v h1
         | (None, h1) \<Rightarrow>
             if Option.bind customized (\<lambda>p. getValidMessageId (inner p)) \<noteq> None then h1
             else
               let v = (if truthy parsedValue then rewriteRuntimeClientIdData parsedValue clientId else parsedValue);
                   broadcastMessage = (if truthy parsedValue then show_js v else m);
                   h2 = h1\<lparr>memoizedQueryTable :=
                          recordNotification (e_now env) clientId broadcastMessage v (memoizedQueryTable h1)\<rparr>;
                   h3 = (if enableWebSocket h2 then sendMessageToWeb broadcastMessage h2 else h2)
               in host_broadcast (client_message (runtime_source ws) clientId m) h3)"

definition handleUsbClientMessage :: "host_env \<Rightarrow> int \<Rightarrow> string \<Rightarrow> host \<Rightarrow> host" where
  "handleUsbClientMessage env cid m h = (if \<not> attached env then h else handleRuntimeMessage env False cid m h)"

definition handleWebSocketAppMessage :: "host_env \<Rightarrow> int \<Rightarrow> string \<Rightarrow> host \<Rightarrow> host" where
  "handleWebSocketAppMessage env cid m h = handleRuntimeMessage env True cid m h"

section \<open>Client watchers\<close>

definition clearClientWatcherStartState :: "string \<Rightarrow> host \<Rightarrow> host" where
  "clearClientWatcherStartState deviceId h =
     h\<lparr>clientWatcherStartedDeviceIds := set_delete deviceId (clientWatcherStartedDeviceIds h),
       clientWatcherStartingByDeviceId := AList.delete deviceId (clientWatcherStartingByDeviceId h)\<rparr>"

definition clearAllClientWatcherStartState :: "host \<Rightarrow> host" where
  "clearAllClientWatcherStartState h =
     h\<lparr>clientWatcherStartedDeviceIds := [], clientWatcherStartingByDeviceId := []\<rparr>"

text \<open>
  \<^verbatim>\<open>ensureClientWatcher\<close> up to its \<^verbatim>\<open>await\<close>: nothing to do, an exception, or the start attempt to wait for,
  which may be one that is already under way.
\<close>

datatype watcher_result = WatcherReady | WatcherThrows | WatcherAwaits nat

definition ensureClientWatcher :: "host_env \<Rightarrow> string \<Rightarrow> host \<Rightarrow> watcher_result \<times> host" where
  "ensureClientWatcher env deviceId h =
     (if \<not> map_has (e_devices env) deviceId then (WatcherReady, h)
      else if \<not> attached env then (WatcherThrows, h)
      else if deviceId \<in> set (clientWatcherStartedDeviceIds h) then (WatcherReady, h)
      else case map_of (clientWatcherStartingByDeviceId h) deviceId of
        Some a \<Rightarrow> (WatcherAwaits a, h)
      | None \<Rightarrow>
          let a = next_attempt h
          in (WatcherAwaits a,
              h\<lparr>clientWatcherStartingByDeviceId := AList.update deviceId a (clientWatcherStartingByDeviceId h),
                next_attempt := Suc a\<rparr>))"

definition isCurrentAttempt :: "string \<Rightarrow> nat \<Rightarrow> host \<Rightarrow> bool" where
  "isCurrentAttempt deviceId a h \<longleftrightarrow> map_of (clientWatcherStartingByDeviceId h) deviceId = Some a"

text \<open>
  The attempt runs: \<^verbatim>\<open>PhysicalConnector.startWatchClient\<close> asks \<^verbatim>\<open>shouldStart\<close> before it starts the device's
  watcher.  \<open>watcher_settled\<close> is what happens when that promise is fulfilled or rejected.
\<close>

definition watcher_runs :: "host_env \<Rightarrow> string \<Rightarrow> nat \<Rightarrow> host \<Rightarrow> host" where
  "watcher_runs env deviceId a h =
     (if attached env \<and> isCurrentAttempt deviceId a h then emit (StartWatch deviceId a) h else h)"

definition watcher_settled :: "string \<Rightarrow> nat \<Rightarrow> bool \<Rightarrow> host \<Rightarrow> host" where
  "watcher_settled deviceId a fulfilled h =
     (let h1 = (if fulfilled \<and> isCurrentAttempt deviceId a h
                then h\<lparr>clientWatcherStartedDeviceIds := set_add deviceId (clientWatcherStartedDeviceIds h)\<rparr> else h)
      in if isCurrentAttempt deviceId a h1
         then h1\<lparr>clientWatcherStartingByDeviceId := AList.delete deviceId (clientWatcherStartingByDeviceId h1)\<rparr> else h1)"

definition stopWatchClient :: "host_env \<Rightarrow> string \<Rightarrow> host \<Rightarrow> host" where
  "stopWatchClient env deviceId h =
     (let h1 = clearClientWatcherStartState deviceId h in
      if map_has (e_devices env) deviceId then emit (StopWatchClient deviceId) h1 else h1)"

definition disconnectDevice :: "host_env \<Rightarrow> string \<Rightarrow> host \<Rightarrow> host" where
  "disconnectDevice env deviceId h =
     (let h1 = clearClientWatcherStartState deviceId h in
      if map_has (e_devices env) deviceId then emit (DisconnectDevice deviceId) h1 else h1)"

fun ensureAllClientWatchers :: "host_env \<Rightarrow> string list \<Rightarrow> host \<Rightarrow> watcher_result list \<times> host" where
  "ensureAllClientWatchers env [] h = ([], h)"
| "ensureAllClientWatchers env (d # ds) h =
     (case ensureClientWatcher env d h of
        (r, h1) \<Rightarrow> (case ensureAllClientWatchers env ds h1 of (rs, h2) \<Rightarrow> (r # rs, h2)))"

definition close_ws_apps :: "host_env \<Rightarrow> host \<Rightarrow> host" where
  "close_ws_apps env h =
     (case getWebSocketAppClients env h of
        None \<Rightarrow> h
      | Some m \<Rightarrow> fold (\<lambda>cid. emit (CloseWsClient cid)) (map_keys m) h)"

text \<open>\<^verbatim>\<open>forceDisableAllClients\<close> after the start attempts have settled.\<close>

definition forceDisableAllClients :: "host_option \<Rightarrow> host_env \<Rightarrow> host \<Rightarrow> host" where
  "forceDisableAllClients opt env h =
     publishClientSnapshot opt env
       (close_ws_apps env (emit DisableAllClients (clearAllClientWatcherStartState h)))"

section \<open>Events of the physical connector and of the ownership guard\<close>

definition handleDeviceConnected :: "host_option \<Rightarrow> host_env \<Rightarrow> string \<Rightarrow> host \<Rightarrow> host" where
  "handleDeviceConnected opt env serial h =
     (if \<not> attached env then h
      else sendSnapshot opt env None (if \<not> manualConnect h then snd (ensureClientWatcher env serial h) else h))"

definition handleDeviceDisconnected :: "host_option \<Rightarrow> host_env \<Rightarrow> string \<Rightarrow> host \<Rightarrow> host" where
  "handleDeviceDisconnected opt env serial h =
     (if \<not> attached env then h else sendSnapshot opt env None (clearClientWatcherStartState serial h))"

definition handleClientConnected :: "host_option \<Rightarrow> host_env \<Rightarrow> host \<Rightarrow> host" where
  "handleClientConnected opt env h =
     (if \<not> attached env then h
      else sendSnapshot opt env None (sendClientList (emit (Trace ''app_client_connected'') h)))"

definition handleClientDisconnected :: "host_option \<Rightarrow> host_env \<Rightarrow> int \<Rightarrow> host \<Rightarrow> host" where
  "handleClientDisconnected opt env cid h =
     (if \<not> attached env then h
      else let h1 = emit (Trace ''app_client_disconnected'') h;
               h2 = h1\<lparr>memoizedQueryTable := memo_clearClient cid (memoizedQueryTable h1)\<rparr>
           in sendSnapshot opt env None (sendClientList (clear_and_reject (clearByClientId cid) (RuntimeGone cid) h2)))"

definition handleLegacyOwnershipLost :: "host_option \<Rightarrow> host_env \<Rightarrow> host \<Rightarrow> host" where
  "handleLegacyOwnershipLost opt env h =
     (let h1 = clearAllClientWatcherStartState h;
          h2 = h1\<lparr>memoizedQueryTable := memo_clear (memoizedQueryTable h1)\<rparr>;
          h3 = clear_and_reject clear_routes OwnerPreempted h2;
          h4 = close_ws_apps env (emit ClearUsbClients (emit DisableAllClients h3))
      in sendClientList (sendSnapshot opt (env\<lparr>e_usbClients := []\<rparr>) None h4))"

fun ownership_status_js :: "ownership_status \<Rightarrow> js" where
  "ownership_status_js Attached = Str ''attached''"
| "ownership_status_js Unattached = Str ''unattached''"
| "ownership_status_js UnInit = Str ''unInit''"

fun ownership_reason_js :: "ownership_reason \<Rightarrow> js" where
  "ownership_reason_js DaemonStarted = Str ''daemon-started''"
| "ownership_reason_js LegacyPreempted = Str ''legacy-preempted''"
| "ownership_reason_js ReacquireRequested = Str ''reacquire-requested''"
| "ownership_reason_js StaleOwner = Str ''stale-owner''"
| "ownership_reason_js InvalidOwner = Str ''invalid-owner''"

definition ownership_change_js :: "ownership_change \<Rightarrow> js" where
  "ownership_change_js c =
     Obj ([(''status'', ownership_status_js (change_status c)), (''ownerPid'', int_num (ownerPid c))] @
          (case previousOwnerPid c of None \<Rightarrow> [] | Some p \<Rightarrow> [(''previousOwnerPid'', int_num p)]) @
          [(''reason'', ownership_reason_js (change_reason c))])"

definition handleLegacyOwnershipChanged :: "host_option \<Rightarrow> host_env \<Rightarrow> ownership_change \<Rightarrow> host \<Rightarrow> host" where
  "handleLegacyOwnershipChanged opt env c h =
     host_broadcast (control_event ''legacy-ownership-changed'' (ownership_change_js c))
       (if change_status c = Unattached
        then handleLegacyOwnershipLost opt env (emit (Trace ''legacy_ownership_lost'') h)
        else emit (Trace ''legacy_ownership_attached'') h)"

definition handleConnectorError :: "js \<Rightarrow> host \<Rightarrow> host" where
  "handleConnectorError data h = host_broadcast (control_event ''connector-error'' data) h"

section \<open>Shared device managers\<close>

definition addManagerControl :: "manager_key \<Rightarrow> int \<Rightarrow> host \<Rightarrow> bool \<times> host" where
  "addManagerControl key controlId h =
     (case map_of (enabledManagers h) key of
        Some cids \<Rightarrow> (False, h\<lparr>enabledManagers := AList.update key (set_add controlId cids) (enabledManagers h)\<rparr>)
      | None \<Rightarrow> (True, h\<lparr>enabledManagers := AList.update key [controlId] (enabledManagers h)\<rparr>))"

definition add_manager :: "manager_key \<Rightarrow> js \<Rightarrow> bool \<Rightarrow> int \<Rightarrow> host \<Rightarrow> host" where
  "add_manager key option autoListen controlId h =
     (case addManagerControl key controlId h of
        (True, h1) \<Rightarrow> emit (AddManager key option autoListen) h1
      | (False, h1) \<Rightarrow> h1)"

definition addAndroidManager :: "int \<Rightarrow> js \<Rightarrow> host \<Rightarrow> host" where
  "addAndroidManager controlId option h =
     add_manager (AndroidKey (nullish (jget option ''host'') (Str ''127.0.0.1'')) (nullish (jget option ''port'') (int_num 5037)))
       option (\<not> manualConnect h) controlId h"

definition addHarmonyManager :: "int \<Rightarrow> js \<Rightarrow> host \<Rightarrow> host" where
  "addHarmonyManager controlId option h =
     add_manager (HarmonyKey (nullish (jget option ''host'') (Str ''127.0.0.1'')) (nullish (jget option ''port'') (int_num 8710)))
       option (\<not> manualConnect h) controlId h"

definition addIOSManager :: "int \<Rightarrow> host \<Rightarrow> host" where
  "addIOSManager controlId h = add_manager IOSKey Undefined (\<not> manualConnect h) controlId h"

definition addDesktopManager :: "int \<Rightarrow> host \<Rightarrow> host" where
  "addDesktopManager controlId h = add_manager DesktopKey Undefined (\<not> manualConnect h) controlId h"

definition addNetworkManager :: "int \<Rightarrow> js \<Rightarrow> bool \<Rightarrow> host \<Rightarrow> host" where
  "addNetworkManager controlId option autoListen h =
     add_manager (NetworkKey (jget option ''ip'')) option autoListen controlId h"

definition addPhysicalDeviceManagers :: "int \<Rightarrow> js \<Rightarrow> host \<Rightarrow> host" where
  "addPhysicalDeviceManagers controlId option h =
     (let h1 = (if truthy (jget option ''usbConnectOpt'') then emit (UpdateUsbOption (jget option ''usbConnectOpt'')) h else h);
          h2 = (if truthy (jget option ''enableAndroid'') then addAndroidManager controlId (jget option ''adbHostPort'') h1 else h1);
          h3 = (if truthy (jget option ''enableHarmony'') then addHarmonyManager controlId (jget option ''hdcHostPort'') h2 else h2);
          h4 = (if truthy (jget option ''enableIOS'') then addIOSManager controlId h3 else h3);
          h5 = (if truthy (jget option ''enableDesktop'') then addDesktopManager controlId h4 else h4)
      in if truthy (jget option ''enableNetworkDevice'') \<and> truthy (jget option ''networkDeviceOpt'')
         then addNetworkManager controlId (jget option ''networkDeviceOpt'') (\<not> manualConnect h5) h5 else h5)"

text \<open>
  Closing a manager unregisters its devices and their clients at once, and each removal calls back
  into the host: \<open>rem key\<close> lists these calls with what the host reads at the time of each.  The loop
  runs over the entries the map had when it started; only the current entry is removed.
\<close>

datatype phys_removal = RemovedClient int | RemovedDevice string

fun run_removals :: "host_option \<Rightarrow> (phys_removal \<times> host_env) list \<Rightarrow> host \<Rightarrow> host" where
  "run_removals opt [] h = h"
| "run_removals opt ((RemovedClient cid, env) # rs) h = run_removals opt rs (handleClientDisconnected opt env cid h)"
| "run_removals opt ((RemovedDevice d, env) # rs) h = run_removals opt rs (handleDeviceDisconnected opt env d h)"

type_synonym removals = "manager_key \<Rightarrow> (phys_removal \<times> host_env) list"

fun release_loop :: "host_option \<Rightarrow> removals \<Rightarrow> int \<Rightarrow> (manager_key, int jsset) jsmap \<Rightarrow> host \<Rightarrow> host" where
  "release_loop opt rem controlId [] h = h"
| "release_loop opt rem controlId ((key, cids) # rest) h =
     (if controlId \<notin> set cids then release_loop opt rem controlId rest h
      else if set_delete controlId cids \<noteq> [] then
        release_loop opt rem controlId rest
          (h\<lparr>enabledManagers := AList.update key (set_delete controlId cids) (enabledManagers h)\<rparr>)
      else release_loop opt rem controlId rest
             (run_removals opt (rem key)
               (emit (CloseManager key) (h\<lparr>enabledManagers := AList.delete key (enabledManagers h)\<rparr>))))"

definition releasePhysicalDeviceManagers :: "host_option \<Rightarrow> removals \<Rightarrow> int \<Rightarrow> host \<Rightarrow> host" where
  "releasePhysicalDeviceManagers opt rem controlId h = release_loop opt rem controlId (enabledManagers h) h"

section \<open>Reports\<close>

definition report_event :: "report_data \<Rightarrow> js" where
  "report_event d = control_event ''report''
     (Obj [(''eventName'', Str (eventName d)), (''metrics'', metrics d), (''categories'', categories d)])"

text \<open>Run an operation of the bridge and send what it forwarded.\<close>

definition with_bridge :: "(bridge \<Rightarrow> bridge) \<Rightarrow> host \<Rightarrow> host" where
  "with_bridge f h =
     (let b = f (reportBridge h) in
      fold (\<lambda>(cid, d). host_sendToControl cid (report_event d))
        (drop (length (sent_reports (reportBridge h))) (sent_reports b)) (h\<lparr>reportBridge := b\<rparr>))"

definition updateReportStatus :: "host \<Rightarrow> host" where
  "updateReportStatus h =
     with_bridge (updateStatus no_reentry
       (case reportControlIds h of [] \<Rightarrow> Disconnected | cid # _ \<Rightarrow> ForwardTo cid)) h"

definition host_report :: "string \<Rightarrow> js \<Rightarrow> js \<Rightarrow> host \<Rightarrow> host" where
  "host_report name m c h = with_bridge (report no_reentry name m c) h"

section \<open>Control sessions\<close>

definition default_facade_option :: js where
  "default_facade_option =
     Obj [(''manualConnect'', Bool False), (''enableAndroid'', Bool True), (''enableIOS'', Bool True),
          (''enableHarmony'', Bool True), (''enableDesktop'', Bool False), (''enableNetworkDevice'', Bool False)]"

text \<open>The three stages of \<^verbatim>\<open>handleControlConnected\<close>: bookkeeping, what the connector is sent, what it starts.\<close>

definition register_control :: "int \<Rightarrow> bool \<Rightarrow> bool \<Rightarrow> host \<Rightarrow> host" where
  "register_control controlId reportServiceEnabled auto h =
     (let h1 = h\<lparr>activeControlIds := set_add controlId (activeControlIds h)\<rparr>;
          h2 = (if auto then h1\<lparr>autoConnectControlIds := set_add controlId (autoConnectControlIds h1)\<rparr> else h1);
          h3 = h2\<lparr>manualConnect := (autoConnectControlIds h2 = [])\<rparr>
      in if reportServiceEnabled then h3\<lparr>reportControlIds := set_add controlId (reportControlIds h3)\<rparr> else h3)"

definition greet_control :: "host_option \<Rightarrow> host_env \<Rightarrow> int \<Rightarrow> host \<Rightarrow> host" where
  "greet_control opt env controlId h =
     (let h1 = sendSnapshot opt env (Some [controlId]) (clearIdleTimeout (emit (Trace ''control_socket_connected'') h))
      in updateReportStatus
           (if e_ownership env \<noteq> UnInit then
              host_sendToControl controlId (control_event ''legacy-ownership-changed''
                (Obj [(''status'', ownership_status_js (e_ownership env)), (''ownerPid'', int_num (e_pid env)),
                      (''reason'', Str (if attached env then ''daemon-started'' else ''legacy-preempted''))])) h1
            else h1))"

definition start_for_control :: "int \<Rightarrow> js \<Rightarrow> bool \<Rightarrow> host \<Rightarrow> host" where
  "start_for_control controlId facade auto h =
     (let h1 = (if auto then host_report ''PhysicalConnectorInitOfNoManualConnect'' (Obj [])
                  (Obj [(''option'', Str (''PhysicalConnectorOption:'' @ show_js facade))]) h else h);
          h2 = (if truthy (jget facade ''enableWebSocket'') then h1\<lparr>enableWebSocket := True\<rparr> else h1);
          h3 = addPhysicalDeviceManagers controlId facade h2
      in if auto then emit ConnectDevices h3 else h3)"

definition handleControlConnected ::
    "host_option \<Rightarrow> host_env \<Rightarrow> int \<Rightarrow> bool \<Rightarrow> js \<Rightarrow> host \<Rightarrow> host" where
  "handleControlConnected opt env controlId reportServiceEnabled facade0 h =
     (let facade = (if facade0 = Undefined then default_facade_option else facade0);
          auto = \<not> truthy (jget facade ''manualConnect'')
      in start_for_control controlId facade auto
           (greet_control opt env controlId (register_control controlId reportServiceEnabled auto h)))"

definition unregister_control :: "int \<Rightarrow> host \<Rightarrow> host" where
  "unregister_control controlId h =
     (let h1 = h\<lparr>activeControlIds := set_delete controlId (activeControlIds h),
                 autoConnectControlIds := set_delete controlId (autoConnectControlIds h)\<rparr>;
          h2 = h1\<lparr>manualConnect := (autoConnectControlIds h1 = []),
                  reportControlIds := set_delete controlId (reportControlIds h1)\<rparr>;
          h3 = emit (Trace ''control_socket_disconnected'') (updateReportStatus h2)
      in h3\<lparr>webSocketRequesterControlIds := set_delete controlId (webSocketRequesterControlIds h3)\<rparr>)"

definition handleControlDisconnected :: "host_option \<Rightarrow> removals \<Rightarrow> int \<Rightarrow> host \<Rightarrow> host" where
  "handleControlDisconnected opt rem controlId h =
     scheduleIdleTimeoutIfNeeded opt
       (clear_and_reject (clearByControlId controlId) (ControlGone controlId)
         (releasePhysicalDeviceManagers opt rem controlId (unregister_control controlId h)))"

section \<open>WebSocket clients\<close>

definition handleWebSocketClientConnected :: "host_option \<Rightarrow> host_env \<Rightarrow> int \<Rightarrow> string \<Rightarrow> host \<Rightarrow> host" where
  "handleWebSocketClientConnected opt env clientId type h =
     (let h1 = (if type = ''Driver''
                then clearIdleTimeout (h\<lparr>activeWebSocketDriverIds := set_add clientId (activeWebSocketDriverIds h)\<rparr>)
                else h)
      in sendSnapshot opt env (Some (webSocketRequesterControlIds h1)) h1)"

definition handleWebSocketClientDisconnected ::
    "host_option \<Rightarrow> host_env \<Rightarrow> int \<Rightarrow> string \<Rightarrow> host \<Rightarrow> host" where
  "handleWebSocketClientDisconnected opt env clientId type h =
     (let h1 = (if type = ''Driver'' then
                  let g = h\<lparr>activeWebSocketDriverIds := set_delete clientId (activeWebSocketDriverIds h)\<rparr>
                  in scheduleIdleTimeoutIfNeeded opt
                       (g\<lparr>pendingRoutes := snd (clearByWebClientId clientId (pendingRoutes g))\<rparr>)
                else clear_and_reject (clearByClientId clientId) (RuntimeGone clientId)
                       (h\<lparr>memoizedQueryTable := memo_clearClient clientId (memoizedQueryTable h)\<rparr>))
      in sendSnapshot opt env (Some (webSocketRequesterControlIds h1)) h1)"

datatype driver_event =
    WsClientMessage js
  | WsWebMessage js
  | WsAppConnected int string
  | WsWebConnected int string
  | WsAppDisconnected int
  | WsWebDisconnected int
  | OtherDriverEvent

text \<open>\<^verbatim>\<open>{source, ...payload}\<close>: the payload is an object with \<^verbatim>\<open>id\<close> and \<^verbatim>\<open>message\<close>.\<close>

definition host_emit :: "host_option \<Rightarrow> host_env \<Rightarrow> driver_event \<Rightarrow> host \<Rightarrow> host" where
  "host_emit opt env ev h =
     (case ev of
        WsClientMessage payload \<Rightarrow>
          sendToWebSocketRequesters (control_event ''client-message''
            (spread (Obj [(''source'', Str ''websocket-runtime'')]) payload)) h
      | WsWebMessage payload \<Rightarrow>
          sendToWebSocketRequesters (control_event ''client-message''
            (spread (Obj [(''source'', Str ''websocket-driver'')]) payload)) h
      | WsAppConnected cid type \<Rightarrow>
          handleWebSocketClientConnected opt env cid type (emit (Trace ''websocket_app_client_connected'') h)
      | WsWebConnected cid type \<Rightarrow>
          handleWebSocketClientConnected opt env cid type (emit (Trace ''websocket_web_client_connected'') h)
      | WsAppDisconnected cid \<Rightarrow>
          handleWebSocketClientDisconnected opt env cid ''runtime'' (emit (Trace ''websocket_app_client_disconnected'') h)
      | WsWebDisconnected cid \<Rightarrow>
          handleWebSocketClientDisconnected opt env cid ''Driver'' (emit (Trace ''websocket_web_client_disconnected'') h)
      | OtherDriverEvent \<Rightarrow> h)"

section \<open>Starting and stopping\<close>

text \<open>
  \<^verbatim>\<open>start\<close>: the synchronous part, then \<open>start_listening\<close> when the control server listens and
  \<open>start_finished\<close> when the ownership guard has started.  A failure of either runs \<^verbatim>\<open>stop\<close>.
\<close>

definition host_start :: "host \<Rightarrow> host" where
  "host_start h =
     (if lifecycleStatus h = HostClosed \<or> lifecycleStatus h = Ready \<or> startInFlight h then h
      else h\<lparr>startInFlight := True, shutdownRequested := False, daemonStopReason := None\<rparr>)"

definition start_listening :: "host \<Rightarrow> host" where
  "start_listening h = emit (Trace ''daemon_started'') (h\<lparr>controlServer := True\<rparr>)"

definition start_finished :: "host_option \<Rightarrow> host \<Rightarrow> host" where
  "start_finished opt h =
     (if lifecycleStatus h = Uninitialized
      then (scheduleIdleTimeoutIfNeeded opt (h\<lparr>lifecycleStatus := Ready\<rparr>))\<lparr>startInFlight := False\<rparr>
      else h\<lparr>startInFlight := False\<rparr>)"

text \<open>
  \<^verbatim>\<open>stop\<close>: the synchronous part up to the waits for startups under way, then the segments of
  \<^verbatim>\<open>stopInternal\<close> between its \<^verbatim>\<open>await\<close>s.
\<close>

definition stop_begin :: "host \<Rightarrow> host" where
  "stop_begin h =
     (if lifecycleStatus h = HostClosed then h
      else with_bridge close_bridge (h\<lparr>lifecycleStatus := HostClosed\<rparr>)\<lparr>reportControlIds := []\<rparr>)"

definition stop_detach :: "host \<Rightarrow> host" where
  "stop_detach h =
     (let h1 = emit StopGuard (clearIdleTimeout (h\<lparr>shutdownRequested := False\<rparr>));
          ws = webSocketController h1;
          h2 = h1\<lparr>activeControlIds := [], autoConnectControlIds := [], enabledManagers := [],
                  webSocketRequesterControlIds := [], activeWebSocketDriverIds := [],
                  webSocketController := False, webSocketServerInfo := None, webSocketServerStarted := False\<rparr>
      in if ws then emit CloseWebSocketController h2 else h2)"

definition stop_server :: "host \<Rightarrow> host" where
  "stop_server h = (if controlServer h then emit StopControlServer (h\<lparr>controlServer := False\<rparr>) else h)"

definition clearRuntimeState :: "host \<Rightarrow> host" where
  "clearRuntimeState h =
     (let h1 = clearAllClientWatcherStartState h
      in clear_and_reject clear_routes RouteTableReset
           (h1\<lparr>memoizedQueryTable := memo_clear (memoizedQueryTable h1)\<rparr>))"

definition stop_runtime :: "host \<Rightarrow> host" where
  "stop_runtime h =
     (emit (Trace ''daemon_stopped'') (clearRuntimeState (emit ClosePhysical h)))\<lparr>daemonStopReason := None\<rparr>"

definition requestDaemonShutdown :: "string option \<Rightarrow> host \<Rightarrow> host_error option \<times> host" where
  "requestDaemonShutdown reason h =
     (if \<not> shutdownHandler h then (Some ShutdownUnavailable, h)
      else if shutdownRequested h then (None, h)
      else let h1 = h\<lparr>shutdownRequested := True,
                      daemonStopReason := Some (case reason of None \<Rightarrow> ''control_request'' | Some r \<Rightarrow> r)\<rparr>
           in (None, emit RunShutdownHandler (clearIdleTimeout (emit (Trace ''daemon_shutdown_requested'') h1))))"

section \<open>The WebSocket server\<close>

text \<open>
  \<^verbatim>\<open>startWSServer\<close> up to its \<^verbatim>\<open>await\<close>: the server's information, an exception, or waiting for the
  attempt under way.  \<open>ws_start_settled\<close> settles the attempt, \<open>ws_start_resumes\<close> is what a waiting call
  does then.
\<close>

datatype ws_start = WsInfo js | WsThrows host_error | WsAwaits

definition startWSServer :: "host_option \<Rightarrow> host_env \<Rightarrow> int \<Rightarrow> host \<Rightarrow> ws_start \<times> host" where
  "startWSServer opt env controlId h =
     (if lifecycleStatus h = HostClosed then (WsThrows WebSocketUnavailable, h)
      else if \<not> enableWebSocket h then (WsThrows WebSocketDisabled, h)
      else let h1 = h\<lparr>webSocketRequesterControlIds := set_add controlId (webSocketRequesterControlIds h)\<rparr> in
           if webSocketServerStarted h1 then
             (case webSocketServerInfo h1 of
                None \<Rightarrow> (WsThrows WebSocketInfoUnavailable,
                         h1\<lparr>webSocketRequesterControlIds := set_delete controlId (webSocketRequesterControlIds h1)\<rparr>)
              | Some info \<Rightarrow> (WsInfo info, sendSnapshot opt env (Some [controlId]) h1))
           else if \<not> webSocketServerStarting h1
                then (WsAwaits, emit StartWebSocketServer (h1\<lparr>webSocketServerStarting := True\<rparr>))
                else (WsAwaits, h1))"

text \<open>\<^verbatim>\<open>startWebSocketServerInternal\<close> has created the controller (\<open>ws_controller_created\<close>), before its result is known.\<close>

definition ws_controller_created :: "host \<Rightarrow> host" where
  "ws_controller_created h = h\<lparr>webSocketController := True\<rparr>"

definition ws_start_settled :: "js option \<Rightarrow> host \<Rightarrow> host" where
  "ws_start_settled r h =
     (case r of
        Some info \<Rightarrow>
          (emit (Trace ''websocket_server_started'')
             (h\<lparr>webSocketServerStarted := True, webSocketServerInfo := Some info\<rparr>))\<lparr>webSocketServerStarting := False\<rparr>
      | None \<Rightarrow>
          (if webSocketController h then emit CloseWebSocketController (h\<lparr>webSocketController := False\<rparr>) else h)
            \<lparr>webSocketServerStarting := False\<rparr>)"

definition ws_start_resumes :: "host_option \<Rightarrow> host_env \<Rightarrow> int \<Rightarrow> bool \<Rightarrow> host \<Rightarrow> host" where
  "ws_start_resumes opt env controlId fulfilled h =
     (if fulfilled then sendSnapshot opt env (Some [controlId]) h
      else h\<lparr>webSocketRequesterControlIds := set_delete controlId (webSocketRequesterControlIds h)\<rparr>)"

section \<open>Control RPCs\<close>

definition closeClient :: "host_env \<Rightarrow> int \<Rightarrow> host \<Rightarrow> host" where
  "closeClient env cid h =
     (if (case getWebSocketAppClients env h of None \<Rightarrow> False | Some m \<Rightarrow> map_has m cid) then emit (CloseWsClient cid) h
      else if (case getWebSocketWebClients env h of None \<Rightarrow> False | Some m \<Rightarrow> map_has m cid) then emit (CloseWsClient cid) h
      else if map_has (e_usbClients env) cid then emit (CloseUsbClient cid) h else h)"

text \<open>
  What a request leads to: a result, an exception, or a promise of another part that it awaits.  An
  integer field of the parameters that is not an integer names no client.
\<close>

datatype rpc_wait =
    WaitDevices js js
  | WaitUsbClients string js
  | WaitManager
  | WaitWatcher nat
  | WaitStopWatch string
  | WaitReacquire
  | WaitWatchersSettled "nat list"
  | WaitWebSocketServer
  | WaitReply nat

datatype rpc_outcome = RpcResult js | RpcThrows host_error | RpcAwaits rpc_wait

fun js_int :: "js \<Rightarrow> int option" where
  "js_int (Num n) = num_key n"
| "js_int _ = None"

fun js_str :: "js \<Rightarrow> string" where
  "js_str (Str s) = s"
| "js_str _ = []"

fun js_floor :: "js \<Rightarrow> int option" where
  "js_floor (Num (Fin q)) = Some \<lfloor>q\<rfloor>"
| "js_floor _ = None"

definition on_client :: "js \<Rightarrow> (int \<Rightarrow> host \<Rightarrow> host_error option \<times> host) \<Rightarrow> host \<Rightarrow> host_error option \<times> host" where
  "on_client v f h = (case js_int v of None \<Rightarrow> (Some (ClientNotFound 0), h) | Some cid \<Rightarrow> f cid h)"

definition rpc_of :: "host_error option \<times> host \<Rightarrow> rpc_outcome \<Rightarrow> rpc_outcome \<times> host" where
  "rpc_of r ok = (case r of (None, h) \<Rightarrow> (ok, h) | (Some e, h) \<Rightarrow> (RpcThrows e, h))"

definition handleControlRpc ::
    "host_option \<Rightarrow> host_env \<Rightarrow> nat \<Rightarrow> int \<Rightarrow> string \<Rightarrow> js \<Rightarrow> host \<Rightarrow> rpc_outcome \<times> host" where
  "handleControlRpc opt env p controlId meth params h =
     (if meth = ''connectDevices'' then
        (RpcAwaits (WaitDevices (nullish (jget params ''timeout'') (int_num (-1))) (nullish (jget params ''serial'') Null)),
         emit ConnectDevices h)
      else if meth = ''connectUsbClients'' then
        (let d = js_str (jget params ''deviceId'') in
         if \<not> map_has (e_devices env) d then (RpcResult (Arr []), h)
         else case ensureClientWatcher env d h of
                (WatcherThrows, h1) \<Rightarrow> (RpcThrows OwnerNotAttached, h1)
              | (WatcherReady, h1) \<Rightarrow> (RpcAwaits (WaitUsbClients d params), h1)
              | (WatcherAwaits a, h1) \<Rightarrow> (RpcAwaits (WaitWatcher a), h1))
      else if meth = ''watchNetworkDeviceAtIp'' then
        (RpcAwaits WaitManager, addNetworkManager controlId params True h)
      else if meth = ''startDeviceClientWatcher'' then
        (case ensureClientWatcher env (js_str (jget params ''deviceId'')) h of
           (WatcherThrows, h1) \<Rightarrow> (RpcThrows OwnerNotAttached, h1)
         | (WatcherReady, h1) \<Rightarrow> (RpcResult Undefined, h1)
         | (WatcherAwaits a, h1) \<Rightarrow> (RpcAwaits (WaitWatcher a), h1))
      else if meth = ''stopDeviceClientWatcher'' then
        (RpcAwaits (WaitStopWatch (js_str (jget params ''deviceId''))), stopWatchClient env (js_str (jget params ''deviceId'')) h)
      else if meth = ''startAllDeviceClientWatchers'' then (RpcAwaits WaitReacquire, h)
      else if meth = ''stopAllDeviceClientWatchers'' then
        (RpcAwaits (WaitWatchersSettled (map_values (clientWatcherStartingByDeviceId h))), h)
      else if meth = ''disconnectDevice'' then
        (RpcResult Undefined, disconnectDevice env (js_str (jget params ''deviceId'')) h)
      else if meth = ''shutdownDaemon'' then
        rpc_of (requestDaemonShutdown (case jget params ''reason'' of Str r \<Rightarrow> Some r | _ \<Rightarrow> None) h) (RpcResult Undefined)
      else if meth = ''startWSServer'' then
        (case startWSServer opt env controlId h of
           (WsInfo info, h1) \<Rightarrow> (RpcResult info, h1)
         | (WsThrows e, h1) \<Rightarrow> (RpcThrows e, h1)
         | (WsAwaits, h1) \<Rightarrow> (RpcAwaits WaitWebSocketServer, h1))
      else if meth = ''sendMessageWithReply'' then
        rpc_of (on_client (jget params ''clientId'')
                 (\<lambda>cid. sendMessageWithReply env p cid (jget params ''message'') (js_floor (jget params ''timeout'')) controlId) h)
          (RpcAwaits (WaitReply p))
      else if meth = ''sendMessageWithoutReply'' then
        rpc_of (if jget params ''target'' = Str ''web'' \<and> js_int (jget params ''clientId'') = None then (None, h) else
                 on_client (jget params ''clientId'')
                 (\<lambda>cid. sendMessageWithoutReply env (jget params ''target'' = Str ''web'') cid (jget params ''message'') controlId) h)
          (RpcResult Undefined)
      else if meth = ''closeClient'' then
        (RpcResult Undefined, case js_int (jget params ''clientId'') of None \<Rightarrow> h | Some cid \<Rightarrow> closeClient env cid h)
      else (RpcThrows UnknownRpc, h))"

text \<open>\<^verbatim>\<open>startWatchAllClients\<close> after ownership has been reacquired.\<close>

definition startWatchAllClients :: "host_env \<Rightarrow> host \<Rightarrow> watcher_result list \<times> host" where
  "startWatchAllClients env h = ensureAllClientWatchers env (map_keys (e_devices env)) h"

section \<open>Events\<close>

text \<open>Everything that happens to a host, in any order; each event carries what the host reads meanwhile.\<close>

datatype host_event =
    EvControlConnected host_env int bool js
  | EvControlDisconnected removals int
  | EvRpc host_env nat int string js
  | EvUsbMessage host_env int string
  | EvWsAppMessage host_env int string
  | EvWsDriverMessage host_env int int string
  | EvDriver host_env driver_event
  | EvDeviceConnected host_env string
  | EvDeviceDisconnected host_env string
  | EvClientConnected host_env
  | EvClientDisconnected host_env int
  | EvOwnership host_env ownership_change
  | EvConnectorError js
  | EvReport string js js
  | EvRouteTimer nat
  | EvRetryTimer host_env nat
  | EvIdleTimer
  | EvWatcherRuns host_env string nat
  | EvWatcherSettled string nat bool
  | EvAllWatchersSettled host_env
  | EvReacquired host_env
  | EvWsCreated
  | EvWsSettled "js option"
  | EvWsResumes host_env int bool
  | EvSetIdleHandler
  | EvSetShutdownHandler
  | EvStart
  | EvListening
  | EvStartFinished
  | EvStop
  | EvStopDetach
  | EvStopServer
  | EvStopRuntime

fun host_step :: "host_option \<Rightarrow> host_event \<Rightarrow> host \<Rightarrow> host" where
  "host_step opt (EvControlConnected env cid rep facade) h = handleControlConnected opt env cid rep facade h"
| "host_step opt (EvControlDisconnected rem cid) h = handleControlDisconnected opt rem cid h"
| "host_step opt (EvRpc env p cid meth params) h = snd (handleControlRpc opt env p cid meth params h)"
| "host_step opt (EvUsbMessage env cid m) h = handleUsbClientMessage env cid m h"
| "host_step opt (EvWsAppMessage env cid m) h = handleWebSocketAppMessage env cid m h"
| "host_step opt (EvWsDriverMessage env wid cid m) h = snd (handleWebSocketDriverMessage env wid cid m h)"
| "host_step opt (EvDriver env ev) h = host_emit opt env ev h"
| "host_step opt (EvDeviceConnected env d) h = handleDeviceConnected opt env d h"
| "host_step opt (EvDeviceDisconnected env d) h = handleDeviceDisconnected opt env d h"
| "host_step opt (EvClientConnected env) h = handleClientConnected opt env h"
| "host_step opt (EvClientDisconnected env cid) h = handleClientDisconnected opt env cid h"
| "host_step opt (EvOwnership env c) h = handleLegacyOwnershipChanged opt env c h"
| "host_step opt (EvConnectorError d) h = handleConnectorError d h"
| "host_step opt (EvReport n m c) h = host_report n m c h"
| "host_step opt (EvRouteTimer t) h = route_timer_fires t h"
| "host_step opt (EvRetryTimer env t) h = retry_timer_fires env t h"
| "host_step opt EvIdleTimer h = idle_timer_fires h"
| "host_step opt (EvWatcherRuns env d a) h = watcher_runs env d a h"
| "host_step opt (EvWatcherSettled d a ok) h = watcher_settled d a ok h"
| "host_step opt (EvAllWatchersSettled env) h = forceDisableAllClients opt env h"
| "host_step opt (EvReacquired env) h = snd (startWatchAllClients env h)"
| "host_step opt EvWsCreated h = ws_controller_created h"
| "host_step opt (EvWsSettled r) h = ws_start_settled r h"
| "host_step opt (EvWsResumes env cid ok) h = ws_start_resumes opt env cid ok h"
| "host_step opt EvSetIdleHandler h = setIdleTimeoutHandler h"
| "host_step opt EvSetShutdownHandler h = setShutdownHandler h"
| "host_step opt EvStart h = host_start h"
| "host_step opt EvListening h = start_listening h"
| "host_step opt EvStartFinished h = start_finished opt h"
| "host_step opt EvStop h = stop_begin h"
| "host_step opt EvStopDetach h = stop_detach h"
| "host_step opt EvStopServer h = stop_server h"
| "host_step opt EvStopRuntime h = stop_runtime h"

abbreviation host_run :: "host_option \<Rightarrow> host_event list \<Rightarrow> host \<Rightarrow> host" where
  "host_run opt \<equiv> fold (host_step opt)"

end
