(* ===== verification/Host_Routing.thy ===== *)
theory Host_Routing
  imports Daemon_Host "HOL-Library.Multiset"
begin

text \<open>
  What the daemon host does with requests and replies.  The handlers of \<^verbatim>\<open>MultiplexerDaemonHost.ts\<close>
  are rewritten to record updates and lists of calls (\<open>logs\<close>); the ledger of reply promises is shown to
  be kept by every event; and the routing of requests, replies and notifications is proved end to end.
\<close>

section \<open>Handlers as a record update and a list of calls\<close>

text \<open>
  Most helpers of the host only make calls.  Each is rewritten to \<open>logs xs\<close>, which appends the calls
  \<open>xs\<close>; a handler is then a sequence of updates and calls.
\<close>

definition logs :: "host_out list \<Rightarrow> host \<Rightarrow> host" where
  "logs xs h = h\<lparr>log := log h @ xs\<rparr>"

lemma logs_Nil [simp]: "logs [] h = h"
  by (simp add: logs_def)

lemma logs_logs [simp]: "logs ys (logs xs h) = logs (xs @ ys) h"
  by (simp add: logs_def)

lemma logs_simps [simp]:
  "log (logs xs h) = log h @ xs"
  "lifecycleStatus (logs xs h) = lifecycleStatus h"
  "startInFlight (logs xs h) = startInFlight h"
  "enableWebSocket (logs xs h) = enableWebSocket h"
  "manualConnect (logs xs h) = manualConnect h"
  "enabledManagers (logs xs h) = enabledManagers h"
  "pendingRoutes (logs xs h) = pendingRoutes h"
  "memoizedQueryTable (logs xs h) = memoizedQueryTable h"
  "retry_sends (logs xs h) = retry_sends h"
  "controlServer (logs xs h) = controlServer h"
  "webSocketController (logs xs h) = webSocketController h"
  "webSocketServerInfo (logs xs h) = webSocketServerInfo h"
  "webSocketServerStarted (logs xs h) = webSocketServerStarted h"
  "webSocketServerStarting (logs xs h) = webSocketServerStarting h"
  "clientWatcherStartedDeviceIds (logs xs h) = clientWatcherStartedDeviceIds h"
  "clientWatcherStartingByDeviceId (logs xs h) = clientWatcherStartingByDeviceId h"
  "next_attempt (logs xs h) = next_attempt h"
  "activeControlIds (logs xs h) = activeControlIds h"
  "autoConnectControlIds (logs xs h) = autoConnectControlIds h"
  "reportControlIds (logs xs h) = reportControlIds h"
  "reportBridge (logs xs h) = reportBridge h"
  "webSocketRequesterControlIds (logs xs h) = webSocketRequesterControlIds h"
  "activeWebSocketDriverIds (logs xs h) = activeWebSocketDriverIds h"
  "idleTimer (logs xs h) = idleTimer h"
  "idleTimeoutHandler (logs xs h) = idleTimeoutHandler h"
  "shutdownHandler (logs xs h) = shutdownHandler h"
  "shutdownRequested (logs xs h) = shutdownRequested h"
  "daemonStopReason (logs xs h) = daemonStopReason h"
  by (simp_all add: logs_def)

lemma emit_logs [simp]: "emit x h = logs [x] h"
  by (simp add: emit_def logs_def)

lemma broadcast_logs [simp]: "host_broadcast ev h = logs (if controlServer h then [ToAll ev] else []) h"
  by (simp add: host_broadcast_def)

lemma sendToControl_logs [simp]:
  "host_sendToControl cid ev h = logs (if controlServer h then [ToControl cid ev] else []) h"
  by (simp add: host_sendToControl_def)

lemma fold_sendToControl_logs [simp]:
  "fold (\<lambda>cid. host_sendToControl cid ev) cids h =
     logs (if controlServer h then map (\<lambda>cid. ToControl cid ev) cids else []) h"
  by (induction cids arbitrary: h) auto

definition snapshot_calls :: "host_option \<Rightarrow> host_env \<Rightarrow> int list option \<Rightarrow> host \<Rightarrow> host_out list" where
  "snapshot_calls opt env cids h =
     (let ev = control_event ''snapshot'' (createSnapshot opt env h) in
      if controlServer h then (case cids of None \<Rightarrow> [ToAll ev] | Some cs \<Rightarrow> map (\<lambda>c. ToControl c ev) cs) else [])"

lemma sendSnapshot_logs [simp]: "sendSnapshot opt env cids h = logs (snapshot_calls opt env cids h) h"
  by (simp add: sendSnapshot_def snapshot_calls_def Let_def split: option.split)

lemma sendClientList_logs [simp]: "sendClientList h = logs (if webSocketController h then [SendClientList] else []) h"
  by (simp add: sendClientList_def)

lemma sendMessageToWeb_logs [simp]:
  "sendMessageToWeb m h = logs (if enableWebSocket h \<and> webSocketController h then [ToWeb m] else []) h"
  by (simp add: sendMessageToWeb_def)

lemma sendMessageToWebClient_logs [simp]:
  "sendMessageToWebClient w m h = logs (if enableWebSocket h \<and> webSocketController h then [ToWebClient w m] else []) h"
  by (simp add: sendMessageToWebClient_def)

lemma requesters_logs [simp]:
  "sendToWebSocketRequesters ev h =
     logs (if controlServer h then map (\<lambda>cid. ToControl cid ev) (webSocketRequesterControlIds h) else []) h"
  by (simp add: sendToWebSocketRequesters_def)

lemma fold_emit_logs: "fold (\<lambda>x. emit (f x)) xs h = logs (map f xs) h"
  by (induction xs arbitrary: h) auto

lemma close_ws_apps_logs [simp]:
  "close_ws_apps env h = logs (if webSocketController h then map CloseWsClient (map_keys (e_wsApps env)) else []) h"
  by (simp add: close_ws_apps_def getWebSocketAppClients_def fold_emit_logs del: emit_logs)

fun reject_call :: "route_error \<Rightarrow> pending_route \<Rightarrow> host_out list" where
  "reject_call e r = (if kind r = Control then (case reject r of None \<Rightarrow> [] | Some p \<Rightarrow> [Reject p e]) else [])"

lemma rejectRoutes_logs [simp]: "rejectRoutes rs e h = logs (concat (map (reject_call e) rs)) h"
  by (induction rs arbitrary: h) (auto split: option.split)

definition report_calls :: "bridge \<Rightarrow> bridge \<Rightarrow> host \<Rightarrow> host_out list" where
  "report_calls b b' h =
     (if controlServer h
      then map (\<lambda>(cid, d). ToControl cid (report_event d)) (drop (length (sent_reports b)) (sent_reports b')) else [])"

lemma with_bridge_logs [simp]:
  "with_bridge f h = logs (report_calls (reportBridge h) (f (reportBridge h)) h) (h\<lparr>reportBridge := f (reportBridge h)\<rparr>)"
proof -
  have "fold (\<lambda>(cid, d). host_sendToControl cid (report_event d)) xs g =
    logs (if controlServer g then map (\<lambda>(cid, d). ToControl cid (report_event d)) xs else []) g" for xs g
    by (induction xs arbitrary: g) auto
  then show ?thesis by (simp add: with_bridge_def report_calls_def Let_def)
qed

section \<open>The ledger of reply promises\<close>

text \<open>
  \<open>settled\<close> lists the promises a sequence of calls settles, \<open>waiting\<close> those whose route is pending.
  The ledger is all of them together; no handler but \<^verbatim>\<open>sendMessageWithReply\<close> changes it.
\<close>

fun settles :: "host_out \<Rightarrow> nat list" where
  "settles (Resolve p v) = [p]"
| "settles (Reject p e) = [p]"
| "settles _ = []"

abbreviation settled :: "host_out list \<Rightarrow> nat list" where
  "settled xs \<equiv> concat (map settles xs)"

definition promise_of :: "pending_route \<Rightarrow> nat list" where
  "promise_of r = (case resolve r of None \<Rightarrow> [] | Some p \<Rightarrow> [p])"

definition waiting_in :: "pending_route_table \<Rightarrow> nat list" where
  "waiting_in t = concat (map (promise_of \<circ> snd) (routes t))"

abbreviation waiting :: "host \<Rightarrow> nat list" where
  "waiting h \<equiv> waiting_in (pendingRoutes h)"

definition ledger :: "host \<Rightarrow> nat multiset" where
  "ledger h = mset (settled (log h)) + mset (waiting h)"

text \<open>A route has both callbacks of one promise or none, and only a control request has them.\<close>

definition route_ok :: "pending_route \<Rightarrow> bool" where
  "route_ok r \<longleftrightarrow> reject r = resolve r \<and> (kind r = Websocket \<longrightarrow> resolve r = None)"

definition routes_ok :: "pending_route_table \<Rightarrow> bool" where
  "routes_ok t \<longleftrightarrow> wf_table t \<and> (\<forall>r \<in> set (map_values (routes t)). route_ok r)"

text \<open>\<open>kept h h'\<close>: the step from \<open>h\<close> to \<open>h'\<close> keeps the routes well formed and the ledger as it is.\<close>

definition kept :: "host \<Rightarrow> host \<Rightarrow> bool" where
  "kept h h' \<longleftrightarrow> (routes_ok (pendingRoutes h) \<longrightarrow> routes_ok (pendingRoutes h') \<and> ledger h' = ledger h)"

lemma kept_refl [simp, intro]: "kept h h"
  by (simp add: kept_def)

lemma kept_trans [trans]: "kept h h' \<Longrightarrow> kept h' h'' \<Longrightarrow> kept h h''"
  by (auto simp: kept_def)

lemma kept_quiet:
  "pendingRoutes h' = pendingRoutes h \<Longrightarrow> settled (log h') = settled (log h) \<Longrightarrow> kept h h'"
  by (simp add: kept_def ledger_def)

lemma settled_map [simp]: "(\<And>x. settles (f x) = []) \<Longrightarrow> settled (map f xs) = []"
  by (induction xs) auto

lemma settled_snapshot [simp]: "settled (snapshot_calls opt env cids h) = []"
  by (auto simp: snapshot_calls_def Let_def split: option.split)

lemma settled_report [simp]: "settled (report_calls b b' h) = []"
  by (auto simp: report_calls_def)

lemma settled_reject:
  "route_ok r \<Longrightarrow> settled (reject_call e r) = promise_of r"
  by (cases "kind r") (auto simp: route_ok_def promise_of_def split: option.splits)

lemma settled_rejects:
  "\<forall>r \<in> set rs. route_ok r \<Longrightarrow> settled (concat (map (reject_call e) rs)) = concat (map promise_of rs)"
  by (induction rs) (auto simp: settled_reject simp del: reject_call.simps)

lemma waiting_keep: "waiting_in (keep P t) = concat (map (promise_of \<circ> snd) (filter P (routes t)))"
  by (simp add: waiting_in_def)

lemma mset_concat_filter:
  "mset (concat (map f (filter P xs))) + mset (concat (map f (filter (\<lambda>x. \<not> P x) xs))) = mset (concat (map f xs))"
  by (induction xs) (auto simp: ac_simps)

lemma waiting_partition:
  "mset (concat (map promise_of (filter P (map_values (routes t))))) + mset (waiting_in (keep (\<lambda>p. \<not> P (snd p)) t)) =
     mset (waiting_in t)"
  using mset_concat_filter [of "promise_of \<circ> snd" "P \<circ> snd" "routes t"]
  by (simp add: waiting_keep filter_map waiting_in_def o_def comp_assoc)

lemma routes_ok_keep [simp]: "routes_ok t \<Longrightarrow> routes_ok (keep P t)"
  by (auto simp: routes_ok_def)

lemma kept_clear:
  assumes "\<And>t. clear t = clearMatching P t"
  shows "kept h (clear_and_reject clear e h)"
  unfolding kept_def
proof
  assume ok: "routes_ok (pendingRoutes h)"
  then have wf: "wf_table (pendingRoutes h)" by (simp add: routes_ok_def)
  have "settled (concat (map (reject_call e) (filter P (map_values (routes (pendingRoutes h)))))) =
    concat (map promise_of (filter P (map_values (routes (pendingRoutes h)))))"
    using ok by (intro settled_rejects) (auto simp: routes_ok_def)
  then show "routes_ok (pendingRoutes (clear_and_reject clear e h)) \<and> ledger (clear_and_reject clear e h) = ledger h"
    using ok waiting_partition [of P "pendingRoutes h"]
    by (simp add: clear_and_reject_def assms clearMatching_keep [OF wf] ledger_def ac_simps)
qed

lemma kept_clears [simp]:
  "kept h (clear_and_reject (clearByControlId c) e h)"
  "kept h (clear_and_reject (clearByClientId c) e h)"
  "kept h (clear_and_reject clear_routes e h)"
  by (rule kept_clear, simp add: clearByControlId_def clearByClientId_def clear_routes_def)+

lemma kept_clear_web: "kept h (h\<lparr>pendingRoutes := snd (clearByWebClientId c (pendingRoutes h))\<rparr>)"
  unfolding kept_def
proof
  let ?P = "\<lambda>r. kind r = Websocket \<and> requesterId r = c"
  assume ok: "routes_ok (pendingRoutes h)"
  then have wf: "wf_table (pendingRoutes h)" by (simp add: routes_ok_def)
  have "promise_of r = []" if "r \<in> set (filter ?P (map_values (routes (pendingRoutes h))))" for r
    using that ok by (auto simp: routes_ok_def route_ok_def promise_of_def)
  then have e: "concat (map promise_of (filter ?P (map_values (routes (pendingRoutes h))))) = []"
    unfolding concat_eq_Nil_conv by (simp only: set_map) blast
  have "mset (waiting_in (keep (\<lambda>p. \<not> ?P (snd p)) (pendingRoutes h))) = mset (waiting h)"
    using waiting_partition [of ?P "pendingRoutes h"] unfolding e by simp
  then show "routes_ok (pendingRoutes (h\<lparr>pendingRoutes := snd (clearByWebClientId c (pendingRoutes h))\<rparr>)) \<and>
      ledger (h\<lparr>pendingRoutes := snd (clearByWebClientId c (pendingRoutes h))\<rparr>) = ledger h"
    using ok by (simp add: clearByWebClientId_def clearMatching_keep [OF wf] ledger_def)
qed

lemma filter_key_unique:
  "wf_map m \<Longrightarrow> map_of m k = Some v \<Longrightarrow> filter (\<lambda>p. fst p = k) m = [(k, v)]"
proof (induction m)
  case (Cons p m)
  obtain a b where p: "p = (a, b)" by (cases p)
  show ?case
  proof (cases "a = k")
    case True
    then have "filter (\<lambda>q. fst q = k) m = []" using Cons.prems(1) p by (auto simp: filter_empty_conv)
    with True Cons.prems(2) p show ?thesis by simp
  next
    case False
    with Cons p show ?thesis by simp
  qed
qed simp

lemma waiting_without:
  assumes "wf_table t" and "map_of (routes t) k = Some r"
  shows "mset (waiting_in t) = mset (promise_of r) + mset (waiting_in (keep (\<lambda>p. fst p \<noteq> k) t))"
  using mset_concat_filter [of "promise_of \<circ> snd" "\<lambda>p. fst p = k" "routes t"]
    filter_key_unique [OF wf_table_map [OF assms(1)] assms(2)]
  by (simp add: waiting_keep waiting_in_def)


lemma kept_route_timer [simp]: "kept h (route_timer_fires t h)"
  unfolding kept_def
proof
  assume ok: "routes_ok (pendingRoutes h)"
  then have wf: "wf_table (pendingRoutes h)" by (simp add: routes_ok_def)
  show "routes_ok (pendingRoutes (route_timer_fires t h)) \<and> ledger (route_timer_fires t h) = ledger h"
  proof (cases "map_of (armed (pendingRoutes h)) t")
    case None
    then show ?thesis using ok by (simp add: route_timer_fires_def timer_callback_keep [OF wf] Let_def)
  next
    case (Some dk)
    obtain due k where dk: "dk = (due, k)" by (cases dk)
    show ?thesis
    proof (cases "map_of (routes (pendingRoutes h)) k")
      case None
      then show ?thesis using ok Some dk by (simp add: route_timer_fires_def timer_callback_keep [OF wf] Let_def)
    next
      case (Some r)
      then have "route_ok r" using ok wf_table_lookup(1) [OF wf Some] by (force simp: routes_ok_def)
      then show ?thesis
        using ok Some dk \<open>map_of (armed (pendingRoutes h)) t = Some dk\<close> waiting_without [OF wf Some]
        by (cases "kind r"; cases "resolve r")
           (auto simp: route_timer_fires_def timer_callback_keep [OF wf] Let_def ledger_def route_ok_def promise_of_def)
    qed
  qed
qed

section \<open>Which handlers keep the ledger\<close>

text \<open>\<open>added ps h h'\<close>: the step keeps the routes well formed and adds nothing, or \<open>ps\<close>, to the ledger.\<close>

definition added :: "nat list \<Rightarrow> host \<Rightarrow> host \<Rightarrow> bool" where
  "added ps h h' \<longleftrightarrow>
     (routes_ok (pendingRoutes h) \<longrightarrow> routes_ok (pendingRoutes h') \<and> (ledger h' = ledger h \<or> ledger h' = ledger h + mset ps))"

lemma kept_added: "kept h h' \<Longrightarrow> added ps h h'"
  by (simp add: kept_def added_def)

lemma added_Nil: "added [] h h' \<longleftrightarrow> kept h h'"
  by (auto simp: added_def kept_def)

lemma added_quiet: "pendingRoutes h' = pendingRoutes h \<Longrightarrow> settled (log h') = settled (log h) \<Longrightarrow> added ps h h'"
  by (intro kept_added kept_quiet)

definition seed_promise :: "pending_target_seed \<Rightarrow> nat list" where
  "seed_promise s = (case seed_resolve s of None \<Rightarrow> [] | Some p \<Rightarrow> [p])"

definition seed_ok :: "pending_target_seed \<Rightarrow> bool" where
  "seed_ok s \<longleftrightarrow> seed_reject s = seed_resolve s \<and> (seed_kind s = Websocket \<longrightarrow> seed_resolve s = None)"

lemma add_route_routes:
  assumes ok: "routes_ok t" and s: "seed_ok s" and a: "add_route now (route_input s i) t = (r, t')"
  shows "routes_ok t'" and "waiting_in t' = waiting_in t @ seed_promise s" 
    and "take_route (globalMessageId r) t' = (Some r, keep (\<lambda>p. fst p \<noteq> globalMessageId r) t')"
    and "waiting_in (keep (\<lambda>p. fst p \<noteq> globalMessageId r) t') = waiting_in t"
    and "routes (keep (\<lambda>p. fst p \<noteq> globalMessageId r) t') = routes t"
proof -
  have wf: "wf_table t" using ok by (simp add: routes_ok_def)
  note w = wf_add_route [OF wf a] and d = add_route_simps [OF a]
  have r: "route_ok r" "promise_of r = seed_promise s"
    using s by (auto simp: d(1) route_ok_def seed_ok_def route_input_def promise_of_def seed_promise_def)
  show "routes_ok t'" using ok w r by (auto simp: routes_ok_def)
  show "waiting_in t' = waiting_in t @ seed_promise s" using w(2) r by (simp add: waiting_in_def)
  have "globalMessageId r = nextGlobalMessageId t" by (simp add: d(1))
  moreover have "\<forall>p \<in> set (routes t). fst p \<noteq> nextGlobalMessageId t"
    using wf_tableD(2) [OF wf] by force
  ultimately show f: "routes (keep (\<lambda>p. fst p \<noteq> globalMessageId r) t') = routes t"
    using w(2) by (simp add: filter_id_conv)
  then show "waiting_in (keep (\<lambda>p. fst p \<noteq> globalMessageId r) t') = waiting_in t" by (simp add: waiting_in_def)
  show "take_route (globalMessageId r) t' = (Some r, keep (\<lambda>p. fst p \<noteq> globalMessageId r) t')"
    using take_route_keep [OF w(1)] by (simp add: d(1,5))
qed

lemma rewriteOutbound_cases:
  obtains "rewriteOutboundMessageData now data s h = (None, data, h)" and "getRoutableCustomizedPayload data = None"
  | p i r t where "getRoutableCustomizedPayload data = Some p" and "getValidMessageId (inner p) = Some i"
      and "add_route now (route_input s i) (pendingRoutes h) = (r, t)"
      and "rewriteOutboundMessageData now data s h =
        (Some r, writeCustomizedMessage (set_message_id (globalMessageId r) p) data, h\<lparr>pendingRoutes := t\<rparr>)"
proof (cases "getRoutableCustomizedPayload data")
  case None
  then show ?thesis by (intro that(1)) (simp_all add: rewriteOutboundMessageData_def)
next
  case (Some p)
  then obtain i where i: "getValidMessageId (inner p) = Some i"
    by (auto simp: getRoutableCustomizedPayload_def split: option.splits if_splits)
  obtain r t where a: "add_route now (route_input s i) (pendingRoutes h) = (r, t)" by fastforce
  show ?thesis using Some i a by (intro that(2)) (simp_all add: rewriteOutboundMessageData_def)
qed

lemma settles_runtime_out [simp]: "settles (runtime_out ws c d) = []"
  by (simp add: runtime_out_def)

lemma added_forward:
  assumes s: "seed_ok s"
  shows "added (seed_promise s) h (snd (forward_to_runtime env ws c data s fwd h))"
proof (cases rule: rewriteOutbound_cases [of "e_now env" data s h])
  case 1
  show ?thesis
    by (rule added_quiet) (auto simp: forward_to_runtime_def 1 Let_def split: option.split)
next
  case (2 p i r t)
  show ?thesis
    unfolding added_def
  proof
    assume ok: "routes_ok (pendingRoutes h)"
    note a = add_route_routes [OF ok s 2(3)]
    show "routes_ok (pendingRoutes (snd (forward_to_runtime env ws c data s fwd h))) \<and>
      (ledger (snd (forward_to_runtime env ws c data s fwd h)) = ledger h \<or>
       ledger (snd (forward_to_runtime env ws c data s fwd h)) = ledger h + mset (seed_promise s))"
    proof (cases "e_send_ok env")
      case True
      then show ?thesis using a(1,2)
        by (auto simp: forward_to_runtime_def 2 Let_def ledger_def ac_simps split: option.split)
    next
      case False
      then show ?thesis using a
        by (auto simp: forward_to_runtime_def 2 Let_def ledger_def split: option.split)
    qed
  qed
qed

lemma added_target_driver:
  assumes "seed_ok s"
  shows "added (seed_promise s) h (sendMessageToTargetDriver env s c m v h)"
  using assms
  by (cases "seed_resolve s")
     (auto simp: sendMessageToTargetDriver_def added_def ledger_def seed_promise_def seed_ok_def
        getWebSocketAppClients_def split: option.split)

lemma added_same_routes:
  "pendingRoutes g = pendingRoutes h \<Longrightarrow> log g = log h \<Longrightarrow> added ps g h' \<longleftrightarrow> added ps h h'"
  by (simp add: added_def ledger_def)

lemma added_runtime:
  assumes s: "seed_ok s"
  shows "added (seed_promise s) h (snd (sendMessageToRuntime env c m s h))"
proof -
  have g: "added (seed_promise s) (h\<lparr>memoizedQueryTable := t\<rparr>) h' \<longleftrightarrow> added (seed_promise s) h h'" for t h'
    by (rule added_same_routes) simp_all
  have "added (seed_promise s) h (h\<lparr>memoizedQueryTable := t\<rparr>)" for t
    by (rule added_quiet) simp_all
  then show ?thesis
    using added_forward [OF s, of "h\<lparr>memoizedQueryTable := t\<rparr>" for t, unfolded g]
      added_target_driver [OF s, of "h\<lparr>memoizedQueryTable := t\<rparr>" for t, unfolded g]
      added_quiet [of h h]
    unfolding sendMessageToRuntime_def Let_def
    by (auto split: option.split prod.split memo_decision.split runtime_message.split)
qed

lemma restoreInbound_cases:
  assumes "wf_table (pendingRoutes h)"
  obtains "restoreInboundMessage v cp c h = (None, h)"
  | p gid r where "cp = Some p" and "getValidMessageId (inner p) = Some gid"
      and "map_of (routes (pendingRoutes h)) gid = Some r" and "route_clientId r = c"
      and "restoreInboundMessage v cp c h =
        (Some (r, writeCustomizedMessage (set_message_id (originalId r) p) v),
         h\<lparr>pendingRoutes := keep (\<lambda>q. fst q \<noteq> gid) (pendingRoutes h)\<rparr>)"
proof (cases "truthy v \<and> (\<exists>p gid. cp = Some p \<and> getValidMessageId (inner p) = Some gid)")
  case False
  then show ?thesis
    by (intro that(1)) (auto simp: restoreInboundMessage_def split: option.split bind_splits)
next
  case True
  then obtain p gid where p: "cp = Some p" "getValidMessageId (inner p) = Some gid" "truthy v" by blast
  show ?thesis
  proof (cases "map_of (routes (pendingRoutes h)) gid")
    case None
    then have "keep (\<lambda>q. fst q \<noteq> gid) (pendingRoutes h) = pendingRoutes h"
      by (intro keep_all assms) (auto simp: map_of_eq_None_iff)
    then show ?thesis
      using None p by (intro that(1)) (simp add: restoreInboundMessage_def get_route_def take_route_keep [OF assms])
  next
    case (Some r)
    show ?thesis
    proof (cases "route_clientId r = c")
      case True
      then show ?thesis
        using Some p by (intro that(2)) (auto simp: restoreInboundMessage_def get_route_def take_route_keep [OF assms])
    next
      case False
      then show ?thesis
        using Some p by (intro that(1)) (simp add: restoreInboundMessage_def get_route_def)
    qed
  qed
qed

lemma deliver_settles:
  "route_ok r \<Longrightarrow> settled (log (deliver_routed ws r v h)) = settled (log h) @ promise_of r"
  by (cases "resolve r"; cases "kind r") (auto simp: deliver_routed_def route_ok_def promise_of_def)

lemma deliver_pendingRoutes [simp]: "pendingRoutes (deliver_routed ws r v h) = pendingRoutes h"
  by (auto simp: deliver_routed_def split: option.split)

lemma kept_runtime_message [simp]: "kept h (handleRuntimeMessage env ws c m h)"
  unfolding kept_def
proof
  let ?v = "parseJsonMessageOrNull m"
  assume ok: "routes_ok (pendingRoutes h)"
  then have wf: "wf_table (pendingRoutes h)" by (simp add: routes_ok_def)
  show "routes_ok (pendingRoutes (handleRuntimeMessage env ws c m h)) \<and> ledger (handleRuntimeMessage env ws c m h) = ledger h"
  proof (cases rule: restoreInbound_cases [OF wf, of ?v "getCustomizedPayload ?v" c])
    case 1
    then show ?thesis using ok by (simp add: handleRuntimeMessage_def Let_def ledger_def)
  next
    case (2 p gid r)
    have r: "route_ok r" using ok wf_table_lookup(1) [OF wf 2(3)] by (force simp: routes_ok_def)
    show ?thesis
      using ok deliver_settles [OF r] waiting_without [OF wf 2(3)]
      unfolding handleRuntimeMessage_def Let_def 2(5) by (simp add: ledger_def)
  qed
qed

lemma kept_usb_message [simp]: "kept h (handleUsbClientMessage env c m h)"
  by (simp add: handleUsbClientMessage_def)

lemma kept_ws_message [simp]: "kept h (handleWebSocketAppMessage env c m h)"
  by (simp add: handleWebSocketAppMessage_def)

lemma clear_and_reject_update:
  "kept h (g\<lparr>pendingRoutes := pendingRoutes h, log := log h\<rparr>)"
  by (rule kept_quiet) simp_all

text \<open>A step after which the host differs only in what the ledger does not see.\<close>

lemma kept_quiet_left:
  "kept g h' \<Longrightarrow> pendingRoutes g = pendingRoutes h \<Longrightarrow> settled (log g) = settled (log h) \<Longrightarrow> kept h h'"
  by (simp add: kept_def ledger_def)

lemma kept_quiet_right:
  "kept h g \<Longrightarrow> pendingRoutes h' = pendingRoutes g \<Longrightarrow> settled (log h') = settled (log g) \<Longrightarrow> kept h h'"
  by (simp add: kept_def ledger_def)

lemma clear_and_reject_pendingRoutes [simp]:
  "clear_and_reject clear e h = logs (concat (map (reject_call e) (fst (clear (pendingRoutes h)))))
     (h\<lparr>pendingRoutes := snd (clear (pendingRoutes h))\<rparr>)"
  by (simp add: clear_and_reject_def split: prod.split)

lemmas kept_clears' = kept_clears [unfolded clear_and_reject_pendingRoutes]

lemma ensureClientWatcher_quiet [simp]:
  "pendingRoutes (snd (ensureClientWatcher env d h)) = pendingRoutes h"
  "log (snd (ensureClientWatcher env d h)) = log h"
  by (auto simp: ensureClientWatcher_def Let_def split: option.split)

lemma ensureAll_quiet [simp]:
  "pendingRoutes (snd (ensureAllClientWatchers env ds h)) = pendingRoutes h"
  "log (snd (ensureAllClientWatchers env ds h)) = log h"
  by (induction ds arbitrary: h) (simp_all add: case_prod_beta)

lemma kept_deviceDisconnected [simp]: "kept h (handleDeviceDisconnected opt env d h)"
  by (rule kept_quiet) (auto simp: handleDeviceDisconnected_def clearClientWatcherStartState_def)

lemma kept_clientDisconnected [simp]: "kept h (handleClientDisconnected opt env c h)"
proof (cases "attached env")
  case True
  let ?g = "logs [Trace ''app_client_disconnected''] h\<lparr>memoizedQueryTable := memo_clearClient c (memoizedQueryTable h)\<rparr>"
  have "kept h (clear_and_reject (clearByClientId c) (RuntimeGone c) ?g)"
    by (rule kept_quiet_left [OF kept_clears(2)]) simp_all
  then show ?thesis
    by (rule kept_quiet_right) (simp_all add: True handleClientDisconnected_def Let_def)
qed (simp add: handleClientDisconnected_def)

lemma kept_removals: "kept h (run_removals opt rs h)"
  by (induction opt rs h rule: run_removals.induct) (auto intro: kept_trans [rotated])

lemma kept_release: "kept h (release_loop opt rem c ms h)"
proof (induction opt rem c ms h rule: release_loop.induct)
  case (2 opt rem c key cids rest h)
  let ?g = "logs [CloseManager key] (h\<lparr>enabledManagers := AList.delete key (enabledManagers h)\<rparr>)"
  have "kept h ?g" by (rule kept_quiet) simp_all
  also have "kept ?g (run_removals opt (rem key) ?g)" by (rule kept_removals)
  finally have a: "kept h (run_removals opt (rem key) ?g)" .
  have b: "kept h (h\<lparr>enabledManagers := AList.update key (set_delete c cids) (enabledManagers h)\<rparr>)"
    by (rule kept_quiet) simp_all
  show ?case
    using 2 by (auto intro: kept_trans [OF a] kept_trans [OF b])
qed simp

lemma add_manager_quiet [simp]:
  "pendingRoutes (add_manager key option au c h) = pendingRoutes h"
  "settled (log (add_manager key option au c h)) = settled (log h)"
  by (auto simp: add_manager_def addManagerControl_def split: option.split)

lemma addPhysical_quiet [simp]:
  "pendingRoutes (addPhysicalDeviceManagers c option h) = pendingRoutes h"
  "settled (log (addPhysicalDeviceManagers c option h)) = settled (log h)"
  by (simp_all add: addPhysicalDeviceManagers_def addAndroidManager_def addHarmonyManager_def addIOSManager_def
      addDesktopManager_def addNetworkManager_def Let_def)

lemma kept_controlConnected: "kept h (handleControlConnected opt env c rep facade h)"
proof -
  have r: "kept h (register_control c rep au h)" for au h
    by (rule kept_quiet) (simp_all add: register_control_def Let_def)
  have g: "kept h (greet_control opt env c h)" for h
    by (rule kept_quiet) (simp_all add: greet_control_def Let_def clearIdleTimeout_def updateReportStatus_def)
  have s: "kept h (start_for_control c f au h)" for f au h
    by (rule kept_quiet) (simp_all add: start_for_control_def host_report_def Let_def)
  show ?thesis
    unfolding handleControlConnected_def Let_def by (rule kept_trans [OF kept_trans [OF r g] s])
qed

lemma schedule_quiet [simp]:
  "pendingRoutes (scheduleIdleTimeoutIfNeeded opt h) = pendingRoutes h"
  "log (scheduleIdleTimeoutIfNeeded opt h) = log h"
  by (simp_all add: scheduleIdleTimeoutIfNeeded_def clearIdleTimeout_def)

lemma kept_controlDisconnected: "kept h (handleControlDisconnected opt rem c h)"
proof -
  define g where "g = unregister_control c h"
  define k where "k = release_loop opt rem c (enabledManagers g) g"
  have "kept h g" by (rule kept_quiet) (simp_all add: g_def unregister_control_def Let_def updateReportStatus_def)
  also have "kept g k" unfolding k_def by (rule kept_release)
  also have "kept k (clear_and_reject (clearByControlId c) (ControlGone c) k)" by (rule kept_clears)
  finally have "kept h (clear_and_reject (clearByControlId c) (ControlGone c) k)" .
  then show ?thesis
    unfolding handleControlDisconnected_def releasePhysicalDeviceManagers_def g_def [symmetric] k_def [symmetric]
    by (rule kept_quiet_right) simp_all
qed

lemma kept_wsConnected: "kept h (handleWebSocketClientConnected opt env c type h)"
  by (rule kept_quiet) (simp_all add: handleWebSocketClientConnected_def clearIdleTimeout_def Let_def)

lemma kept_wsDisconnected: "kept h (handleWebSocketClientDisconnected opt env c type h)"
proof (cases "type = ''Driver''")
  case True
  have "kept h (h\<lparr>pendingRoutes := snd (clearByWebClientId c (pendingRoutes h))\<rparr>)" by (rule kept_clear_web)
  then show ?thesis
    by (rule kept_quiet_right) (simp_all add: True handleWebSocketClientDisconnected_def Let_def)
next
  case False
  let ?g = "h\<lparr>memoizedQueryTable := memo_clearClient c (memoizedQueryTable h)\<rparr>"
  have "kept h (clear_and_reject (clearByClientId c) (RuntimeGone c) ?g)"
    by (rule kept_quiet_left [OF kept_clears(2)]) simp_all
  then show ?thesis
    by (rule kept_quiet_right) (simp_all add: False handleWebSocketClientDisconnected_def Let_def)
qed

lemma kept_emit: "kept h (host_emit opt env ev h)"
proof -
  have t: "kept h (logs [Trace t] h)" for t by (rule kept_quiet) simp_all
  have r: "kept h (sendToWebSocketRequesters e h)" for e by (rule kept_quiet) auto
  show ?thesis
    unfolding host_emit_def
    by (cases ev) (auto intro: kept_trans [OF t kept_wsConnected] kept_trans [OF t kept_wsDisconnected]
        r simp del: requesters_logs)
qed

lemma kept_ownership: "kept h (handleLegacyOwnershipChanged opt env c h)"
proof (cases "change_status c = Unattached")
  case True
  let ?g = "(clearAllClientWatcherStartState (logs [Trace ''legacy_ownership_lost''] h))
    \<lparr>memoizedQueryTable := memo_clear (memoizedQueryTable h)\<rparr>"
  have "kept h (clear_and_reject clear_routes OwnerPreempted ?g)"
    by (rule kept_quiet_left [OF kept_clears(3)]) (simp_all add: clearAllClientWatcherStartState_def)
  then show ?thesis
    by (rule kept_quiet_right)
       (auto simp: True handleLegacyOwnershipChanged_def handleLegacyOwnershipLost_def Let_def
         clearAllClientWatcherStartState_def)
next
  case False
  show ?thesis by (rule kept_quiet) (simp_all add: False handleLegacyOwnershipChanged_def)
qed

lemma kept_stop_runtime: "kept h (stop_runtime h)"
proof -
  let ?g = "(clearAllClientWatcherStartState (logs [ClosePhysical] h))
    \<lparr>memoizedQueryTable := memo_clear (memoizedQueryTable h)\<rparr>"
  have "kept h (clear_and_reject clear_routes RouteTableReset ?g)"
    by (rule kept_quiet_left [OF kept_clears(3)]) (simp_all add: clearAllClientWatcherStartState_def)
  then show ?thesis
    by (rule kept_quiet_right)
       (simp_all add: stop_runtime_def clearRuntimeState_def Let_def clearAllClientWatcherStartState_def)
qed

lemma startWSServer_quiet:
  "pendingRoutes (snd (startWSServer opt env c h)) = pendingRoutes h"
  "settled (log (snd (startWSServer opt env c h))) = settled (log h)"
  by (simp_all add: startWSServer_def Let_def split: option.split)

fun rpc_promise :: "host_event \<Rightarrow> nat list" where
  "rpc_promise (EvRpc env p cid meth params) = (if meth = ''sendMessageWithReply'' then [p] else [])"
| "rpc_promise _ = []"

lemma added_reply: "added [p] h (snd (sendMessageWithReply env p c m t cid h))"
proof (cases "getRoutableCustomizedPayload m = None")
  case True
  have s: "seed_ok (control_seed cid c)" "seed_promise (control_seed cid c) = []"
    by (simp_all add: seed_ok_def seed_promise_def control_seed_def)
  have "kept h (snd (sendMessageToRuntime env c (MObject m) (control_seed cid c) h))"
    using added_runtime [OF s(1), of h env c "MObject m"] unfolding s(2) added_Nil .
  then show ?thesis
    using True by (auto simp: sendMessageWithReply_def split: prod.split option.split intro: kept_added)
next
  case False
  let ?s = "(control_seed cid c)\<lparr>seed_timeoutMs := t, seed_resolve := Some p, seed_reject := Some p\<rparr>"
  have s: "seed_ok ?s" "seed_promise ?s = [p]"
    by (simp_all add: seed_ok_def seed_promise_def control_seed_def)
  show ?thesis
    using added_runtime [OF s(1), of h env c "MObject m"] False unfolding s(2)
    by (auto simp: sendMessageWithReply_def)
qed

lemma kept_plain_send:
  assumes "seed_resolve s = None" "seed_reject s = None"
  shows "kept h (snd (sendMessageToRuntime env c m s h))"
proof -
  have s: "seed_ok s" "seed_promise s = []" using assms by (simp_all add: seed_ok_def seed_promise_def)
  show ?thesis using added_runtime [OF s(1), of h env c m] unfolding s(2) added_Nil .
qed

lemma kept_without_reply: "kept h (snd (sendMessageWithoutReply env web c m cid h))"
proof (cases web)
  case True
  show ?thesis by (rule kept_quiet) (simp_all add: True sendMessageWithoutReply_def Let_def)
qed (simp add: sendMessageWithoutReply_def Let_def control_seed_def kept_plain_send)

lemma kept_driver_message: "kept h (snd (handleWebSocketDriverMessage env w c m h))"
  by (simp add: handleWebSocketDriverMessage_def kept_plain_send)

lemma rpc_of_host [simp]: "snd (rpc_of r ok) = snd r"
  by (auto simp: rpc_of_def split: prod.split option.split)


lemma rpc_host_cases:
  "snd (case r of (WatcherReady, h1) \<Rightarrow> (a, h1) | (WatcherThrows, h1) \<Rightarrow> (b, h1) | (WatcherAwaits x, h1) \<Rightarrow> (c x, h1)) = snd r"
  "snd (case q of (WsInfo i, h1) \<Rightarrow> (d i, h1) | (WsThrows e, h1) \<Rightarrow> (f e, h1) | (WsAwaits, h1) \<Rightarrow> (g, h1)) = snd q"
  by (auto split: prod.split watcher_result.split ws_start.split)

lemma kept_rpc:
  assumes "meth \<noteq> ''sendMessageWithReply''"
  shows "kept h (snd (handleControlRpc opt env p cid meth params h))"
proof -
  have w: "kept h (snd (ensureClientWatcher env d h))" for d by (rule kept_quiet) simp_all
  have n: "kept h (addNetworkManager cid params True h)" by (rule kept_quiet) (simp_all add: addNetworkManager_def)
  have s: "kept h (stopWatchClient env d h)" "kept h (disconnectDevice env d h)" for d
    by (rule kept_quiet; simp add: stopWatchClient_def disconnectDevice_def clearClientWatcherStartState_def Let_def)+
  have d: "kept h (snd (requestDaemonShutdown r h))" for r
    by (rule kept_quiet) (simp_all add: requestDaemonShutdown_def clearIdleTimeout_def Let_def)
  have q: "kept h (snd (startWSServer opt env cid h))" by (rule kept_quiet) (simp_all add: startWSServer_quiet)
  have o: "kept h (snd (on_client v (\<lambda>c. sendMessageWithoutReply env web c m cid) h))" for v web m
    by (auto simp: on_client_def kept_without_reply split: option.split)
  have c: "kept h (closeClient env x h)" for x by (rule kept_quiet) (simp_all add: closeClient_def)
  have e: "kept h (logs [ConnectDevices] h)" by (rule kept_quiet) simp_all
  show ?thesis
    using assms unfolding handleControlRpc_def Let_def
    by (simp add: rpc_host_cases w n s d q o c e split: option.split)
qed

lemma added_rpc: "added (rpc_promise (EvRpc env p cid meth params)) h (snd (handleControlRpc opt env p cid meth params h))"
proof (cases "meth = ''sendMessageWithReply''")
  case True
  then show ?thesis
    using added_reply by (auto simp: handleControlRpc_def on_client_def added_def split: option.split)
qed (use kept_rpc in \<open>simp add: added_Nil\<close>)

lemma added_step: "added (rpc_promise ev) h (host_step opt ev h)"
proof (cases "\<exists>env p cid meth params. ev = EvRpc env p cid meth params")
  case True
  then show ?thesis using added_rpc by auto
next
  case False
  have m: "kept h (retry_timer_fires env t h)" for env t
    by (rule kept_quiet) (auto simp: retry_timer_fires_def Let_def split: option.split)
  have "kept h (host_step opt ev h)"
    using False
    by (cases ev)
       (auto simp: kept_controlConnected kept_controlDisconnected kept_emit kept_ownership kept_stop_runtime kept_driver_message m
         intro!: kept_quiet simp: handleDeviceConnected_def handleClientConnected_def handleConnectorError_def
         host_report_def idle_timer_fires_def isInUse_def watcher_runs_def watcher_settled_def forceDisableAllClients_def
         publishClientSnapshot_def clearAllClientWatcherStartState_def startWatchAllClients_def ws_controller_created_def
         ws_start_settled_def ws_start_resumes_def setIdleTimeoutHandler_def setShutdownHandler_def host_start_def
         start_listening_def start_finished_def stop_begin_def stop_detach_def stop_server_def clearIdleTimeout_def Let_def
         split: option.split)
  then show ?thesis by (rule kept_added)
qed

section \<open>Every reply promise is settled once\<close>

lemma ledger_run:
  assumes "routes_ok (pendingRoutes h)"
  shows "routes_ok (pendingRoutes (host_run opt evs h)) \<and> ledger h \<subseteq># ledger (host_run opt evs h) \<and>
    ledger (host_run opt evs h) \<subseteq># ledger h + mset (concat (map rpc_promise evs))"
  using assms
proof (induction evs arbitrary: h)
  case (Cons ev evs)
  let ?h = "host_step opt ev h"
  have a: "routes_ok (pendingRoutes ?h)" "ledger h \<subseteq># ledger ?h" "ledger ?h \<subseteq># ledger h + mset (rpc_promise ev)"
    using added_step [of ev h opt] Cons.prems by (auto simp: added_def)
  note b = Cons.IH [OF a(1)]
  have "ledger h \<subseteq># ledger (host_run opt evs ?h)" using a(2) b subset_mset.order_trans by blast
  moreover have "ledger (host_run opt evs ?h) \<subseteq># ledger h + mset (concat (map rpc_promise (ev # evs)))"
  proof -
    have "ledger (host_run opt evs ?h) \<subseteq># ledger ?h + mset (concat (map rpc_promise evs))" using b by blast
    also have "\<dots> \<subseteq># (ledger h + mset (rpc_promise ev)) + mset (concat (map rpc_promise evs))"
      using a(3) by (rule subset_mset.add_right_mono)
    finally show ?thesis by (simp add: ac_simps)
  qed
  ultimately show ?case using b by simp
qed simp

lemma new_host_ledger [simp]: "routes_ok (pendingRoutes (new_host opt))" "ledger (new_host opt) = {#}"
  by (simp_all add: new_host_def routes_ok_def ledger_def waiting_in_def new_PendingRouteTable_def wf_table_def timers_of_def)

lemma waiting_armed:
  assumes ok: "routes_ok t" and p: "p \<in> set (waiting_in t)"
  shows "\<exists>gid r due. map_of (routes t) gid = Some r \<and> resolve r = Some p \<and> reject r = Some p \<and>
    map_of (armed t) (timer r) = Some (due, gid)"
proof -
  have wf: "wf_table t" using ok by (simp add: routes_ok_def)
  from p obtain gid r where r: "(gid, r) \<in> set (routes t)" "resolve r = Some p"
    by (auto simp: waiting_in_def promise_of_def split: option.splits)
  then have "reject r = Some p" using ok by (force simp: routes_ok_def route_ok_def)
  moreover have "map_of (routes t) gid = Some r" using r(1) wf_table_map [OF wf] by (simp add: map_of_wf_iff)
  moreover have "\<exists>due. map_of (armed t) (timer r) = Some (due, gid)"
  proof -
    have "distinct (map_keys (armed t))"
      using wf_tableD(3) [OF wf] unfolding wf_tableD(4) [OF wf] timers_of_def by (simp add: o_def case_prod_beta)
    moreover have "\<exists>due. (timer r, (due, gid)) \<in> set (armed t)"
      using r(1) unfolding wf_tableD(4) [OF wf] timers_of_def by force
    ultimately show ?thesis by auto
  qed
  ultimately show ?thesis using r(2) by blast
qed

lemma distinct_submset: "mset xs \<subseteq># mset ys \<Longrightarrow> distinct ys \<Longrightarrow> distinct xs"
proof -
  assume sub: "mset xs \<subseteq># mset ys" and d: "distinct ys"
  have "count (mset xs) a = (if a \<in> set xs then 1 else 0)" for a
  proof -
    have "count (mset ys) a \<le> 1" using d unfolding distinct_count_atmost_1 by auto
    then have "count (mset xs) a \<le> 1" using mset_subset_eq_count [OF sub, of a] by (rule order_trans [rotated])
    then show ?thesis using count_mset_0_iff [of xs a] by (cases "count (mset xs) a") auto
  qed
  then show "distinct xs" by (simp add: distinct_count_atmost_1)
qed


section \<open>Requests and their replies\<close>

lemma put_container_type:
  "is_obj data \<Longrightarrow> is_obj (jget data ''data'') \<Longrightarrow>
     jget (jget (put_container data c) ''data'') ''type'' = jget (jget data ''data'') ''type'' \<and>
     jget (put_container data c) ''event'' = jget data ''event''"
  by (simp add: put_container_def)

lemma set_runtime_client_id_type [simp]:
  "jget (jget (set_runtime_client_id i data) ''data'') ''type'' = jget (jget data ''data'') ''type''"
  "getCustomizedType (set_runtime_client_id i data) = getCustomizedType data"
proof -
  have "jget (jget (set_runtime_client_id i data) ''data'') ''type'' = jget (jget data ''data'') ''type'' \<and>
    jget (set_runtime_client_id i data) ''event'' = jget data ''event''"
  proof (cases "truthy (jget (jget (jget data ''data'') ''data'') ''client_id'')")
    case True
    then have "is_obj (jget (jget data ''data'') ''data'')" by (rule jget_truthy_is_obj)
    note b = jget_obj_own [OF this]
    note c = jget_obj_own [OF b [THEN conjunct1]]
    show ?thesis
      using True put_container_type [OF c [THEN conjunct1] b [THEN conjunct1]] unfolding set_runtime_client_id_def by simp
  qed (simp add: set_runtime_client_id_def)
  then show "jget (jget (set_runtime_client_id i data) ''data'') ''type'' = jget (jget data ''data'') ''type''"
    "getCustomizedType (set_runtime_client_id i data) = getCustomizedType data"
    by (simp_all add: getCustomizedType_def)
qed

lemma set_runtime_client_id_payload:
  assumes "getRoutableCustomizedPayload data = Some p"
  shows "\<exists>p'. getRoutableCustomizedPayload (set_runtime_client_id i data) = Some p' \<and> inner p' = inner p \<and>
    messageWasString p' = messageWasString p"
proof -
  have p: "getCustomizedPayload data = Some p"
    and idp: "getValidMessageId (inner p) \<noteq> None"
    using assms by (auto simp: getRoutableCustomizedPayload_def split: option.splits if_splits)
  note sh = payload_shape [OF p]
  let ?c = "jput (container p) ''client_id'' (int_num i)"
  have "getCustomizedPayload (put_container data ?c) = Some (p\<lparr>container := ?c\<rparr>)"
    using p sh(1-5) put_container_get [OF sh(5,4)]
    unfolding getCustomizedPayload_def by (auto simp: Let_def split: if_splits)
  then show ?thesis
    using p idp sh(1) by (auto simp: set_runtime_client_id_def getRoutableCustomizedPayload_def)
qed

lemma set_runtime_client_id_wf: "wf_json data \<Longrightarrow> wf_json (set_runtime_client_id i data)"
proof (cases "truthy (jget (jget (jget data ''data'') ''data'') ''client_id'')")
  case True
  assume wf: "wf_json data"
  have a: "is_obj (jget (jget data ''data'') ''data'')" using True by (rule jget_truthy_is_obj)
  note b = jget_obj_own [OF a] and c = jget_obj_own [OF jget_obj_own [OF a, THEN conjunct1]]
  have "wf_json (jget data ''data'')" using wf c by (intro wf_json_jget) auto
  moreover from this have "wf_json (jget (jget data ''data'') ''data'')" by (rule wf_json_jget) (use b in blast)
  ultimately show ?thesis
    using wf wf_json_int [of i] unfolding set_runtime_client_id_def put_container_def
    by (simp add: wf_json_jput del: wf_json.simps)
qed (simp add: set_runtime_client_id_def)

lemma runtime_message_routed:
  assumes wf: "wf_table (pendingRoutes h)" and r: "get_route gid (pendingRoutes h) = Some r"
    and v: "json_parse s = Some v" and q: "getCustomizedPayload v = Some q" and g: "getValidMessageId (inner q) = Some gid"
  shows "handleRuntimeMessage env ws c s h =
    (if route_clientId r = c
     then deliver_routed ws r (writeCustomizedMessage (set_message_id (originalId r) q) v)
            (h\<lparr>pendingRoutes := keep (\<lambda>p. fst p \<noteq> gid) (pendingRoutes h)\<rparr>)
     else h)"
proof -
  have p: "parseJsonMessageOrNull s = v" using v by (simp add: parseJsonMessageOrNull_def)
  have t: "truthy v" using payload_shape(5) [OF q] by simp
  show ?thesis
    unfolding handleRuntimeMessage_def Let_def p q
    using r g t by (simp add: restoreInboundMessage_def get_route_def take_route_keep [OF wf])
qed

lemma runtime_message_unknown:
  assumes wf: "wf_table (pendingRoutes h)" and r: "get_route gid (pendingRoutes h) = None"
    and v: "json_parse s = Some v" and q: "getCustomizedPayload v = Some q" and g: "getValidMessageId (inner q) = Some gid"
  shows "handleRuntimeMessage env ws c s h = h"
proof -
  have p: "parseJsonMessageOrNull s = v" using v by (simp add: parseJsonMessageOrNull_def)
  have t: "truthy v" using payload_shape(5) [OF q] by simp
  have "keep (\<lambda>p. fst p \<noteq> gid) (pendingRoutes h) = pendingRoutes h"
    using r by (intro keep_all wf) (auto simp: get_route_def map_of_eq_None_iff)
  then show ?thesis
    unfolding handleRuntimeMessage_def Let_def p q
    using r g t by (simp add: restoreInboundMessage_def get_route_def take_route_keep [OF wf])
qed

text \<open>
  (C22) Which replies are accepted.  A message of a runtime that carries a message id is delivered only if
  the id is that of a pending route to this very runtime; otherwise nothing at all happens, and
  in particular the route of another runtime is not consumed.  A delivered message takes the route out
  of the table and goes to the requester with its original id and otherwise as the runtime sent it.
\<close>

theorem reply_accepted_iff:
  assumes wf: "wf_table (pendingRoutes h)"
    and v: "json_parse s = Some v" and q: "getCustomizedPayload v = Some q" and g: "getValidMessageId (inner q) = Some gid"
    and safe: "\<forall>r. get_route gid (pendingRoutes h) = Some r \<longrightarrow> \<bar>originalId r\<bar> \<le> max_safe_integer"
  shows "case get_route gid (pendingRoutes h) of
      None \<Rightarrow> handleRuntimeMessage env ws c s h = h
    | Some r \<Rightarrow>
        if route_clientId r \<noteq> c then handleRuntimeMessage env ws c s h = h
        else get_route gid (pendingRoutes (handleRuntimeMessage env ws c s h)) = None \<and>
          (\<exists>v' q'. getCustomizedPayload v' = Some q' \<and> getValidMessageId (inner q') = Some (originalId r) \<and>
             (\<forall>k. k \<noteq> ''id'' \<longrightarrow> jget (inner q') k = jget (inner q) k) \<and>
             log (handleRuntimeMessage env ws c s h) = log h @
               (case (kind r, resolve r) of
                  (Control, Some p) \<Rightarrow> [Resolve p (normalizeRawResponse v' c)]
                | (Control, None) \<Rightarrow>
                    (if controlServer h then [ToControl (requesterId r) (client_message (runtime_source ws) c (show_js v'))] else [])
                | (Websocket, _) \<Rightarrow>
                    (if enableWebSocket h \<and> webSocketController h
                     then [ToWebClient (requesterId r) (show_js (rewriteRuntimeClientIdData v' c))] else [])))"
proof (cases "get_route gid (pendingRoutes h)")
  case None
  then show ?thesis using runtime_message_unknown [OF wf _ v q g] by simp
next
  case (Some r)
  note m = runtime_message_routed [OF wf Some v q g, of env ws c]
  let ?v = "writeCustomizedMessage (set_message_id (originalId r) q) v"
  have rt: "getRoutableCustomizedPayload v = Some q" using q g by (simp add: getRoutableCustomizedPayload_def)
  obtain q' where q': "getCustomizedPayload ?v = Some q'" "getValidMessageId (inner q') = Some (originalId r)"
    "\<forall>k. k \<noteq> ''id'' \<longrightarrow> jget (inner q') k = jget (inner q) k"
    using set_id_payload [OF json_parse_wf [OF v] rt, of "originalId r"] safe Some by blast
  have "map_of (filter (\<lambda>p. fst p \<noteq> gid) (routes (pendingRoutes h))) gid = None"
    by (auto simp: map_of_eq_None_iff)
  moreover have "log (deliver_routed ws r ?v k) = log k @
      (case (kind r, resolve r) of
         (Control, Some p) \<Rightarrow> [Resolve p (normalizeRawResponse ?v (route_clientId r))]
       | (Control, None) \<Rightarrow>
           (if controlServer k then [ToControl (requesterId r) (client_message (runtime_source ws) (route_clientId r) (show_js ?v))] else [])
       | (Websocket, _) \<Rightarrow>
           (if enableWebSocket k \<and> webSocketController k
            then [ToWebClient (requesterId r) (show_js (rewriteRuntimeClientIdData ?v (route_clientId r)))] else []))" for k
    by (cases "kind r"; cases "resolve r") (simp_all add: deliver_routed_def)
  ultimately show ?thesis
    using Some q' m by (auto simp: get_route_def)
qed

definition ws_target :: "host_env \<Rightarrow> host \<Rightarrow> int \<Rightarrow> bool" where
  "ws_target env h c = (case getWebSocketAppClients env h of None \<Rightarrow> False | Some a \<Rightarrow> map_has a c)"

lemma sendMessageToRuntime_plain:
  assumes "ws_target env h c \<or> map_has (e_usbClients env) c" and "wf_json m" and "\<not> is_usb_handshake m"
    and "notification_of (memoizedQueryTable h) (getCustomizedType m) = None"
  shows "sendMessageToRuntime env c (MObject m) s h =
    forward_to_runtime env (ws_target env h c) c
      (set_runtime_client_id (if ws_target env h c then c else -1) m) s None h"
  using assms clone_wf [OF assms(2)]
  by (auto simp: sendMessageToRuntime_def ws_target_def [symmetric] memo_query_def Let_def)

text \<open>
  (C23) A request with reply, end to end.  Sending a routable message that is not memoized to a known
  runtime makes exactly one call, the message to that runtime, in which the inner id is replaced by the
  next global id and nothing else of the inner message changes.  The new route belongs to the requester
  and the runtime.  A reply of that runtime with the global id then resolves the promise of the call
  with the reply in which the id is the requester's own again.
\<close>

theorem request_with_reply:
  assumes ok: "routes_ok (pendingRoutes h)" and client: "ws_target env h c \<or> map_has (e_usbClients env) c"
    and m: "wf_json m" "\<not> is_usb_handshake m" "notification_of (memoizedQueryTable h) (getCustomizedType m) = None"
    and p: "getRoutableCustomizedPayload m = Some p" "getValidMessageId (inner p) = Some i"
    and send: "e_send_ok env" and g: "nextGlobalMessageId (pendingRoutes h) \<le> max_safe_integer"
  defines "gid \<equiv> nextGlobalMessageId (pendingRoutes h)"
  shows "\<exists>h' d q. sendMessageWithReply env pr c m tmo cid h = (None, h') \<and>
     log h' = log h @ [runtime_out (ws_target env h c) c d] \<and>
     getCustomizedPayload d = Some q \<and> getValidMessageId (inner q) = Some gid \<and>
     (\<forall>k. k \<noteq> ''id'' \<longrightarrow> jget (inner q) k = jget (inner p) k) \<and>
     (\<forall>k. k \<noteq> gid \<longrightarrow> get_route k (pendingRoutes h') = get_route k (pendingRoutes h)) \<and>
     (\<forall>env' ws s v q'. json_parse s = Some v \<and> getCustomizedPayload v = Some q' \<and> getValidMessageId (inner q') = Some gid \<longrightarrow>
        log (handleRuntimeMessage env' ws c s h') =
          log h' @ [Resolve pr (normalizeRawResponse (writeCustomizedMessage (set_message_id i q') v) c)])"
proof -
  let ?s = "(control_seed cid c)\<lparr>seed_timeoutMs := tmo, seed_resolve := Some pr, seed_reject := Some pr\<rparr>"
  let ?ws = "ws_target env h c" and ?m = "set_runtime_client_id (if ws_target env h c then c else -1) m"
  have s: "seed_ok ?s" by (simp add: seed_ok_def control_seed_def)
  obtain p' where p': "getRoutableCustomizedPayload ?m = Some p'" "inner p' = inner p"
    using set_runtime_client_id_payload [OF p(1)] by blast
  obtain r t where a: "add_route (e_now env) (route_input ?s i) (pendingRoutes h) = (r, t)" by fastforce
  note ar = add_route_routes [OF ok s a] and d = add_route_simps [OF a]
  have wf: "wf_table (pendingRoutes h)" "wf_table t" using ok ar(1) by (simp_all add: routes_ok_def)
  have gr: "globalMessageId r = gid" and pos: "1 \<le> gid" using d(1) wf_tableD(5) [OF wf(1)] by (simp_all add: gid_def)
  have safe: "\<bar>gid\<bar> \<le> max_safe_integer" using g pos by (simp add: gid_def)
  let ?d = "writeCustomizedMessage (set_message_id gid p') ?m" and ?h = "h\<lparr>pendingRoutes := t\<rparr>"
  obtain q where q: "getCustomizedPayload ?d = Some q" "getValidMessageId (inner q) = Some gid"
    "\<forall>k. k \<noteq> ''id'' \<longrightarrow> jget (inner q) k = jget (inner p') k"
    using set_id_payload [OF set_runtime_client_id_wf [OF m(1)] p'(1) safe] by blast
  have "rewriteOutboundMessageData (e_now env) ?m ?s h = (Some r, ?d, ?h)"
    using p' p(2) a gr by (simp add: rewriteOutboundMessageData_def)
  then have "sendMessageWithReply env pr c m tmo cid h = (None, logs [runtime_out ?ws c ?d] ?h)"
    using send p(1) sendMessageToRuntime_plain [OF client m]
    by (simp add: sendMessageWithReply_def forward_to_runtime_def Let_def)
  moreover have "get_route gid t = Some r" "route_clientId r = c" "kind r = Control" "resolve r = Some pr" "originalId r = i"
    using d(1,5) by (simp_all add: get_route_def gid_def route_input_def control_seed_def)
  then have "log (handleRuntimeMessage env' ws c x (logs xs ?h)) =
      log (logs xs ?h) @ [Resolve pr (normalizeRawResponse (writeCustomizedMessage (set_message_id i q') v) c)]"
    if "json_parse x = Some v" "getCustomizedPayload v = Some q'" "getValidMessageId (inner q') = Some gid" for env' ws x v q' xs
    using runtime_message_routed [of "logs xs ?h" gid r x v q' env' ws c] that wf(2) by (simp add: deliver_routed_def)
  moreover have "get_route k t = get_route k (pendingRoutes h)" if "k \<noteq> gid" for k
    using that d(5) by (simp add: get_route_def gid_def)
  ultimately show ?thesis using q p'(2) by (intro exI [of _ "logs [runtime_out ?ws c ?d] ?h"] exI [of _ ?d] exI [of _ q]) auto
qed


section \<open>Memoized requests with reply\<close>

lemma memo_query_type: "getCustomizedType m = getCustomizedType m' \<Longrightarrow> memo_query now c m t = memo_query now c m' t"
  by (simp add: memo_query_def)

text \<open>
  (C25) A defect.  When a request with reply is coalesced with an equivalent query that is already pending,
  the host answers that it will reply, but it keeps no route for the promise: whatever happens
  afterwards, the promise is never settled, so the connector's call hangs.
\<close>

theorem coalesced_reply_never_settles:
  assumes ok: "routes_ok (pendingRoutes h)" and client: "ws_target env h c \<or> map_has (e_usbClients env) c"
    and m: "wf_json m" "\<not> is_usb_handshake m" "getRoutableCustomizedPayload m \<noteq> None"
    and pending: "fst (memo_query (e_now env) c m (memoizedQueryTable h)) = Pending"
    and params: "jget params ''clientId'' = int_num c" "jget params ''message'' = m"
    and fresh: "p \<notin> set (settled (log h) @ waiting h)" and later: "p \<notin> set (concat (map rpc_promise evs))"
  shows "fst (handleControlRpc opt env p cid ''sendMessageWithReply'' params h) = RpcAwaits (WaitReply p) \<and>
    p \<notin> set (settled (log (host_run opt evs (snd (handleControlRpc opt env p cid ''sendMessageWithReply'' params h)))))"
proof -
  let ?s = "(control_seed cid c)\<lparr>seed_timeoutMs := js_floor (jget params ''timeout''), seed_resolve := Some p, seed_reject := Some p\<rparr>"
  obtain t where q: "memo_query (e_now env) c (set_runtime_client_id i m) (memoizedQueryTable h) = (Pending, t)" for i
    using pending memo_query_type [of "set_runtime_client_id i m" m for i] by (metis prod.collapse set_runtime_client_id_type(2))
  have "sendMessageToRuntime env c (MObject m) ?s h = (None, h\<lparr>memoizedQueryTable := t\<rparr>)"
    using client m clone_wf [OF m(1)] q
    by (auto simp: sendMessageToRuntime_def ws_target_def [symmetric] Let_def)
  then have r: "handleControlRpc opt env p cid ''sendMessageWithReply'' params h =
      (RpcAwaits (WaitReply p), h\<lparr>memoizedQueryTable := t\<rparr>)"
    using m(3) by (auto simp: handleControlRpc_def on_client_def params sendMessageWithReply_def rpc_of_def)
  let ?g = "h\<lparr>memoizedQueryTable := t\<rparr>"
  have "ledger (host_run opt evs ?g) \<subseteq># ledger ?g + mset (concat (map rpc_promise evs))"
    using ledger_run [of ?g opt evs] ok by simp
  then have "set_mset (ledger (host_run opt evs ?g)) \<subseteq> set (settled (log h) @ waiting h) \<union> set (concat (map rpc_promise evs))"
    using set_mset_mono by (fastforce simp: ledger_def)
  then have "p \<notin> set_mset (ledger (host_run opt evs ?g))" using fresh later by blast
  then show ?thesis unfolding r by (simp add: ledger_def)
qed

subsection \<open>Witnesses\<close>

definition sample_host_option :: host_option where
  "sample_host_option = \<lparr>ho_server = sample_server_option, multiplexerDaemonIdleTimeout = 1000,
     ho_enableWebSocket = None, ho_memoizedNotificationTtlMs = None\<rparr>"

definition sample_env :: host_env where
  "sample_env = \<lparr>e_now = 10, e_pid = 9, e_devices = [], e_usbClients = [(3, Obj [])], e_wsApps = [], e_wsWebs = [],
     e_ownership = Attached, e_send_ok = True\<rparr>"

definition sample_list_session :: js where
  "sample_list_session = Obj [(''event'', Str ''Customized''), (''data'', Obj [(''type'', Str ''ListSession''),
     (''data'', Obj [(''client_id'', int_num 3), (''message'', Obj [(''id'', int_num 7)])]), (''sender'', int_num 1)])]"

lemma sample_routable:
  "getRoutableCustomizedPayload sample_request =
     Some \<lparr>container = Obj [(''client_id'', int_num 3), (''message'', Obj [(''id'', int_num 7)])],
          inner = Obj [(''id'', int_num 7)], messageWasString = False\<rparr>"
  "getRoutableCustomizedPayload sample_list_session =
     Some \<lparr>container = Obj [(''client_id'', int_num 3), (''message'', Obj [(''id'', int_num 7)])],
          inner = Obj [(''id'', int_num 7)], messageWasString = False\<rparr>"
  by (simp_all add: sample_request_def sample_list_session_def getRoutableCustomizedPayload_def getCustomizedPayload_def
      getValidMessageId_def Let_def)

lemma sample_wf: "wf_json sample_request" "wf_json sample_list_session"
  "\<not> is_usb_handshake sample_request" "\<not> is_usb_handshake sample_list_session"
  by (simp_all add: sample_request_def sample_list_session_def is_usb_handshake_def)

lemma sample_client: "map_has (e_usbClients sample_env) 3"
  by (simp add: sample_env_def)

lemma sample_routes_ok: "routes_ok (pendingRoutes (new_host sample_host_option))"
  by simp

definition sample_pending_host :: host where
  "sample_pending_host = (new_host sample_host_option)\<lparr>memoizedQueryTable :=
     snd (memo_query 10 3 sample_list_session (new_MemoizedQueryTable None None))\<rparr>"

theorem coalesced_reply_never_settles_witness:
  "5 \<notin> set (settled (log (host_run sample_host_option [EvIdleTimer, EvRouteTimer 0]
     (snd (handleControlRpc sample_host_option sample_env 5 1 ''sendMessageWithReply''
            (Obj [(''clientId'', int_num 3), (''message'', sample_list_session)]) sample_pending_host)))))"
proof -
  have "fst (memo_query (e_now sample_env) 3 sample_list_session (memoizedQueryTable sample_pending_host)) = Pending"
    by (simp add: sample_env_def sample_pending_host_def memo_query_def sample_list_session_def getCustomizedType_def
        new_MemoizedQueryTable_def notification_of_def DEFAULT_QUERY_DEFINITIONS_def getFreshNotification_def lookup2_def
        isPending_def markPending_def DEFAULT_MEMOIZED_QUERY_TTL_MS_def Let_def)
  moreover have "routes_ok (pendingRoutes sample_pending_host)" "5 \<notin> set (settled (log sample_pending_host) @ waiting sample_pending_host)"
    using sample_routes_ok by (simp_all add: sample_pending_host_def new_host_def waiting_in_def new_PendingRouteTable_def)
  ultimately show ?thesis
    using coalesced_reply_never_settles [of sample_pending_host sample_env 3 sample_list_session
        "Obj [(''clientId'', int_num 3), (''message'', sample_list_session)]" 5 "[EvIdleTimer, EvRouteTimer 0]"
        sample_host_option 1] sample_client sample_wf sample_routable(2) by (simp del: host_step.simps fold.simps)
qed


theorem request_with_reply_witness:
  "\<exists>h' d. sendMessageWithReply sample_env 0 3 sample_request None 1 (new_host sample_host_option) = (None, h') \<and>
     log h' = log (new_host sample_host_option) @ [runtime_out (ws_target sample_env (new_host sample_host_option) 3) 3 d]"
proof -
  have "notification_of (memoizedQueryTable (new_host sample_host_option)) (getCustomizedType sample_request) = None"
    by (simp add: new_host_def notification_of_def sample_request_def getCustomizedType_def new_MemoizedQueryTable_def
        DEFAULT_QUERY_DEFINITIONS_def)
  moreover have "nextGlobalMessageId (pendingRoutes (new_host sample_host_option)) \<le> max_safe_integer"
    by (simp add: new_host_def new_PendingRouteTable_def)
  moreover have "e_send_ok sample_env" by (simp add: sample_env_def)
  ultimately show ?thesis
    using request_with_reply [OF sample_routes_ok disjI2 [OF sample_client] sample_wf(1,3) _ sample_routable(1), of 7 0 None 1]
    by (auto simp: getValidMessageId_def)
qed

lemma sample_payload:
  "getCustomizedPayload sample_request =
     Some \<lparr>container = Obj [(''client_id'', int_num 3), (''message'', Obj [(''id'', int_num 7)])],
          inner = Obj [(''id'', int_num 7)], messageWasString = False\<rparr>"
  by (simp add: sample_request_def getCustomizedPayload_def Let_def)

theorem reply_accepted_iff_witness:
  "handleRuntimeMessage sample_env False 3 (show_js sample_request) (new_host sample_host_option) = new_host sample_host_option"
proof -
  have n: "get_route 7 (pendingRoutes (new_host sample_host_option)) = None"
    by (simp add: new_host_def get_route_def new_PendingRouteTable_def)
  show ?thesis
    using reply_accepted_iff [of "new_host sample_host_option" "show_js sample_request" sample_request, OF _ _ sample_payload, of 7]
      json_roundtrip [OF sample_wf(1)] sample_routes_ok n
    by (simp add: routes_ok_def getValidMessageId_def)
qed


end
