(* ===== verification/Host_Lifecycle.thy ===== *)
theory Host_Lifecycle
  imports Host_Routing
begin

text \<open>
  When the daemon stops itself and when it opens and closes its device managers
  (\<open>MultiplexerDaemonHost.ts\<close>).

  \<^item> The interface \<open>host_view\<close>: a projection of the host that the logging of outgoing calls and the
    traffic of messages leave alone.  Its lemmas, one per handler, are proved once.  It is interpreted
    on the part of the host that the idle timer reads (\<open>idle\<close>) and on the enabled device managers
    (\<open>managers\<close>).
  \<^item> The idle timer: \<open>idle_safe\<close> is kept by every event, so the shutdown handler only ever runs for a
    daemon that nobody uses; and a daemon that nobody uses has its timer armed.
  \<^item> The device managers: each is opened once however many controls ask for it, stays open while one of
    them is left, and is closed with the last one.
\<close>

section \<open>Views of the host that the message handlers leave alone\<close>

text \<open>
  The contract of a view: it does not depend on the fields that message handlers, reports and the WebSocket
  server change, nor on calls other than those it \<open>sees\<close>, which are among the calls about the daemon's
  lifetime and its device managers.
\<close>

fun life_call :: "host_out \<Rightarrow> bool" where
  "life_call RunIdleHandler = True"
| "life_call (AddManager k v b) = True"
| "life_call (CloseManager k) = True"
| "life_call _ = False"

lemma life_snapshot [simp]: "filter life_call (snapshot_calls opt env cids h) = []"
  by (auto simp: snapshot_calls_def Let_def filter_empty_conv split: option.split)

lemma life_report [simp]: "filter life_call (report_calls b b' h) = []"
  by (auto simp: report_calls_def filter_empty_conv)

lemma life_reject [simp]: "filter life_call (concat (map (reject_call e) rs)) = []"
proof (induction rs)
  case (Cons r rs)
  have "filter life_call (reject_call e r) = []" by (cases "kind r"; cases "reject r") simp_all
  with Cons show ?case by (simp del: reject_call.simps)
qed simp

lemma life_runtime_out [simp]: "life_call (runtime_out ws c d) = False"
  by (simp add: runtime_out_def)

lemma life_map [simp]:
  "filter life_call (map (\<lambda>c. ToControl c ev) xs) = []" "filter life_call (map CloseWsClient xs) = []"
  by (auto simp: filter_empty_conv)

declare clear_and_reject_pendingRoutes [simp del]

locale host_view =
  fixes view :: "host \<Rightarrow> 'v" and sees :: "host_out \<Rightarrow> bool"
  assumes view_logs: "filter sees xs = [] \<Longrightarrow> view (logs xs h) = view h"
    and sees_life: "sees x \<Longrightarrow> life_call x"
    and updates [simp]:
      "view (h\<lparr>pendingRoutes := t\<rparr>) = view h"
      "view (h\<lparr>memoizedQueryTable := mt\<rparr>) = view h"
      "view (h\<lparr>retry_sends := r\<rparr>) = view h"
      "view (h\<lparr>reportBridge := b\<rparr>) = view h"
      "view (h\<lparr>webSocketRequesterControlIds := ws\<rparr>) = view h"
      "view (h\<lparr>reportControlIds := ws\<rparr>) = view h"
      "view (h\<lparr>enableWebSocket := e\<rparr>) = view h"
      "view (h\<lparr>clientWatcherStartedDeviceIds := sd\<rparr>) = view h"
      "view (h\<lparr>daemonStopReason := dr\<rparr>) = view h"
      "view (h\<lparr>webSocketController := f\<rparr>) = view h"
      "view (h\<lparr>webSocketServerStarting := f\<rparr>) = view h"
      "view (h\<lparr>webSocketServerStarted := f\<rparr>) = view h"
      "view (h\<lparr>webSocketServerInfo := wi\<rparr>) = view h"
      "view (h\<lparr>shutdownHandler := f\<rparr>) = view h"
      "view (h\<lparr>shutdownRequested := f\<rparr>) = view h"
      "view (h\<lparr>controlServer := f\<rparr>) = view h"
      "view (h\<lparr>startInFlight := f\<rparr>) = view h"
begin

lemma view_quiet [simp]: "filter life_call xs = [] \<Longrightarrow> view (logs xs h) = view h"
  using sees_life by (intro view_logs) (auto simp: filter_empty_conv)

lemma view_clear [simp]: "view (clear_and_reject clear e h) = view h"
  by (simp add: clear_and_reject_pendingRoutes)

lemma view_rewrite: "view (snd (snd (rewriteOutboundMessageData now data s h))) = view h"
  by (auto simp: rewriteOutboundMessageData_def split: option.split prod.split)

lemma view_forward: "view (snd (forward_to_runtime env ws c data s fwd h)) = view h"
proof -
  obtain r d g where e: "rewriteOutboundMessageData (e_now env) data s h = (r, d, g)" by (metis prod.collapse)
  with view_rewrite [of "e_now env" data s h] have g: "view g = view h" by simp
  show ?thesis
    using g by (auto simp: forward_to_runtime_def e Let_def split: option.split)
qed

lemma view_target_driver: "view (sendMessageToTargetDriver env s c m v h) = view h"
  by (auto simp: sendMessageToTargetDriver_def split: option.split)

lemma view_send [simp]: "view (snd (sendMessageToRuntime env c m s h)) = view h"
  by (auto simp: sendMessageToRuntime_def Let_def view_forward view_target_driver
      split: option.split prod.split memo_decision.split runtime_message.split)

lemma view_reply [simp]: "view (snd (sendMessageWithReply env p c m t cid h)) = view h"
proof -
  have "snd (case r of (None, h1) \<Rightarrow> (Some NotRoutable, h1) | (Some e, h1) \<Rightarrow> (Some e, h1)) = snd r"
    for r :: "host_error option \<times> host" by (auto split: prod.split option.split)
  then show ?thesis by (simp add: sendMessageWithReply_def)
qed

lemma view_no_reply [simp]: "view (snd (sendMessageWithoutReply env web c m cid h)) = view h"
  by (simp add: sendMessageWithoutReply_def Let_def)

lemma view_on_client [simp]: "(\<And>c. view (snd (f c h)) = view h) \<Longrightarrow> view (snd (on_client y f h)) = view h"
  by (auto simp: on_client_def split: option.split)

lemma view_restore: "view (snd (restoreInboundMessage v p c h)) = view h"
  by (auto simp: restoreInboundMessage_def split: option.split prod.split)

lemma view_runtime_message [simp]: "view (handleRuntimeMessage env ws c m h) = view h"
proof -
  let ?v = "parseJsonMessageOrNull m"
  obtain r g where e: "restoreInboundMessage ?v (getCustomizedPayload ?v) c h = (r, g)" by fastforce
  with view_restore [of ?v "getCustomizedPayload ?v" c h] have g: "view g = view h" by simp
  have d: "view (deliver_routed ws t v g) = view h" for t v
    using g by (auto simp: deliver_routed_def split: option.split)
  show ?thesis
    unfolding handleRuntimeMessage_def Let_def e
    using g d by (auto split: option.split prod.split)
qed

lemma view_usb_message [simp]: "view (handleUsbClientMessage env c m h) = view h"
  by (simp add: handleUsbClientMessage_def)

lemma view_ws_message [simp]: "view (handleWebSocketAppMessage env c m h) = view h"
  by (simp add: handleWebSocketAppMessage_def)

lemma view_driver_message [simp]: "view (snd (handleWebSocketDriverMessage env w c m h)) = view h"
  by (simp add: handleWebSocketDriverMessage_def)

lemma view_route_timer [simp]: "view (route_timer_fires t h) = view h"
  by (auto simp: route_timer_fires_def Let_def split: prod.split option.split)

lemma view_retry_timer [simp]: "view (retry_timer_fires env t h) = view h"
  by (auto simp: retry_timer_fires_def Let_def split: option.split)

lemma view_bridge [simp]: "view (with_bridge f h) = view h"
  by simp

lemma view_client_connected [simp]: "view (handleClientConnected opt env h) = view h"
  by (simp add: handleClientConnected_def)

lemma view_client_disconnected [simp]: "view (handleClientDisconnected opt env c h) = view h"
  by (simp add: handleClientDisconnected_def Let_def)

lemma view_connector_error [simp]: "view (handleConnectorError d h) = view h"
  by (simp add: handleConnectorError_def)

lemma view_close_client [simp]: "view (closeClient env c h) = view h"
  by (simp add: closeClient_def)

lemma view_ws_server [simp]:
  "view (snd (startWSServer opt env cid h)) = view h"
  "view (ws_controller_created h) = view h"
  "view (ws_start_settled r h) = view h"
  "view (ws_start_resumes opt env cid ok h) = view h"
  by (auto simp: startWSServer_def ws_controller_created_def ws_start_settled_def ws_start_resumes_def Let_def
      split: option.split)

lemma view_start_stop [simp]:
  "view (host_start h) = view h" "view (start_listening h) = view h" "view (stop_server h) = view h"
  "view (setShutdownHandler h) = view h" "view (watcher_runs env d a h) = view h"
  by (simp_all add: host_start_def start_listening_def stop_server_def setShutdownHandler_def watcher_runs_def)

end

section \<open>Idle shutdown\<close>

abbreviation idle_runs :: "host \<Rightarrow> nat" where
  "idle_runs h \<equiv> length (filter ((=) RunIdleHandler) (log h))"

definition idle_view where
  "idle_view h = (lifecycleStatus h, idleTimer h, idleTimeoutHandler h, activeControlIds h, activeWebSocketDriverIds h, idle_runs h)"

interpretation idle: host_view idle_view "(=) RunIdleHandler"
  by unfold_locales (auto simp: idle_view_def)

lemma idle_view_updates [simp]:
  "idle_view (h\<lparr>enabledManagers := ms\<rparr>) = idle_view h"
  "idle_view (h\<lparr>clientWatcherStartingByDeviceId := st\<rparr>) = idle_view h"
  "idle_view (h\<lparr>next_attempt := n\<rparr>) = idle_view h"
  by (simp_all add: idle_view_def)

lemma no_idle_call [simp]: "filter life_call xs = [] \<Longrightarrow> filter ((=) RunIdleHandler) xs = []"
  by (auto simp: filter_empty_conv)

lemma idle_view_managers [simp]:
  "idle_view (logs [AddManager k v b] h) = idle_view h" "idle_view (logs [CloseManager k] h) = idle_view h"
  by (simp_all add: idle.view_logs)

lemma idle_view_ensure [simp]: "idle_view (snd (ensureClientWatcher env d h)) = idle_view h"
  by (auto simp: ensureClientWatcher_def Let_def split: option.split)

lemma idle_view_ensureAll [simp]: "idle_view (snd (ensureAllClientWatchers env ds h)) = idle_view h"
  by (induction ds arbitrary: h) (simp_all add: case_prod_beta)

lemma idle_view_removals [simp]: "idle_view (run_removals opt rs h) = idle_view h"
  by (induction opt rs h rule: run_removals.induct)
     (simp_all add: handleDeviceDisconnected_def clearClientWatcherStartState_def)

lemma idle_view_release [simp]: "idle_view (release_loop opt rem c ms h) = idle_view h"
  by (induction opt rem c ms h rule: release_loop.induct) simp_all

lemma idle_view_add_manager [simp]: "idle_view (add_manager key option au c h) = idle_view h"
  by (auto simp: add_manager_def addManagerControl_def split: option.split)

lemma idle_view_addPhysical [simp]: "idle_view (addPhysicalDeviceManagers c option h) = idle_view h"
  by (simp add: addPhysicalDeviceManagers_def addAndroidManager_def addHarmonyManager_def addIOSManager_def
      addDesktopManager_def addNetworkManager_def Let_def)

text \<open>The idle timer is armed only on a host that has been started and that nobody uses.\<close>

definition idle_ok :: "host \<Rightarrow> bool" where
  "idle_ok h \<longleftrightarrow> (idleTimer h \<longrightarrow> lifecycleStatus h \<noteq> Uninitialized \<and> \<not> isInUse h \<and> idleTimeoutHandler h)"

text \<open>What a step may do: keep \<open>idle_ok\<close>, stay closed, and run the idle handler only when it fires unused.\<close>

definition idle_safe :: "host \<Rightarrow> host \<Rightarrow> bool" where
  "idle_safe h h' \<longleftrightarrow> (idle_ok h \<longrightarrow> idle_ok h') \<and>
     (lifecycleStatus h = HostClosed \<longrightarrow> lifecycleStatus h' = HostClosed) \<and> idle_runs h' = idle_runs h"

lemma idle_safe_view: "idle_view h' = idle_view h \<Longrightarrow> idle_safe h h'"
  by (simp add: idle_safe_def idle_ok_def idle_view_def isInUse_def)

lemma idle_safe_trans [trans]: "idle_safe h h' \<Longrightarrow> idle_safe h' h'' \<Longrightarrow> idle_safe h h''"
  by (auto simp: idle_safe_def)

lemma idle_safe_clear: "idle_safe h (clearIdleTimeout h)"
  by (auto simp: idle_safe_def clearIdleTimeout_def idle_ok_def)

lemma idle_safe_schedule: "idle_safe h (scheduleIdleTimeoutIfNeeded opt h)"
  by (auto simp: idle_safe_def scheduleIdleTimeoutIfNeeded_def clearIdleTimeout_def idle_ok_def isInUse_def)

lemma register_clear_safe: "idle_safe h (clearIdleTimeout (logs [Trace x] (register_control c rep au h)))"
  by (auto simp: idle_safe_def idle_ok_def register_control_def clearIdleTimeout_def Let_def)

lemma idle_safe_connected: "idle_safe h (handleControlConnected opt env c rep facade h)"
proof -
  have v: "idle_view (start_for_control c f au (greet_control opt env c g)) =
      idle_view (clearIdleTimeout (logs [Trace ''control_socket_connected''] g))" for f au g
    by (simp add: start_for_control_def greet_control_def updateReportStatus_def host_report_def Let_def)
  show ?thesis
    unfolding handleControlConnected_def Let_def
    by (rule idle_safe_trans [OF register_clear_safe idle_safe_view [OF v]])
qed

lemma idle_safe_disconnected: "idle_safe h (handleControlDisconnected opt rem c h)"
proof -
  have u: "idle_safe h (unregister_control c h)"
    by (auto simp: idle_safe_def idle_ok_def unregister_control_def updateReportStatus_def isInUse_def set_delete_def Let_def)
  also have "idle_safe (unregister_control c h) (clear_and_reject (clearByControlId c) (ControlGone c)
      (releasePhysicalDeviceManagers opt rem c (unregister_control c h)))"
    by (rule idle_safe_view) (simp add: releasePhysicalDeviceManagers_def)
  also note idle_safe_schedule
  finally show ?thesis unfolding handleControlDisconnected_def .
qed

lemma idle_safe_emit: "idle_safe h (host_emit opt env ev h)"
proof -
  have t: "idle_safe h (logs [Trace x] h)" for x by (rule idle_safe_view) simp
  have c: "idle_safe h (handleWebSocketClientConnected opt env cid type h)" for cid type h
    by (auto simp: idle_safe_def idle_ok_def handleWebSocketClientConnected_def clearIdleTimeout_def isInUse_def Let_def)
  have d: "idle_safe h (handleWebSocketClientDisconnected opt env cid type h)" for cid type h
  proof (cases "type = ''Driver''")
    case True
    let ?g = "h\<lparr>activeWebSocketDriverIds := set_delete cid (activeWebSocketDriverIds h)\<rparr>"
    let ?k = "?g\<lparr>pendingRoutes := snd (clearByWebClientId cid (pendingRoutes ?g))\<rparr>"
    have "idle_safe h ?k" by (auto simp: idle_safe_def idle_ok_def isInUse_def set_delete_def)
    also have "idle_safe ?k (scheduleIdleTimeoutIfNeeded opt ?k)" by (rule idle_safe_schedule)
    also have "idle_safe (scheduleIdleTimeoutIfNeeded opt ?k) (handleWebSocketClientDisconnected opt env cid type h)"
      by (rule idle_safe_view) (simp add: handleWebSocketClientDisconnected_def True Let_def)
    finally show ?thesis .
  next
    case False
    show ?thesis by (rule idle_safe_view) (simp add: handleWebSocketClientDisconnected_def False Let_def)
  qed
  have r: "idle_safe h (sendToWebSocketRequesters e h)" for e
    by (rule idle_safe_view) simp
  show ?thesis
    unfolding host_emit_def
    by (cases ev) (auto intro: idle_safe_trans [OF t c] idle_safe_trans [OF t d] r idle_safe_view
        simp del: requesters_logs)
qed

lemma idle_safe_rpc: "idle_safe h (snd (handleControlRpc opt env p cid meth params h))"
proof -
  have shut: "idle_safe h (snd (requestDaemonShutdown r h))" for r
    by (auto simp: idle_safe_def idle_ok_def requestDaemonShutdown_def clearIdleTimeout_def isInUse_def Let_def)
  have "meth \<noteq> ''shutdownDaemon'' \<Longrightarrow> idle_view (snd (handleControlRpc opt env p cid meth params h)) = idle_view h"
    unfolding handleControlRpc_def Let_def
    by (simp add: rpc_host_cases addNetworkManager_def stopWatchClient_def disconnectDevice_def
        clearClientWatcherStartState_def Let_def split: option.split)
  then show ?thesis
    using shut idle_safe_view by (cases "meth = ''shutdownDaemon''") (auto simp: handleControlRpc_def)
qed

lemma idle_safe_step:
  assumes "ev \<noteq> EvIdleTimer"
  shows "idle_safe h (host_step opt ev h)"
proof -
  have stop: "idle_safe h (stop_begin h)" "idle_safe h (stop_detach h)" "idle_safe h (start_finished opt h)"
    "idle_safe h (setIdleTimeoutHandler h)"
    using idle_safe_schedule [of "h\<lparr>lifecycleStatus := Ready\<rparr>" opt]
    by (auto simp: idle_safe_def idle_ok_def stop_begin_def stop_detach_def start_finished_def setIdleTimeoutHandler_def
        clearIdleTimeout_def isInUse_def Let_def)
  show ?thesis
    using assms
    by (cases ev)
       (auto simp: idle_safe_connected idle_safe_disconnected idle_safe_emit idle_safe_rpc stop
         intro!: idle_safe_view simp: handleDeviceConnected_def handleDeviceDisconnected_def
         handleLegacyOwnershipChanged_def handleLegacyOwnershipLost_def host_report_def watcher_settled_def
         forceDisableAllClients_def publishClientSnapshot_def clearAllClientWatcherStartState_def
         clearClientWatcherStartState_def startWatchAllClients_def stop_runtime_def clearRuntimeState_def Let_def)
qed

lemma idle_ok_idle_timer: "idle_ok h \<Longrightarrow> idle_ok (idle_timer_fires h)"
  by (auto simp: idle_ok_def idle_timer_fires_def isInUse_def Let_def)

lemma idle_ok_run: "idle_ok h \<Longrightarrow> idle_ok (host_run opt evs h)"
proof (induction evs arbitrary: h)
  case (Cons ev evs)
  then have "idle_ok (host_step opt ev h)"
    using idle_safe_step [of ev h opt] idle_ok_idle_timer by (cases "ev = EvIdleTimer") (auto simp: idle_safe_def)
  then show ?case using Cons.IH by simp
qed simp

lemma host_closed_run: "lifecycleStatus h = HostClosed \<Longrightarrow> lifecycleStatus (host_run opt evs h) = HostClosed"
proof (induction evs arbitrary: h)
  case (Cons ev evs)
  then have "lifecycleStatus (host_step opt ev h) = HostClosed"
    using idle_safe_step [of ev h opt]
    by (cases "ev = EvIdleTimer") (auto simp: idle_safe_def idle_timer_fires_def isInUse_def Let_def)
  then show ?case using Cons.IH by simp
qed simp





section \<open>Shared device managers\<close>

fun manager_call :: "host_out \<Rightarrow> bool" where
  "manager_call (AddManager k v b) = True"
| "manager_call (CloseManager k) = True"
| "manager_call _ = False"

definition manager_view where
  "manager_view h = (enabledManagers h, filter manager_call (log h))"

interpretation managers: host_view manager_view manager_call
proof
  show "manager_call x \<Longrightarrow> life_call x" for x by (cases x) auto
qed (auto simp: manager_view_def)

lemma manager_view_updates [simp]:
  "manager_view (h\<lparr>clientWatcherStartingByDeviceId := st\<rparr>) = manager_view h"
  "manager_view (h\<lparr>next_attempt := n\<rparr>) = manager_view h"
  "manager_view (h\<lparr>activeControlIds := cs\<rparr>) = manager_view h"
  "manager_view (h\<lparr>autoConnectControlIds := cs\<rparr>) = manager_view h"
  "manager_view (h\<lparr>manualConnect := b\<rparr>) = manager_view h"
  "manager_view (h\<lparr>activeWebSocketDriverIds := cs\<rparr>) = manager_view h"
  "manager_view (h\<lparr>idleTimer := b\<rparr>) = manager_view h"
  "manager_view (h\<lparr>idleTimeoutHandler := b\<rparr>) = manager_view h"
  "manager_view (h\<lparr>lifecycleStatus := l\<rparr>) = manager_view h"
  by (simp_all add: manager_view_def)

lemma manager_view_idle [simp]: "manager_view (logs [Trace x, RunIdleHandler] h) = manager_view h"
  by (simp add: managers.view_logs)

lemma manager_view_ensure [simp]: "manager_view (snd (ensureClientWatcher env d h)) = manager_view h"
  by (auto simp: ensureClientWatcher_def Let_def split: option.split)

lemma manager_view_ensureAll [simp]: "manager_view (snd (ensureAllClientWatchers env ds h)) = manager_view h"
  by (induction ds arbitrary: h) (simp_all add: case_prod_beta)

lemma manager_view_removals [simp]: "manager_view (run_removals opt rs h) = manager_view h"
  by (induction opt rs h rule: run_removals.induct)
     (simp_all add: handleDeviceDisconnected_def clearClientWatcherStartState_def)

lemma manager_viewD:
  "manager_view h' = manager_view h \<Longrightarrow> enabledManagers h' = enabledManagers h"
  "manager_view h' = manager_view h \<Longrightarrow> filter manager_call (log h') = filter manager_call (log h)"
  by (simp_all add: manager_view_def)

text \<open>What the departure of control \<open>c\<close> leaves of the set of users of a manager.\<close>

fun leave :: "int \<Rightarrow> int jsset option \<Rightarrow> int jsset option" where
  "leave c None = None"
| "leave c (Some cs) = (if c \<in> set cs \<and> set_delete c cs = [] then None else Some (set_delete c cs))"

lemma removals_managers [simp]:
  "enabledManagers (run_removals opt rs h) = enabledManagers h"
  "filter manager_call (log (run_removals opt rs h)) = filter manager_call (log h)"
  by (rule manager_viewD, simp)+

lemma release_loop_managers:
  assumes "wf_map ms" and "\<And>k cs. (k, cs) \<in> set ms \<Longrightarrow> map_of (enabledManagers h) k = Some cs"
  shows "map_of (enabledManagers (release_loop opt rem c ms h)) k =
      (if k \<in> set (map_keys ms) then leave c (map_of (enabledManagers h) k) else map_of (enabledManagers h) k) \<and>
    filter manager_call (log (release_loop opt rem c ms h)) = filter manager_call (log h) @
      map (CloseManager \<circ> fst) (filter (\<lambda>(k, cs). c \<in> set cs \<and> set_delete c cs = []) ms)"
  using assms
proof (induction opt rem c ms h rule: release_loop.induct)
  case (2 opt rem c key cids rest h)
  have key: "map_of (enabledManagers h) key = Some cids" and rest: "key \<notin> set (map_keys rest)" "wf_map rest"
    using "2.prems" by auto
  have other: "k' \<noteq> key" if "(k', cs) \<in> set rest" for k' cs using rest(1) that by force
  consider "c \<notin> set cids" | "c \<in> set cids" "set_delete c cids \<noteq> []" | "c \<in> set cids" "set_delete c cids = []" by blast
  then show ?case
  proof cases
    case 1
    then have "set_delete c cids = cids" by (rule set_delete_notin)
    then show ?thesis using 1 "2.IH"(1) [OF 1 rest(2)] "2.prems"(2) rest(1) by (auto simp: key)
  next
    case 2
    let ?g = "h\<lparr>enabledManagers := AList.update key (set_delete c cids) (enabledManagers h)\<rparr>"
    have "map_of (enabledManagers ?g) k' = Some cs" if "(k', cs) \<in> set rest" for k' cs
      using that other [OF that] "2.prems"(2) by simp
    with "2.IH"(2) 2 rest show ?thesis by (auto simp: key)
  next
    case 3
    let ?g = "run_removals opt (rem key) (emit (CloseManager key) (h\<lparr>enabledManagers := AList.delete key (enabledManagers h)\<rparr>))"
    have "map_of (enabledManagers ?g) k' = Some cs" if "(k', cs) \<in> set rest" for k' cs
      using that other [OF that] "2.prems"(2) by simp
    with "2.IH"(3) 3 rest show ?thesis by (auto simp: key)
  qed
qed simp

lemma release_managers:
  assumes "wf_map (enabledManagers h)"
  shows "map_of (enabledManagers (releasePhysicalDeviceManagers opt rem c h)) k = leave c (map_of (enabledManagers h) k)"
    and "filter manager_call (log (releasePhysicalDeviceManagers opt rem c h)) = filter manager_call (log h) @
      map (CloseManager \<circ> fst) (filter (\<lambda>(k, cs). c \<in> set cs \<and> set_delete c cs = []) (enabledManagers h))"
proof -
  have "map_of (enabledManagers h) k = Some cs" if "(k, cs) \<in> set (enabledManagers h)" for k cs
    using that assms by (simp add: map_of_wf_iff)
  note r = release_loop_managers [OF assms this, where opt = opt and rem = rem and c = c]
  show "map_of (enabledManagers (releasePhysicalDeviceManagers opt rem c h)) k = leave c (map_of (enabledManagers h) k)"
    using r [of k] map_of_None_keys [of "enabledManagers h" k] by (auto simp: releasePhysicalDeviceManagers_def)
  show "filter manager_call (log (releasePhysicalDeviceManagers opt rem c h)) = filter manager_call (log h) @
      map (CloseManager \<circ> fst) (filter (\<lambda>(k, cs). c \<in> set cs \<and> set_delete c cs = []) (enabledManagers h))"
    using r by (simp add: releasePhysicalDeviceManagers_def)
qed

fun opens :: "manager_key \<Rightarrow> host_out \<Rightarrow> bool" where
  "opens k (AddManager k' v b) = (k' = k)"
| "opens k _ = False"

fun closes :: "manager_key \<Rightarrow> host_out \<Rightarrow> bool" where
  "closes k (CloseManager k') = (k' = k)"
| "closes k _ = False"

abbreviation opened :: "manager_key \<Rightarrow> host \<Rightarrow> nat" where
  "opened k h \<equiv> length (filter (opens k) (log h))"

abbreviation closed_count :: "manager_key \<Rightarrow> host \<Rightarrow> nat" where
  "closed_count k h \<equiv> length (filter (closes k) (log h))"

lemma counts_manager_calls:
  "filter (opens k) xs = filter (opens k) (filter manager_call xs)"
  "filter (closes k) xs = filter (closes k) (filter manager_call xs)"
proof -
  have "manager_call x" if "opens k x \<or> closes k x" for x using that by (cases x) auto
  then show "filter (opens k) xs = filter (opens k) (filter manager_call xs)"
    "filter (closes k) xs = filter (closes k) (filter manager_call xs)"
    by (induction xs) auto
qed

text \<open>Every manager has a user, and it was opened once more than it was closed exactly while it is enabled.\<close>

definition managers_ok :: "host \<Rightarrow> bool" where
  "managers_ok h \<longleftrightarrow> wf_map (enabledManagers h) \<and> (\<forall>(k, cs) \<in> set (enabledManagers h). cs \<noteq> []) \<and>
     (\<forall>k. opened k h = closed_count k h + (if map_has (enabledManagers h) k then 1 else 0))"

lemma managers_ok_view: "manager_view h' = manager_view h \<Longrightarrow> managers_ok h \<Longrightarrow> managers_ok h'"
  unfolding managers_ok_def manager_view_def
  using counts_manager_calls by (metis (no_types, lifting) Pair_inject)

lemma managers_ok_add: "managers_ok h \<Longrightarrow> managers_ok (add_manager key option au c h)"
proof (cases "map_of (enabledManagers h) key")
  case None
  assume ok: "managers_ok h"
  have "set (AList.update key [c] (enabledManagers h)) \<subseteq> insert (key, [c]) (set (enabledManagers h))"
    by (rule set_update_subset)
  then show ?thesis
    using ok None by (auto simp: managers_ok_def add_manager_def addManagerControl_def)
next
  case (Some cs)
  assume ok: "managers_ok h"
  have "set (AList.update key (set_add c cs) (enabledManagers h)) \<subseteq> insert (key, set_add c cs) (set (enabledManagers h))"
    by (rule set_update_subset)
  then show ?thesis
    using ok Some set_add_not_Nil [of c cs, symmetric]
    by (auto simp: managers_ok_def add_manager_def addManagerControl_def dest!: subsetD)
qed

lemma managers_ok_addPhysical: "managers_ok h \<Longrightarrow> managers_ok (addPhysicalDeviceManagers c option h)"
  unfolding addPhysicalDeviceManagers_def addAndroidManager_def addHarmonyManager_def addIOSManager_def
    addDesktopManager_def addNetworkManager_def Let_def
  by (auto intro!: managers_ok_add intro: managers_ok_view [rotated])

lemma release_wf: "wf_map (enabledManagers h) \<Longrightarrow> wf_map (enabledManagers (release_loop opt rem c ms h))"
  by (induction opt rem c ms h rule: release_loop.induct) simp_all

lemma count_closed:
  assumes "wf_map ms"
  shows "length (filter (closes k) (map (CloseManager \<circ> fst) (filter P ms))) =
    (if \<exists>cs. map_of ms k = Some cs \<and> P (k, cs) then 1 else 0)"
proof -
  have m: "length (filter (closes k) (map (CloseManager \<circ> fst) xs)) = length (filter (\<lambda>p. fst p = k) xs)" for xs :: "(manager_key \<times> 'a) list"
    by (induction xs) auto
  have f: "filter (\<lambda>p. fst p = k) (filter P ms) = filter P (filter (\<lambda>p. fst p = k) ms)"
    by (simp add: conj_commute)
  show ?thesis
  proof (cases "map_of ms k")
    case None
    then have "filter (\<lambda>p. fst p = k) ms = []" by (auto simp: filter_empty_conv map_of_None_keys)
    with None show ?thesis unfolding m f by simp
  next
    case (Some cs)
    then show ?thesis unfolding m f using filter_key_unique [OF assms Some] by simp
  qed
qed

lemma managers_ok_release:
  assumes ok: "managers_ok h"
  shows "managers_ok (releasePhysicalDeviceManagers opt rem c h)"
    and "(k, cs) \<in> set (enabledManagers (releasePhysicalDeviceManagers opt rem c h)) \<Longrightarrow> c \<notin> set cs"
proof -
  let ?h = "releasePhysicalDeviceManagers opt rem c h"
  have wf: "wf_map (enabledManagers h)" and ne: "\<And>k cs. map_of (enabledManagers h) k = Some cs \<Longrightarrow> cs \<noteq> []"
    using ok by (auto simp: managers_ok_def dest: map_of_SomeD)
  have wf': "wf_map (enabledManagers ?h)" using release_wf [OF wf] by (simp add: releasePhysicalDeviceManagers_def)
  note r = release_managers [OF wf, where opt = opt and rem = rem and c = c]
  have get: "leave c (map_of (enabledManagers h) k) = Some cs" if "(k, cs) \<in> set (enabledManagers ?h)" for k cs
    using that wf' r(1) by (simp add: map_of_wf_iff [symmetric])
  show "(k, cs) \<in> set (enabledManagers ?h) \<Longrightarrow> c \<notin> set cs"
    using get [of k cs] by (cases "map_of (enabledManagers h) k") (auto split: if_splits)
  have nonempty: "cs \<noteq> []" if "(k, cs) \<in> set (enabledManagers ?h)" for k cs
    using get [OF that] ne [of k]
    by (cases "map_of (enabledManagers h) k") (auto split: if_splits simp: set_delete_notin)
  have "opened k ?h = closed_count k ?h + (if map_has (enabledManagers ?h) k then 1 else 0)" for k
  proof -
    have o: "opened k ?h = opened k h"
      using r(2) counts_manager_calls(1) [of k "log ?h"] counts_manager_calls(1) [of k "log h"] by simp
    have cl: "closed_count k ?h = closed_count k h +
        (if \<exists>cs. map_of (enabledManagers h) k = Some cs \<and> c \<in> set cs \<and> set_delete c cs = [] then 1 else 0)"
      using r(2) counts_manager_calls(2) [of k "log ?h"] counts_manager_calls(2) [of k "log h"]
        count_closed [OF wf, of k "\<lambda>(k, cs). c \<in> set cs \<and> set_delete c cs = []"]
      by (simp del: filter_filter)
    have "opened k h = closed_count k h + (if map_has (enabledManagers h) k then 1 else 0)"
      using ok by (simp add: managers_ok_def)
    then show ?thesis
      unfolding o cl r(1) using ne [of k] by (cases "map_of (enabledManagers h) k") auto
  qed
  then show "managers_ok ?h" using wf' nonempty by (auto simp: managers_ok_def)
qed


lemma managers_ok_step:
  assumes ok: "managers_ok h" and ev: "ev \<noteq> EvStopDetach"
  shows "managers_ok (host_step opt ev h)"
proof (cases "\<exists>env c rep facade. ev = EvControlConnected env c rep facade")
  case True
  then obtain env c rep facade where e: "ev = EvControlConnected env c rep facade" by blast
  have s: "managers_ok (start_for_control c f au g)" if "managers_ok g" for f au g
  proof -
    define h1 where "h1 = (if au then host_report ''PhysicalConnectorInitOfNoManualConnect'' (Obj [])
        (Obj [(''option'', Str (''PhysicalConnectorOption:'' @ show_js f))]) g else g)"
    define h2 where "h2 = (if truthy (jget f ''enableWebSocket'') then h1\<lparr>enableWebSocket := True\<rparr> else h1)"
    have "manager_view h2 = manager_view g" by (simp add: h1_def h2_def host_report_def del: with_bridge_logs)
    then have "managers_ok (addPhysicalDeviceManagers c f h2)"
      using managers_ok_addPhysical managers_ok_view that by blast
    then show ?thesis
      unfolding start_for_control_def h1_def [symmetric] h2_def [symmetric] Let_def
      by (rule managers_ok_view [rotated]) simp
  qed
  have v: "manager_view (greet_control opt env c (register_control c rep au h)) = manager_view h" for au
    by (simp add: greet_control_def register_control_def clearIdleTimeout_def updateReportStatus_def Let_def)
  show ?thesis
    using s managers_ok_view [OF v ok] by (simp add: e handleControlConnected_def Let_def)
next
  case nc: False
  show ?thesis
  proof (cases "\<exists>rem c. ev = EvControlDisconnected rem c")
    case True
    then obtain rem c where e: "ev = EvControlDisconnected rem c" by blast
    have "managers_ok (releasePhysicalDeviceManagers opt rem c (unregister_control c h))"
      by (intro managers_ok_release managers_ok_view [OF _ ok]) (simp add: unregister_control_def updateReportStatus_def Let_def)
    then show ?thesis
      by (rule managers_ok_view [rotated])
         (simp add: e handleControlDisconnected_def scheduleIdleTimeoutIfNeeded_def clearIdleTimeout_def)
  next
    case False
    have rpc: "managers_ok (snd (handleControlRpc opt env p cid meth params h))" for env p cid meth params
    proof (cases "meth = ''watchNetworkDeviceAtIp''")
      case True
      then show ?thesis using ok by (simp add: handleControlRpc_def addNetworkManager_def managers_ok_add)
    next
      case False
      then show ?thesis
        unfolding handleControlRpc_def Let_def
        by (intro managers_ok_view [OF _ ok])
           (simp add: rpc_host_cases stopWatchClient_def disconnectDevice_def requestDaemonShutdown_def clearIdleTimeout_def
             clearClientWatcherStartState_def Let_def split: option.split)
    qed
    show ?thesis
      using nc False ev rpc
      by (cases ev)
         (auto intro!: managers_ok_view [OF _ ok] simp: host_emit_def handleWebSocketClientConnected_def
           handleWebSocketClientDisconnected_def handleDeviceConnected_def handleDeviceDisconnected_def
           handleLegacyOwnershipChanged_def handleLegacyOwnershipLost_def host_report_def watcher_settled_def
           forceDisableAllClients_def publishClientSnapshot_def clearAllClientWatcherStartState_def
           clearClientWatcherStartState_def startWatchAllClients_def stop_runtime_def clearRuntimeState_def
           idle_timer_fires_def setIdleTimeoutHandler_def start_finished_def scheduleIdleTimeoutIfNeeded_def
           clearIdleTimeout_def stop_begin_def Let_def split: driver_event.split)
  qed
qed

lemma managers_ok_run: "managers_ok h \<Longrightarrow> EvStopDetach \<notin> set evs \<Longrightarrow> managers_ok (host_run opt evs h)"
  by (induction evs arbitrary: h) (auto simp: managers_ok_step simp del: host_step.simps)

lemma new_host_managers: "managers_ok (new_host opt)"
  by (simp add: managers_ok_def new_host_def)



end
