(* ===== verification/Usb_Framing.thy ===== *)
theory Usb_Framing
  imports Control_Transport "HOL-Library.While_Combinator"
begin

text \<open>
  The packets of the USB connection: \<^verbatim>\<open>packMessage\<close> (\<^verbatim>\<open>usb/utils.ts\<close>) and the receive buffer of a
  \<^verbatim>\<open>ClientAdapter\<close> (\<^verbatim>\<open>usb/ClientAdapter.ts\<close>, \<^verbatim>\<open>handleUnpackMessage\<close>).  A packet is a header of five
  big-endian 32-bit integers, the last of them the number of payload bytes, and the payload.

  The receive buffer is one allocated block in which the unread bytes lie between \<open>offset\<close> and
  \<open>buf_end\<close>; it is moved to the front or reallocated when a chunk does not fit.  \<^verbatim>\<open>Buffer.allocUnsafe\<close>
  is the argument \<open>alloc\<close>: the memory it returns is not initialised, and it throws (\<open>None\<close>) when there
  is none.  What \<^verbatim>\<open>handleMessage\<close> does with a message is the argument \<open>hm\<close>, a function on a state of its
  own.  \<open>stream_feed\<close> is the specification: the unread bytes are a list, a chunk is appended and every
  complete packet is taken from the front.  The buffer refines it.
\<close>

section \<open>Text\<close>

text \<open>
  \<^verbatim>\<open>Buffer.toString('utf8')\<close>: an ill-formed sequence becomes the replacement character, one for each
  longest prefix of a well-formed sequence.  \<open>utf8_tail\<close>: the ranges of the bytes that follow a lead byte.
\<close>

definition utf8_tail :: "nat \<Rightarrow> (nat \<times> nat) list option" where
  "utf8_tail b =
     (if b < 128 then Some []
      else if 194 \<le> b \<and> b \<le> 223 then Some [(128, 191)]
      else if b = 224 then Some [(160, 191), (128, 191)]
      else if b = 237 then Some [(128, 159), (128, 191)]
      else if 225 \<le> b \<and> b \<le> 239 then Some [(128, 191), (128, 191)]
      else if b = 240 then Some [(144, 191), (128, 191), (128, 191)]
      else if b = 244 then Some [(128, 143), (128, 191), (128, 191)]
      else if 241 \<le> b \<and> b \<le> 243 then Some [(128, 191), (128, 191), (128, 191)]
      else None)"

fun utf8_match :: "(nat \<times> nat) list \<Rightarrow> string \<Rightarrow> nat" where
  "utf8_match ((lo, hi) # rs) (c # s) =
     (if lo \<le> (of_char c :: nat) \<and> (of_char c :: nat) \<le> hi then Suc (utf8_match rs s) else 0)"
| "utf8_match _ _ = 0"

definition replacement_character :: string where
  "replacement_character = [CHR 0xEF, CHR 0xBF, CHR 0xBD]"

function utf8_decode :: "string \<Rightarrow> string" where
  "utf8_decode [] = []"
| "utf8_decode (c # s) =
     (case utf8_tail (of_char c) of
        None \<Rightarrow> replacement_character @ utf8_decode s
      | Some rs \<Rightarrow>
          let k = utf8_match rs s in
          (if k = length rs then c # take k s else replacement_character) @ utf8_decode (drop k s))"
  by pat_completeness auto
termination by (relation "measure length") auto

section \<open>Packets\<close>

definition usbmuxdPacketHeaderLength :: nat where
  "usbmuxdPacketHeaderLength = 20"

text \<open>\<^verbatim>\<open>JSON.stringify(undefined)\<close> is \<^verbatim>\<open>undefined\<close>, on which \<^verbatim>\<open>utf8.encode\<close> throws: \<open>None\<close>.\<close>

definition packMessage :: "bufferpack \<Rightarrow> js \<Rightarrow> string option" where
  "packMessage bp data =
     (case json_stringify data of
        None \<Rightarrow> None
      | Some enc \<Rightarrow>
          Some (pack_u32 bp 1 @ pack_u32 bp 101 @ pack_u32 bp 0 @ pack_u32 bp (length enc + 4) @
                pack_u32 bp (length enc) @ enc))"

text \<open>\<^verbatim>\<open>bufferpack.unpack("! I I I I I", buffer, offset)\<close>, nothing when the bytes do not suffice.\<close>

definition unpack_header :: "bufferpack \<Rightarrow> string \<Rightarrow> nat \<Rightarrow> nat list option" where
  "unpack_header bp buf off =
     (if length buf < off + 20 then None
      else Some (map (\<lambda>i. unpack_u32 bp (take 4 (drop (off + 4 * i) buf))) [0..<5]))"

section \<open>The receive buffer\<close>

definition initialBufferCapacity :: nat where
  "initialBufferCapacity = 1024 * 1024 * 2"

record recv_buffer =
  bufferCapacity :: nat
  block :: "string option"
  offset :: nat
  buf_end :: nat

definition new_recv_buffer :: recv_buffer where
  "new_recv_buffer = \<lparr>bufferCapacity = initialBufferCapacity, block = None, offset = 0, buf_end = 0\<rparr>"

text \<open>\<^verbatim>\<open>source.copy(target, targetStart)\<close>: what does not fit is dropped; the ranges may overlap.\<close>

definition buf_copy :: "string \<Rightarrow> string \<Rightarrow> nat \<Rightarrow> string" where
  "buf_copy source target start =
     (if length target \<le> start then target
      else take start target @ take (length target - start) source @ drop (start + length source) target)"

definition slice :: "nat \<Rightarrow> nat \<Rightarrow> string \<Rightarrow> string" where
  "slice i j buf = take (j - i) (drop i buf)"

text \<open>The loop that doubles the capacity; \<open>None\<close>: it does not end.\<close>

definition grow_capacity :: "nat \<Rightarrow> nat \<Rightarrow> nat option" where
  "grow_capacity needed cap = while_option (\<lambda>c. c < needed) (\<lambda>c. c * 2) (cap * 2)"

type_synonym alloc = "nat \<Rightarrow> string option"

text \<open>
  The first part of \<^verbatim>\<open>handleUnpackMessage\<close>: room for the chunk \<open>data\<close>.  The flag is \<open>False\<close> when an
  allocation throws; the result is \<open>None\<close> when the loop does not end.
\<close>

definition lazy_alloc :: "alloc \<Rightarrow> recv_buffer \<Rightarrow> bool \<times> recv_buffer" where
  "lazy_alloc alloc b =
     (case block b of
        Some _ \<Rightarrow> (True, b)
      | None \<Rightarrow> (case alloc initialBufferCapacity of
                   None \<Rightarrow> (False, b)
                 | Some m \<Rightarrow> (True, b\<lparr>block := Some m\<rparr>)))"

definition make_room :: "alloc \<Rightarrow> nat \<Rightarrow> recv_buffer \<Rightarrow> (bool \<times> recv_buffer) option" where
  "make_room alloc n b =
     (let buf = the (block b) in
      if bufferCapacity b < buf_end b + n then
        if bufferCapacity b + offset b \<ge> buf_end b + n then
          Some (True, b\<lparr>block := Some (buf_copy (slice (offset b) (buf_end b) buf) buf 0),
                        buf_end := buf_end b - offset b, offset := 0\<rparr>)
        else
          (case grow_capacity (buf_end b - offset b + n) (bufferCapacity b) of
             None \<Rightarrow> None
           | Some cap \<Rightarrow>
               let b1 = b\<lparr>bufferCapacity := cap\<rparr> in
               case alloc cap of
                 None \<Rightarrow> Some (False, b1)
               | Some m \<Rightarrow>
                   Some (True, b1\<lparr>block := Some (buf_copy (slice (offset b) (buf_end b) buf) m 0),
                                  buf_end := buf_end b - offset b, offset := 0\<rparr>))
      else Some (True, b))"

definition append_chunk :: "string \<Rightarrow> recv_buffer \<Rightarrow> recv_buffer" where
  "append_chunk data b =
     b\<lparr>block := map_option (\<lambda>buf. buf_copy data buf (buf_end b)) (block b), buf_end := buf_end b + length data\<rparr>"

text \<open>One round of the loop over the packets: a message and the buffer after it.\<close>

definition next_packet :: "bufferpack \<Rightarrow> recv_buffer \<Rightarrow> (string \<times> recv_buffer) option" where
  "next_packet bp b =
     (let len = buf_end b - offset b; buf = the (block b) in
      if len < usbmuxdPacketHeaderLength then None
      else case unpack_header bp buf (offset b) of
        None \<Rightarrow> None
      | Some header \<Rightarrow>
          let size = header ! 4 in
          if size + usbmuxdPacketHeaderLength \<le> len then
            let received = utf8_decode (slice (offset b + usbmuxdPacketHeaderLength)
                                          (offset b + usbmuxdPacketHeaderLength + size) buf);
                off = offset b + usbmuxdPacketHeaderLength + size
            in Some (received, if off = buf_end b then b\<lparr>offset := 0, buf_end := 0\<rparr> else b\<lparr>offset := off\<rparr>)
          else None)"

lemma next_packet_shorter: "next_packet bp b = Some (m, b') \<Longrightarrow> buf_end b' - offset b' < buf_end b - offset b"
  by (auto simp: next_packet_def Let_def usbmuxdPacketHeaderLength_def split: option.splits if_splits)

function unpack_loop :: "bufferpack \<Rightarrow> (string \<Rightarrow> 's \<Rightarrow> 's) \<Rightarrow> recv_buffer \<Rightarrow> 's \<Rightarrow> recv_buffer \<times> 's" where
  "unpack_loop bp hm b s =
     (case next_packet bp b of
        None \<Rightarrow> (b, s)
      | Some (m, b') \<Rightarrow> unpack_loop bp hm b' (hm m s))"
  by pat_completeness auto
termination
  by (relation "measure (\<lambda>(_, _, b, _). buf_end b - offset b)") (auto dest: next_packet_shorter)

declare unpack_loop.simps [simp del]

definition handleUnpackMessage ::
    "bufferpack \<Rightarrow> alloc \<Rightarrow> (string \<Rightarrow> 's \<Rightarrow> 's) \<Rightarrow> string \<Rightarrow> recv_buffer \<times> 's
      \<Rightarrow> (bool \<times> recv_buffer \<times> 's) option" where
  "handleUnpackMessage bp alloc hm data = (\<lambda>(b, s).
     case lazy_alloc alloc b of
       (False, b1) \<Rightarrow> Some (False, b1, s)
     | (True, b1) \<Rightarrow>
         (case make_room alloc (length data) b1 of
            None \<Rightarrow> None
          | Some (False, b2) \<Rightarrow> Some (False, b2, s)
          | Some (True, b2) \<Rightarrow> Some (True, unpack_loop bp hm (append_chunk data b2) s)))"

section \<open>Specification\<close>

definition take_packet :: "bufferpack \<Rightarrow> string \<Rightarrow> (string \<times> string) option" where
  "take_packet bp s =
     (let size = unpack_u32 bp (take 4 (drop 16 s)) in
      if length s < 20 + size then None
      else Some (utf8_decode (take size (drop 20 s)), drop (20 + size) s))"

lemma take_packet_shorter: "take_packet bp s = Some (m, r) \<Longrightarrow> length r < length s"
  by (auto simp: take_packet_def Let_def split: if_splits)

function stream_feed :: "bufferpack \<Rightarrow> (string \<Rightarrow> 's \<Rightarrow> 's) \<Rightarrow> string \<Rightarrow> 's \<Rightarrow> string \<times> 's" where
  "stream_feed bp hm u s =
     (case take_packet bp u of
        None \<Rightarrow> (u, s)
      | Some (m, r) \<Rightarrow> stream_feed bp hm r (hm m s))"
  by pat_completeness auto
termination
  by (relation "measure (\<lambda>(_, _, u, _). length u)") (auto dest: take_packet_shorter)

declare stream_feed.simps [simp del]

text \<open>The unread bytes of a buffer, and when it is well-formed.\<close>

definition unread :: "recv_buffer \<Rightarrow> string" where
  "unread b = (case block b of None \<Rightarrow> [] | Some buf \<Rightarrow> slice (offset b) (buf_end b) buf)"

definition wf_recv :: "recv_buffer \<Rightarrow> bool" where
  "wf_recv b \<longleftrightarrow> 0 < bufferCapacity b \<and> offset b \<le> buf_end b \<and> buf_end b \<le> bufferCapacity b \<and>
     (case block b of None \<Rightarrow> bufferCapacity b = initialBufferCapacity \<and> buf_end b = 0
      | Some buf \<Rightarrow> length buf = bufferCapacity b)"

text \<open>The law of \<^verbatim>\<open>Buffer.allocUnsafe\<close>: the block has the size asked for.\<close>

definition alloc_law :: "alloc \<Rightarrow> bool" where
  "alloc_law alloc \<longleftrightarrow> (\<forall>n m. alloc n = Some m \<longrightarrow> length m = n)"

lemma initial_pos [simp]: "0 < initialBufferCapacity"
  by (simp add: initialBufferCapacity_def)

lemma wf_new_recv [simp]: "wf_recv new_recv_buffer" "unread new_recv_buffer = []"
  by (simp_all add: wf_recv_def new_recv_buffer_def unread_def)

lemma slice_length: "j \<le> length buf \<Longrightarrow> length (slice i j buf) = j - i"
  by (simp add: slice_def)

lemma length_buf_copy [simp]: "length (buf_copy x t i) = length t"
  by (auto simp: buf_copy_def)

lemma slice_buf_copy_front:
  "length x \<le> length t \<Longrightarrow> slice 0 (length x) (buf_copy x t 0) = x"
  by (auto simp: buf_copy_def slice_def)

lemma slice_buf_copy_end:
  assumes "i \<le> e" "e + length x \<le> length t"
  shows "slice i (e + length x) (buf_copy x t e) = slice i e t @ x"
proof (cases "x = []")
  case True
  then show ?thesis using assms by (simp add: buf_copy_def)
next
  case False
  then have "e < length t" using assms(2) by (cases x) auto
  then show ?thesis using assms by (simp add: buf_copy_def slice_def drop_take)
qed

section \<open>The buffer refines the stream\<close>

lemma doubling_loop:
  assumes "0 < c"
  shows "\<exists>k. while_option (\<lambda>c. c < n) (\<lambda>c. c * 2) c = Some (c * 2 ^ k) \<and> n \<le> c * 2 ^ k \<and>
             (\<forall>j < k. c * 2 ^ j < (n :: nat))"
  using assms
proof (induction "n - c" arbitrary: c rule: less_induct)
  case less
  show ?case
  proof (cases "c < n")
    case False
    then show ?thesis by (intro exI [of _ 0]) (simp add: while_option_unfold)
  next
    case True
    then have "n - c * 2 < n - c" "0 < c * 2" using less.prems by auto
    then obtain k where k: "while_option (\<lambda>c. c < n) (\<lambda>c. c * 2) (c * 2) = Some (c * 2 * 2 ^ k)"
        "n \<le> c * 2 * 2 ^ k" "\<forall>j < k. c * 2 * 2 ^ j < n"
      using less.hyps by blast
    have "c * 2 ^ j < n" if "j < Suc k" for j using that k(3) True by (cases j) (auto simp: mult.assoc)
    then show ?thesis using k True
      by (intro exI [of _ "Suc k"]) (simp add: while_option_unfold [of _ _ c] mult.assoc)
  qed
qed

lemma grow_capacity_Some:
  assumes "0 < cap"
  obtains c where "grow_capacity needed cap = Some c" "needed \<le> c" "0 < c"
  using doubling_loop [of "cap * 2" needed] assms unfolding grow_capacity_def by auto

lemma lazy_alloc_ok:
  assumes "alloc_law alloc" "wf_recv b" "lazy_alloc alloc b = (ok, b')"
  shows "if ok then wf_recv b' \<and> unread b' = unread b \<and> block b' \<noteq> None else alloc initialBufferCapacity = None"
  using assms
  by (auto simp: lazy_alloc_def alloc_law_def wf_recv_def unread_def slice_def split: option.splits)

lemma make_room_ok:
  assumes al: "alloc_law alloc" and wf: "wf_recv b" and bl: "block b \<noteq> None"
  obtains ok b' where "make_room alloc n b = Some (ok, b')"
    "ok \<Longrightarrow> wf_recv b' \<and> unread b' = unread b \<and> buf_end b' + n \<le> bufferCapacity b' \<and> block b' \<noteq> None"
    "\<not> ok \<Longrightarrow> \<exists>k. alloc k = None"
proof -
  obtain buf where buf: "block b = Some buf" using bl by auto
  let ?u = "slice (offset b) (buf_end b) buf"
  have inv: "0 < bufferCapacity b" "offset b \<le> buf_end b" "buf_end b \<le> bufferCapacity b"
      "length buf = bufferCapacity b"
    using wf buf by (auto simp: wf_recv_def)
  then have len: "length ?u = buf_end b - offset b" by (simp add: slice_length)
  consider (fits) "buf_end b + n \<le> bufferCapacity b"
    | (move) "bufferCapacity b < buf_end b + n" "buf_end b + n \<le> bufferCapacity b + offset b"
    | (grow) "bufferCapacity b < buf_end b + n" "bufferCapacity b + offset b < buf_end b + n"
    by linarith
  then show ?thesis
  proof cases
    case fits
    then show ?thesis using that [of True b] wf bl by (simp add: make_room_def Let_def)
  next
    case move
    show ?thesis
      by (rule that [of True "b\<lparr>block := Some (buf_copy ?u buf 0), buf_end := buf_end b - offset b, offset := 0\<rparr>"])
         (use move inv len buf slice_buf_copy_front [of ?u buf] in
            \<open>auto simp: make_room_def Let_def wf_recv_def unread_def\<close>)
  next
    case grow
    obtain cap where cap: "grow_capacity (buf_end b - offset b + n) (bufferCapacity b) = Some cap"
        "buf_end b - offset b + n \<le> cap" "0 < cap"
      using grow_capacity_Some inv(1) by blast
    show ?thesis
    proof (cases "alloc cap")
      case None
      then show ?thesis using that [of False "b\<lparr>bufferCapacity := cap\<rparr>"] grow cap(1)
        by (auto simp: make_room_def Let_def)
    next
      case (Some m)
      then have "length m = cap" using al by (simp add: alloc_law_def)
      then show ?thesis
        by (intro that [of True "b\<lparr>bufferCapacity := cap, block := Some (buf_copy ?u m 0),
                                   buf_end := buf_end b - offset b, offset := 0\<rparr>"])
           (use grow cap len buf Some slice_buf_copy_front [of ?u m] in
              \<open>auto simp: make_room_def Let_def wf_recv_def unread_def\<close>)
    qed
  qed
qed

lemma append_chunk_ok:
  assumes "wf_recv b" "block b \<noteq> None" "buf_end b + length data \<le> bufferCapacity b"
  shows "wf_recv (append_chunk data b) \<and> unread (append_chunk data b) = unread b @ data \<and>
    block (append_chunk data b) \<noteq> None"
  using assms slice_buf_copy_end [of "offset b" "buf_end b" data]
  by (auto simp: append_chunk_def wf_recv_def unread_def)

lemma next_packet_ok:
  assumes wf: "wf_recv b" and bl: "block b \<noteq> None"
  shows "(case take_packet bp (unread b) of
            None \<Rightarrow> next_packet bp b = None
          | Some (m, r) \<Rightarrow> \<exists>b'. next_packet bp b = Some (m, b') \<and> wf_recv b' \<and> block b' \<noteq> None \<and> unread b' = r)"
proof -
  obtain buf where buf: "block b = Some buf" using bl by auto
  have inv: "offset b \<le> buf_end b" "buf_end b \<le> length buf" "length buf = bufferCapacity b"
    using wf buf by (auto simp: wf_recv_def)
  then have len: "length (unread b) = buf_end b - offset b" by (simp add: unread_def buf slice_length)
  show ?thesis
  proof (cases "buf_end b - offset b < 20")
    case True
    then show ?thesis using len
      by (simp add: next_packet_def take_packet_def Let_def usbmuxdPacketHeaderLength_def)
  next
    case False
    define size where "size = unpack_u32 bp (take 4 (drop (offset b + 16) buf))"
    have eq: "take 4 (drop 16 (unread b)) = take 4 (drop (offset b + 16) buf)"
      using False by (simp add: unread_def buf slice_def drop_take min_def add.commute)
    have hd: "unpack_header bp buf (offset b) = Some
        (map (\<lambda>i. unpack_u32 bp (take 4 (drop (offset b + 4 * i) buf))) [0..<5])"
      using False inv by (simp add: unpack_header_def)
    have h4: "map (\<lambda>i. unpack_u32 bp (take 4 (drop (offset b + 4 * i) buf))) [0..<5] ! 4 = size"
      by (simp add: size_def)
    have nxt: "next_packet bp b =
        (if size + 20 \<le> buf_end b - offset b then
           Some (utf8_decode (slice (offset b + 20) (offset b + 20 + size) buf),
             if offset b + 20 + size = buf_end b then b\<lparr>offset := 0, buf_end := 0\<rparr>
             else b\<lparr>offset := offset b + 20 + size\<rparr>)
         else None)"
      using False unfolding next_packet_def Let_def usbmuxdPacketHeaderLength_def
      by (simp add: buf hd h4 del: upt_Suc)
    have tk: "take_packet bp (unread b) = (if buf_end b - offset b < 20 + size then None
        else Some (utf8_decode (take size (drop 20 (unread b))), drop (20 + size) (unread b)))"
      by (simp add: take_packet_def Let_def eq size_def len)
    show ?thesis
    proof (cases "size + 20 \<le> buf_end b - offset b")
      case False
      then show ?thesis by (simp add: nxt tk)
    next
      case True
      then have "take size (drop 20 (unread b)) = slice (offset b + 20) (offset b + 20 + size) buf"
        by (simp add: unread_def buf slice_def drop_take min_def add.commute)
      moreover have "drop (20 + size) (unread b) = slice (offset b + 20 + size) (buf_end b) buf"
        using True by (simp add: unread_def buf slice_def drop_take add_ac diff_diff_add)
      ultimately have tk': "take_packet bp (unread b) =
          Some (utf8_decode (slice (offset b + 20) (offset b + 20 + size) buf), slice (offset b + 20 + size) (buf_end b) buf)"
        using True by (simp add: tk)
      show ?thesis using True wf inv unfolding tk'
        by (auto simp: nxt unread_def buf wf_recv_def slice_def)
    qed
  qed
qed

lemma stream_feed_stuck: "stream_feed bp hm u s = (r, s1) \<Longrightarrow> stream_feed bp hm r s2 = (r, s2)"
proof (induction bp hm u s rule: stream_feed.induct)
  case (1 bp hm u s)
  show ?case
  proof (cases "take_packet bp u")
    case None
    then show ?thesis using 1(2) by (simp add: stream_feed.simps)
  next
    case (Some p)
    then show ?thesis using 1 by (cases p) (simp add: stream_feed.simps [of bp hm u])
  qed
qed

lemma unpack_loop_ok:
  assumes "wf_recv b" "block b \<noteq> None" "unpack_loop bp hm b s = (b', s')"
  shows "wf_recv b' \<and> (unread b', s') = stream_feed bp hm (unread b) s"
  using assms
proof (induction bp hm b s rule: unpack_loop.induct)
  case (1 bp hm b s)
  note ok = next_packet_ok [OF 1(2,3), of bp]
  show ?case
  proof (cases "take_packet bp (unread b)")
    case None
    then have "stream_feed bp hm (unread b) s = (unread b, s)" by (simp add: stream_feed.simps)
    moreover have "b' = b \<and> s' = s" using ok 1(4) None by (simp add: unpack_loop.simps [of bp hm b])
    ultimately show ?thesis using 1(2) by simp
  next
    case (Some p)
    then obtain m r where p: "take_packet bp (unread b) = Some (m, r)" by (cases p) auto
    then obtain b1 where b1: "next_packet bp b = Some (m, b1)" "wf_recv b1" "block b1 \<noteq> None" "unread b1 = r"
      using ok by auto
    have "unpack_loop bp hm b1 (hm m s) = (b', s')"
      using 1(4) b1(1) by (simp add: unpack_loop.simps [of bp hm b])
    then have "wf_recv b' \<and> (unread b', s') = stream_feed bp hm r (hm m s)"
      using 1(1) [OF b1(1) refl b1(2,3)] b1(4) by simp
    then show ?thesis by (simp add: stream_feed.simps [of bp hm "unread b"] p)
  qed
qed

lemma handleUnpack_ok:
  assumes al: "alloc_law alloc" and wf: "wf_recv b"
  shows "\<exists>ok b' s'. handleUnpackMessage bp alloc hm data (b, s) = Some (ok, b', s') \<and>
    (ok \<longrightarrow> wf_recv b' \<and> (unread b', s') = stream_feed bp hm (unread b @ data) s) \<and>
    (\<not> ok \<longrightarrow> s' = s \<and> (\<exists>n. alloc n = None))"
proof -
  obtain ok1 b1 where l: "lazy_alloc alloc b = (ok1, b1)" by (cases "lazy_alloc alloc b")
  note l_ok = lazy_alloc_ok [OF al wf l]
  show ?thesis
  proof (cases ok1)
    case False
    then show ?thesis using l l_ok by (auto simp: handleUnpackMessage_def)
  next
    case True
    then have b1: "wf_recv b1" "unread b1 = unread b" "block b1 \<noteq> None" using l_ok by auto
    obtain ok2 b2 where m: "make_room alloc (length data) b1 = Some (ok2, b2)"
        "ok2 \<Longrightarrow> wf_recv b2 \<and> unread b2 = unread b1 \<and> buf_end b2 + length data \<le> bufferCapacity b2 \<and> block b2 \<noteq> None"
        "\<not> ok2 \<Longrightarrow> \<exists>k. alloc k = None"
      using make_room_ok [OF al b1(1,3), where n = "length data"] by blast
    show ?thesis
    proof (cases ok2)
      case False
      then show ?thesis using l m True by (auto simp: handleUnpackMessage_def)
    next
      case o2: True
      obtain b3 s3 where u: "unpack_loop bp hm (append_chunk data b2) s = (b3, s3)" by force
      have "wf_recv b3 \<and> (unread b3, s3) = stream_feed bp hm (unread b @ data) s"
        using append_chunk_ok [of b2 data] unpack_loop_ok [OF _ _ u] m(2) [OF o2] b1(2) by simp
      then show ?thesis using l m(1) True o2 u by (auto simp: handleUnpackMessage_def)
    qed
  qed
qed

text \<open>
  (C29) The receive buffer refines the byte stream.  Whatever the chunk, \<^verbatim>\<open>handleUnpackMessage\<close> returns: the
  loop that doubles the capacity and the loop over the packets end.  Unless an allocation throws, the
  buffer stays well-formed and the unread bytes and the handled messages are those of the
  specification, which appends the chunk to a list and takes the complete packets from its front; moving and
  reallocating the block is invisible.  When an allocation throws, no message was handled.
\<close>

theorem usb_buffer_refines:
  assumes al: "alloc_law alloc" and wf: "wf_recv b"
  shows "\<exists>ok b' s'. handleUnpackMessage bp alloc hm data (b, s) = Some (ok, b', s') \<and>
    (ok \<longrightarrow> wf_recv b' \<and> (unread b', s') = stream_feed bp hm (unread b @ data) s) \<and>
    (\<not> ok \<longrightarrow> s' = s \<and> (\<exists>n. alloc n = None))"
  by (rule handleUnpack_ok [OF al wf])

theorem usb_buffer_refines_witness:
  "\<exists>ok b' s'. handleUnpackMessage be_bufferpack (\<lambda>n. Some (replicate n CHR ''x'')) (\<lambda>m ms. ms @ [m]) ''ab'' (new_recv_buffer, [])
       = Some (ok, b', s') \<and>
    (ok \<longrightarrow> wf_recv b' \<and> (unread b', s') = stream_feed be_bufferpack (\<lambda>m ms. ms @ [m]) ''ab'' []) \<and>
    (\<not> ok \<longrightarrow> s' = [] \<and> (\<exists>n. (\<lambda>n. Some (replicate n CHR ''x'')) n = None))"
  using usb_buffer_refines [of "\<lambda>n. Some (replicate n CHR ''x'')" new_recv_buffer be_bufferpack "\<lambda>m ms. ms @ [m]" "''ab''" "[]"]
  by (simp add: alloc_law_def)

text \<open>
  (C31) The loop that enlarges the buffer.  From a positive capacity it ends, with the first of the doubled
  capacities that holds what is needed; from a capacity of zero it would not end.  The capacity is never
  zero, so the adapter never hangs on a large chunk.
\<close>

theorem grow_capacity_ends:
  "(0 < cap \<longrightarrow> (\<exists>k \<ge> 1. grow_capacity needed cap = Some (cap * 2 ^ k) \<and> needed \<le> cap * 2 ^ k \<and>
      (\<forall>j. 1 \<le> j \<and> j < k \<longrightarrow> cap * 2 ^ j < needed))) \<and>
   (cap = 0 \<and> 0 < needed \<longrightarrow> grow_capacity needed cap = None) \<and>
   (wf_recv b \<and> alloc_law alloc \<and> make_room alloc n b = Some (True, b') \<and> block b \<noteq> None \<longrightarrow> 0 < bufferCapacity b')"
proof (intro conjI impI)
  assume "0 < cap"
  then obtain k where k: "grow_capacity needed cap = Some (cap * 2 * 2 ^ k)" "needed \<le> cap * 2 * 2 ^ k"
      "\<forall>j < k. cap * 2 * 2 ^ j < needed"
    using doubling_loop [of "cap * 2" needed] unfolding grow_capacity_def by auto
  have "cap * 2 ^ j < needed" if "1 \<le> j \<and> j < Suc k" for j
    using that k(3) by (cases j) (auto simp: mult.assoc)
  then show "\<exists>k \<ge> 1. grow_capacity needed cap = Some (cap * 2 ^ k) \<and> needed \<le> cap * 2 ^ k \<and>
      (\<forall>j. 1 \<le> j \<and> j < k \<longrightarrow> cap * 2 ^ j < needed)"
    using k by (intro exI [of _ "Suc k"]) (simp add: mult.assoc)
next
  assume z: "cap = 0 \<and> 0 < needed"
  show "grow_capacity needed cap = None"
  proof (rule ccontr)
    assume "grow_capacity needed cap \<noteq> None"
    then obtain c where c: "while_option (\<lambda>c. c < needed) (\<lambda>c. c * 2) 0 = Some c"
      using z by (auto simp: grow_capacity_def)
    have "c = 0" by (rule while_option_rule [where P = "\<lambda>c. c = 0", OF _ c]) auto
    then show False using while_option_stop [OF c] z by simp
  qed
next
  assume a: "wf_recv b \<and> alloc_law alloc \<and> make_room alloc n b = Some (True, b') \<and> block b \<noteq> None"
  then have "wf_recv b'" by (elim conjE make_room_ok [where n = n]) auto
  then show "0 < bufferCapacity b'" by (simp add: wf_recv_def)
qed

theorem grow_capacity_ends_witness:
  "(\<exists>k \<ge> 1. grow_capacity 5000000 initialBufferCapacity = Some (initialBufferCapacity * 2 ^ k) \<and>
      5000000 \<le> initialBufferCapacity * 2 ^ k \<and> (\<forall>j. 1 \<le> j \<and> j < k \<longrightarrow> initialBufferCapacity * 2 ^ j < 5000000)) \<and>
   grow_capacity 1 0 = None"
  using grow_capacity_ends [of initialBufferCapacity 5000000] grow_capacity_ends [of 0 1] by simp

section \<open>Packets end to end\<close>

lemma take_packet_append: "take_packet bp u = Some (m, r) \<Longrightarrow> take_packet bp (u @ d) = Some (m, r @ d)"
  by (auto simp: take_packet_def Let_def split: if_splits)

lemma stream_feed_append:
  "stream_feed bp hm (u @ d) s = (case stream_feed bp hm u s of (r, s1) \<Rightarrow> stream_feed bp hm (r @ d) s1)"
proof (induction bp hm u s rule: stream_feed.induct)
  case (1 bp hm u s)
  show ?case
  proof (cases "take_packet bp u")
    case None
    then have "stream_feed bp hm u s = (u, s)" by (simp add: stream_feed.simps)
    then show ?thesis by simp
  next
    case (Some p)
    then obtain m r where p: "take_packet bp u = Some (m, r)" by (cases p) auto
    then show ?thesis using 1 [OF p refl] take_packet_append [OF p]
      by (simp add: stream_feed.simps [of bp hm u] stream_feed.simps [of bp hm "u @ d"])
  qed
qed

text \<open>The payload of a packet that is received as it was sent.\<close>

definition packable :: "js \<Rightarrow> bool" where
  "packable v \<longleftrightarrow> v \<noteq> Undefined \<and> length (show_js v) + 4 < 2 ^ 32 \<and> utf8_decode (show_js v) = show_js v"

lemma take_packet_packed:
  assumes "bufferpack_law bp" "packable v" "packMessage bp v = Some p"
  shows "take_packet bp (p @ d) = Some (show_js v, d)"
proof -
  let ?e = "show_js v"
  have l: "length (pack_u32 bp n) = 4" "unpack_u32 bp (pack_u32 bp n) = n" if "n < 2 ^ 32" for n
    using assms(1) that by (auto simp: bufferpack_law_def)
  have n: "length ?e + 4 < 2 ^ 32" using assms(2) by (simp add: packable_def)
  have lens: "length (pack_u32 bp 1) = 4" "length (pack_u32 bp 101) = 4" "length (pack_u32 bp 0) = 4"
      "length (pack_u32 bp (length ?e + 4)) = 4" "length (pack_u32 bp (length ?e)) = 4"
    using n by (simp_all add: l)
  let ?h = "pack_u32 bp 1 @ pack_u32 bp 101 @ pack_u32 bp 0 @ pack_u32 bp (length ?e + 4)"
  have h: "length ?h = 16" using lens by simp
  have p: "p = ?h @ pack_u32 bp (length ?e) @ ?e"
    using assms(2,3) by (auto simp: packMessage_def json_stringify_def packable_def split: if_splits)
  have "take 4 (drop 16 (p @ d)) = pack_u32 bp (length ?e)" unfolding p using lens by simp
  moreover have "drop 20 (p @ d) = ?e @ d" unfolding p using lens by simp
  moreover have "length (p @ d) = 20 + length ?e + length d" unfolding p using lens by simp
  moreover have "drop (20 + length ?e) (p @ d) = d" unfolding p using lens by simp
  ultimately show ?thesis using assms(2) n
    by (simp add: take_packet_def l packable_def)
qed

lemma stream_feed_packed:
  assumes "bufferpack_law bp" "\<forall>v \<in> set vs. packable v" "map (packMessage bp) vs = map Some ps"
  shows "stream_feed bp hm (concat ps @ d) s = stream_feed bp hm d (fold hm (map show_js vs) s)"
  using assms(2,3)
proof (induction vs arbitrary: ps s)
  case (Cons v vs)
  then obtain p ps' where ps: "ps = p # ps'" "packMessage bp v = Some p" by (cases ps) auto
  have "take_packet bp (concat ps @ d) = Some (show_js v, concat ps' @ d)"
    using take_packet_packed [OF assms(1) _ ps(2)] Cons.prems(1) by (simp add: ps(1))
  then show ?case using Cons ps by (simp add: stream_feed.simps [of bp hm "p @ concat ps' @ d"])
qed simp

fun unpack_chunks where
  "unpack_chunks bp alloc hm [] bs = Some (True, bs)"
| "unpack_chunks bp alloc hm (d # ds) bs =
     (case handleUnpackMessage bp alloc hm d bs of
        None \<Rightarrow> None
      | Some (ok, bs') \<Rightarrow> if ok then unpack_chunks bp alloc hm ds bs' else Some (False, bs'))"

lemma unpack_total:
  assumes "alloc_law alloc" "\<forall>n. alloc n \<noteq> None" "wf_recv b"
  obtains b' s' where "handleUnpackMessage bp alloc hm d (b, s) = Some (True, b', s')" "wf_recv b'"
    "(unread b', s') = stream_feed bp hm (unread b @ d) s"
  using handleUnpack_ok [OF assms(1,3), of bp hm d s] assms(2) by (metis (full_types))

lemma unpack_chunks_stream:
  assumes "alloc_law alloc" "\<forall>n. alloc n \<noteq> None" "wf_recv b"
  shows "\<exists>b' s'. unpack_chunks bp alloc hm ds (b, s) = Some (True, b', s') \<and> wf_recv b' \<and>
    (unread b', s') = (if ds = [] then (unread b, s) else stream_feed bp hm (unread b @ concat ds) s)"
  using assms(3)
proof (induction ds arbitrary: b s)
  case (Cons d ds)
  obtain b1 s1 where 1: "handleUnpackMessage bp alloc hm d (b, s) = Some (True, b1, s1)" "wf_recv b1"
      "(unread b1, s1) = stream_feed bp hm (unread b @ d) s"
    by (rule unpack_total [OF assms(1,2) Cons.prems])
  have "stream_feed bp hm (unread b @ d @ concat ds) s = stream_feed bp hm (unread b1 @ concat ds) s1"
    using stream_feed_append [of bp hm "unread b @ d" "concat ds" s] 1(3) [symmetric] by simp
  moreover have "stream_feed bp hm (unread b1) s1 = (unread b1, s1)"
    using stream_feed_stuck [OF 1(3) [symmetric]] .
  ultimately show ?case using Cons.IH [OF 1(2), of s1] 1 by (auto split: if_splits)
qed simp

text \<open>
  (C30) A USB connection carries messages.  When one side writes the packets of \<open>vs\<close> and the other receives
  the same bytes in any chunks, \<^verbatim>\<open>handleMessage\<close> is called with the JSON text of each message, in order and
  once, and no byte is left over; the text parses to the message.
\<close>

theorem usb_packets_roundtrip:
  assumes "bufferpack_law bp" "alloc_law alloc" "\<forall>n. alloc n \<noteq> None"
    and vs: "\<forall>v \<in> set vs. packable v \<and> wf_json v" "map (packMessage bp) vs = map Some ps"
    and cs: "concat ds = concat ps"
  shows "(\<exists>b'. unpack_chunks bp alloc (\<lambda>m ms. ms @ [m]) ds (new_recv_buffer, []) = Some (True, b', map show_js vs) \<and>
      unread b' = []) \<and> map (json_parse \<circ> show_js) vs = map Some vs"
proof
  let ?hm = "\<lambda>m ms. ms @ [m :: string]"
  have f: "fold ?hm xs ys = ys @ xs" for xs ys by (induction xs arbitrary: ys) auto
  have e: "stream_feed bp ?hm [] s = ([], s)" for s
    by (simp add: stream_feed.simps take_packet_def Let_def)
  obtain b' s' where u: "unpack_chunks bp alloc ?hm ds (new_recv_buffer, []) = Some (True, b', s')"
      "(unread b', s') = (if ds = [] then ([], []) else stream_feed bp ?hm (concat ds) [])"
    using unpack_chunks_stream [OF assms(2,3) wf_new_recv(1), of bp ?hm ds "[]"] by auto
  have "stream_feed bp ?hm (concat ps) [] = ([], map show_js vs)"
    using stream_feed_packed [OF assms(1) _ vs(2), of ?hm "[]" "[]"] vs(1) by (simp add: e f)
  moreover have "concat ps = [] \<Longrightarrow> map show_js vs = []" using calculation e [of "[]"] by (metis prod.inject)
  ultimately show "\<exists>b'. unpack_chunks bp alloc ?hm ds (new_recv_buffer, []) = Some (True, b', map show_js vs) \<and>
      unread b' = []"
    using u cs by (auto split: if_splits)
  show "map (json_parse \<circ> show_js) vs = map Some vs"
    using vs(1) by (auto simp: json_roundtrip)
qed


theorem usb_packets_roundtrip_witness:
  "let p = the (packMessage be_bufferpack (Obj [(''event'', Str ''Initialize'')])) in
   \<exists>b'. unpack_chunks be_bufferpack (\<lambda>n. Some (replicate n CHR ''x'')) (\<lambda>m ms. ms @ [m]) [take 3 p, drop 3 p]
       (new_recv_buffer, []) = Some (True, b', [show_js (Obj [(''event'', Str ''Initialize'')])]) \<and>
     unread b' = []"
proof -
  let ?v = "Obj [(''event'', Str ''Initialize'')]"
  let ?p = "the (packMessage be_bufferpack ?v)"
  have "packable ?v" by (simp add: packable_def show_string_def escape_char_def utf8_tail_def Let_def)
  moreover have "wf_json ?v" by simp
  moreover have "packMessage be_bufferpack ?v = Some ?p" by (simp add: packMessage_def json_stringify_def)
  ultimately show ?thesis
    using usb_packets_roundtrip [of be_bufferpack "\<lambda>n. Some (replicate n CHR ''x'')" "[?v]" "[?p]" "[take 3 ?p, drop 3 ?p]"]
      be_bufferpack_law
    unfolding Let_def by (simp add: alloc_law_def del: show_js.simps)
qed

end
