(* ===== verification/Usb_Connection.thy ===== *)
theory Usb_Connection
  imports Usb_Framing Js_Number
begin

text \<open>
  The connection object of a USB client (\<^verbatim>\<open>usb/Connection.ts\<close> and \<^verbatim>\<open>usb/USBConnection.ts\<close>): the requests that
  wait for a response, by the name they are matched with, and the listeners of its events.  The
  promise of a request and a listener are numbers.  The trace and log output are left out.
\<close>

section \<open>Text of a value\<close>

text \<open>
  \<^verbatim>\<open>String(v)\<close> of a value that came out of \<^verbatim>\<open>JSON.parse\<close>; \<open>None\<close>: the conversion throws, because the object has
  a property \<^verbatim>\<open>toString\<close>, which is not a function.
\<close>

fun js_text :: "js \<Rightarrow> string option" where
  "js_text Undefined = Some ''undefined''"
| "js_text Null = Some ''null''"
| "js_text (Bool b) = Some (if b then ''true'' else ''false'')"
| "js_text (Num (Fin q)) = Some (show_rat q)"
| "js_text (Num NaN) = Some ''NaN''"
| "js_text (Num (Infinity neg)) = Some (if neg then ''-Infinity'' else ''Infinity'')"
| "js_text (Str s) = Some s"
| "js_text (Arr xs) =
     map_option commas (those (map (\<lambda>x. if x = Undefined \<or> x = Null then Some [] else js_text x) xs))"
| "js_text (Obj ps) = (if map_has ps ''toString'' then None else Some ''[object Object]'')"

text \<open>\<^verbatim>\<open>JSON.parse(v)\<close>, which converts its argument first\<close>

definition json_parse_value :: "js \<Rightarrow> js option" where
  "json_parse_value v = Option.bind (js_text v) json_parse"

section \<open>Connections\<close>

record event_listener =
  el_event :: string
  el_callback :: nat
  el_once :: bool

record usb_connection =
  co_socket :: nat
  pendingRequests :: "(string, nat) jsmap"
  co_listeners :: "event_listener list"

definition new_USBConnection :: "nat \<Rightarrow> usb_connection" where
  "new_USBConnection s = \<lparr>co_socket = s, pendingRequests = [], co_listeners = []\<rparr>"

definition co_on :: "string \<Rightarrow> nat \<Rightarrow> usb_connection \<Rightarrow> usb_connection" where
  "co_on ev cb c = c\<lparr>co_listeners := co_listeners c @ [\<lparr>el_event = ev, el_callback = cb, el_once = False\<rparr>]\<rparr>"

definition co_once :: "string \<Rightarrow> nat \<Rightarrow> usb_connection \<Rightarrow> usb_connection" where
  "co_once ev cb c = c\<lparr>co_listeners := co_listeners c @ [\<lparr>el_event = ev, el_callback = cb, el_once = True\<rparr>]\<rparr>"

text \<open>\<^verbatim>\<open>off\<close> removes the listener that was added last.\<close>

fun remove_last :: "('a \<Rightarrow> bool) \<Rightarrow> 'a list \<Rightarrow> 'a list" where
  "remove_last P [] = []"
| "remove_last P (x # xs) = (if P x \<and> \<not> list_ex P xs then xs else x # remove_last P xs)"

definition co_off :: "string \<Rightarrow> nat \<Rightarrow> usb_connection \<Rightarrow> usb_connection" where
  "co_off ev cb c = c\<lparr>co_listeners := remove_last (\<lambda>l. el_event l = ev \<and> el_callback l = cb) (co_listeners c)\<rparr>"

definition co_onAllEvents :: "nat \<Rightarrow> usb_connection \<Rightarrow> usb_connection" where
  "co_onAllEvents cb = co_on ''all-cdp-message'' cb"

definition co_offAllEvents :: "nat \<Rightarrow> usb_connection \<Rightarrow> usb_connection" where
  "co_offAllEvents cb = co_off ''all-cdp-message'' cb"

text \<open>\<^verbatim>\<open>events.emit\<close>: the listeners that are called, in order; those added with \<^verbatim>\<open>once\<close> are gone afterwards.\<close>

definition co_emit :: "string \<Rightarrow> usb_connection \<Rightarrow> nat list \<times> usb_connection" where
  "co_emit ev c =
     (map el_callback (filter (\<lambda>l. el_event l = ev) (co_listeners c)),
      c\<lparr>co_listeners := filter (\<lambda>l. \<not> (el_event l = ev \<and> el_once l)) (co_listeners c)\<rparr>)"

definition matchPendingRequest :: "js \<Rightarrow> usb_connection \<Rightarrow> nat option \<times> usb_connection" where
  "matchPendingRequest i c =
     (case i of
        Str k \<Rightarrow> (case map_of (pendingRequests c) k of
                    None \<Rightarrow> (None, c)
                  | Some p \<Rightarrow> (Some p, c\<lparr>pendingRequests := AList.delete k (pendingRequests c)\<rparr>))
      | _ \<Rightarrow> (None, c))"

text \<open>
  \<^verbatim>\<open>sendExpectResponse\<close> up to the call of \<^verbatim>\<open>send\<close>: the promise \<open>p\<close> is stored under the name the response will
  carry (the type of a message is a string, as its TypeScript type says).  The flag is \<open>False\<close> when the
  executor throws, which rejects the promise.
\<close>

definition request_key :: "js \<Rightarrow> js \<Rightarrow> string option option" where
  "request_key event data =
     (if event = Str ''Initialize'' then Some (Some ''Initialize'')
      else if event = Str ''Customized'' then
        if data = Undefined \<or> data = Null then None
        else if jget data ''type'' = Str ''CDP'' \<or> jget data ''type'' = Str ''App'' then
          (let i = jget (jget (jget data ''data'') ''message'') ''id'' in
           if i = Undefined \<or> i = Null then None else map_option Some (js_text i))
        else (case jget data ''type'' of Str t \<Rightarrow> Some (Some t) | _ \<Rightarrow> Some None)
      else Some None)"

definition sendExpectResponse :: "nat \<Rightarrow> js \<Rightarrow> usb_connection \<Rightarrow> bool \<times> usb_connection" where
  "sendExpectResponse p require c =
     (case request_key (jget require ''event'') (jget require ''data'') of
        None \<Rightarrow> (False, c)
      | Some None \<Rightarrow> (True, c)
      | Some (Some k) \<Rightarrow> (True, c\<lparr>pendingRequests := AList.update k p (pendingRequests c)\<rparr>))"

end
