(* ===== verification/Physical_World.thy ===== *)
theory Physical_World
  imports Usb_Connection
begin

text \<open>
  The device side of the daemon: the physical connector (\<^verbatim>\<open>physical/PhysicalConnector.ts\<close>), the devices
  (\<^verbatim>\<open>device/BaseDevice.ts\<close>), their client controllers (\<^verbatim>\<open>usb/ClientController.ts\<close>), the adapters that own the
  sockets (\<^verbatim>\<open>usb/ClientAdapter.ts\<close>) and the base class of the device managers (\<^verbatim>\<open>device/DeviceManager.ts\<close>).

  The objects refer to each other, so the state \<open>world\<close> holds them in stores indexed by references.  The
  events the physical connector emits, the calls of listeners, the promises it resolves and the bytes it
  writes are the field \<open>out\<close>, in order.  The listeners of the daemon host do not call back synchronously;
  the only listeners that act on this state are the waiting queries (\<open>waiters\<close>).  An exception in an
  asynchronous method that nobody awaits sets \<open>rejected\<close>: the daemon process then goes down
  (\<^verbatim>\<open>multiplexer/daemon/entry.ts\<close>).  Log output, telemetry and the trace recorder are left out.
\<close>

section \<open>State\<close>

text \<open>
  The socket of an adapter: \<open>Tunnelling\<close> while the tunnel of an iOS adapter is being opened, \<open>Open\<close> when it is
  \<^verbatim>\<open>writable\<close>, \<open>Ended\<close> after \<^verbatim>\<open>end()\<close>, \<open>Gone\<close> after \<^verbatim>\<open>destroy()\<close>.
\<close>

datatype sock = Fresh | Connecting | Tunnelling | Open | Ended | Gone

record adapter =
  ad_listener :: "nat option"
  ad_port :: int
  ad_device :: string
  ad_device_id :: string
  ad_type :: string
  ad_host :: string
  ad_recv :: recv_buffer
  ad_sock :: sock
  ad_isConnected :: bool
  ad_connection :: "nat option"
  ad_id :: int

record usb_client =
  cl_id :: int
  cl_port :: int
  cl_query :: js
  cl_connection :: nat

text \<open>What \<^verbatim>\<open>checkClientPort\<close> found before it waits for the probe of a port.\<close>

datatype probe = NotConnected | NotForwarded | Probing int

record controller =
  ctl_device :: nat
  ctl_timer :: bool
  ctl_watching :: bool
  ctl_scanning :: bool
  ctl_scan :: "(int \<times> probe \<times> int list) option"  \<comment> \<open>the port being probed and the ports after it\<close>
  ctl_sockets :: "(int, nat) jsmap"
  ctl_ports :: "(int, bool) jsmap"
  ctl_clientInfos :: "(int, int) jsmap"
  ctl_connections :: "(int, usb_client) jsmap"

record device =
  dev_serial :: string
  dev_title :: string
  dev_os :: string
  dev_host :: string
  dev_ports :: "int list"
  dev_connected :: bool
  dev_forwarded :: "(int, int) jsmap"  \<comment> \<open>\<^verbatim>\<open>AndroidDevice.forwardedPorts\<close>\<close>
  dev_controller :: "nat option"

datatype watch_status = StopWatching | PrepareToWatch | Watching

datatype manager_kind =
    AndroidManager string int
  | HarmonyManager string int
  | IOSManager
  | DesktopManager
  | NetworkManager string "int list option"

record manager =
  mg_kind :: manager_kind
  mg_managedDevices :: "(string, nat) jsmap"
  mg_closed :: bool
  mg_retryTimer :: bool
  mg_status :: watch_status
  mg_retryCount :: nat
  mg_client :: bool
  mg_tracker :: bool
  ios_listener :: "nat option"
  ios_status :: "(nat, watch_status) jsmap"  \<comment> \<open>of the status sockets, by their number\<close>
  ios_tunnels :: "nat jsset"

datatype waiter =
    WaitDevice "string option" nat
  | WaitDeviceClient string "string option" nat
  | WaitAnyClient string nat

datatype phys_out =
    DeviceConnected string
  | DeviceDisconnected string
  | ClientConnected int
  | ClientDisconnected int
  | AppClientConnected int
  | AppClientDisconnected int
  | UsbClientMessage int string
  | ConnectorErrorEvent js
  | AnswerDevices nat "string list"
  | AnswerClients nat "int list"
  | ResolveRequest nat js
  | CallListener nat "js list"
  | WriteSocket nat string
  | UnhandledRejection

record world =
  out :: "phys_out list"
  devices :: "(string, nat) jsmap"
  usbClients :: "(int, usb_client) jsmap"
  nextClientId :: int
  usbRetryTime :: "int option"
  manual_connect :: bool
  ph_closed :: bool
  devicesManager :: "nat jsset"
  waiters :: "(nat, waiter) jsmap"
  wait_timers :: "(nat, waiter) jsmap"
  dev_store :: "nat \<rightharpoonup> device"
  ctl_store :: "nat \<rightharpoonup> controller"
  ad_store :: "nat \<rightharpoonup> adapter"
  conn_store :: "nat \<rightharpoonup> usb_connection"
  mgr_store :: "nat \<rightharpoonup> manager"
  next_ref :: nat
  rejected :: bool

definition new_world :: world where
  "new_world =
     \<lparr>out = [], devices = [], usbClients = [], nextClientId = 0, usbRetryTime = None, manual_connect = True,
      ph_closed = False, devicesManager = [], waiters = [], wait_timers = [], dev_store = Map.empty,
      ctl_store = Map.empty, ad_store = Map.empty, conn_store = Map.empty, mgr_store = Map.empty, next_ref = 0,
      rejected = False\<rparr>"

text \<open>Assignments to the fields of the object at a reference.\<close>

definition modify :: "nat \<Rightarrow> ('a \<Rightarrow> 'a) \<Rightarrow> (nat \<rightharpoonup> 'a) \<Rightarrow> (nat \<rightharpoonup> 'a)" where
  "modify r f m = (case m r of None \<Rightarrow> m | Some x \<Rightarrow> m(r \<mapsto> f x))"

abbreviation set_ad :: "nat \<Rightarrow> (adapter \<Rightarrow> adapter) \<Rightarrow> world \<Rightarrow> world" where
  "set_ad a f w \<equiv> w\<lparr>ad_store := modify a f (ad_store w)\<rparr>"

abbreviation set_ctl :: "nat \<Rightarrow> (controller \<Rightarrow> controller) \<Rightarrow> world \<Rightarrow> world" where
  "set_ctl c f w \<equiv> w\<lparr>ctl_store := modify c f (ctl_store w)\<rparr>"

abbreviation set_dev :: "nat \<Rightarrow> (device \<Rightarrow> device) \<Rightarrow> world \<Rightarrow> world" where
  "set_dev d f w \<equiv> w\<lparr>dev_store := modify d f (dev_store w)\<rparr>"

abbreviation set_conn :: "nat \<Rightarrow> (usb_connection \<Rightarrow> usb_connection) \<Rightarrow> world \<Rightarrow> world" where
  "set_conn c f w \<equiv> w\<lparr>conn_store := modify c f (conn_store w)\<rparr>"

abbreviation set_mgr :: "nat \<Rightarrow> (manager \<Rightarrow> manager) \<Rightarrow> world \<Rightarrow> world" where
  "set_mgr m f w \<equiv> w\<lparr>mgr_store := modify m f (mgr_store w)\<rparr>"

definition say :: "phys_out \<Rightarrow> world \<Rightarrow> world" where
  "say x w = w\<lparr>out := out w @ [x]\<rparr>"

text \<open>An exception in an asynchronous method whose promise nobody holds.\<close>

definition unhandled :: "world \<Rightarrow> world" where
  "unhandled w = (say UnhandledRejection w)\<lparr>rejected := True\<rparr>"

section \<open>The physical connector: clients\<close>

definition findDevice :: "string option \<Rightarrow> world \<Rightarrow> string list" where
  "findDevice serial w =
     (case serial of None \<Rightarrow> map_keys (devices w) | Some s \<Rightarrow> filter (\<lambda>k. k = s) (map_keys (devices w)))"

definition client_deviceId :: "usb_client \<Rightarrow> js" where
  "client_deviceId cl = jget (cl_query cl) ''device_id''"

fun contains_text :: "string \<Rightarrow> string \<Rightarrow> bool" where
  "contains_text p [] = (p = [])"
| "contains_text p (c # s) = (prefix p (c # s) \<or> contains_text p s)"

text \<open>\<^verbatim>\<open>device_model?.indexOf("iPhone") !== -1\<close>; \<open>None\<close>: there is no such method and the call throws.\<close>

fun is_iphone :: "js \<Rightarrow> bool option" where
  "is_iphone Undefined = Some True"
| "is_iphone Null = Some True"
| "is_iphone (Str s) = Some (contains_text ''iPhone'' s)"
| "is_iphone (Arr xs) = Some (Str ''iPhone'' \<in> set xs)"
| "is_iphone _ = None"

definition isTargetClient :: "usb_client \<Rightarrow> string option \<Rightarrow> bool option" where
  "isTargetClient cl clientName =
     (case clientName of
        None \<Rightarrow> Some False
      | Some name \<Rightarrow>
          let q = cl_query cl; raw = jget q ''raw_info'' in
          if jget q ''os'' = Str ''Android'' \<and> jget raw ''AppProcessName'' = Str name then Some True
          else map_option (\<lambda>b. b \<and> jget raw ''App'' = Str name) (is_iphone (jget q ''device_model'')))"

text \<open>\<open>None\<close>: the predicate throws for one of the clients.\<close>

fun filter_targets :: "string option \<Rightarrow> usb_client list \<Rightarrow> usb_client list option" where
  "filter_targets name [] = Some []"
| "filter_targets name (cl # cls) =
     (case isTargetClient cl name of
        None \<Rightarrow> None
      | Some b \<Rightarrow> map_option (\<lambda>r. if b then cl # r else r) (filter_targets name cls))"

definition findUsbClient :: "string option \<Rightarrow> usb_client list \<Rightarrow> usb_client list option" where
  "findUsbClient name cls = (case name of None \<Rightarrow> Some cls | Some _ \<Rightarrow> filter_targets name cls)"

definition clients_of :: "string \<Rightarrow> world \<Rightarrow> usb_client list" where
  "clients_of deviceId w = filter (\<lambda>cl. client_deviceId cl = Str deviceId) (map_values (usbClients w))"

text \<open>
  The waiting queries are called in the order they were registered.  The flag is \<open>False\<close> when a callback
  throws, which ends \<^verbatim>\<open>emit\<close>.
\<close>

fun call_device_waiters :: "string \<Rightarrow> (nat \<times> waiter) list \<Rightarrow> world \<Rightarrow> world" where
  "call_device_waiters serial [] w = w"
| "call_device_waiters serial ((k, x) # rest) w =
     call_device_waiters serial rest
       (case x of
          WaitDevice s p \<Rightarrow>
            if s = Some serial
            then (say (AnswerDevices p [serial]) w)\<lparr>waiters := AList.delete k (waiters w)\<rparr> else w
        | _ \<Rightarrow> w)"

fun call_client_waiters :: "usb_client \<Rightarrow> (nat \<times> waiter) list \<Rightarrow> world \<Rightarrow> bool \<times> world" where
  "call_client_waiters cl [] w = (True, w)"
| "call_client_waiters cl ((k, x) # rest) w =
     (case x of
        WaitDeviceClient d name p \<Rightarrow>
          if client_deviceId cl \<noteq> Str d then call_client_waiters cl rest w
          else (case isTargetClient cl name of
                  None \<Rightarrow> (False, w)
                | Some False \<Rightarrow> call_client_waiters cl rest w
                | Some True \<Rightarrow>
                    call_client_waiters cl rest
                      ((say (AnswerClients p [cl_id cl]) w)\<lparr>waiters := AList.delete k (waiters w)\<rparr>))
      | WaitAnyClient d p \<Rightarrow>
          if client_deviceId cl = Str d then call_client_waiters cl rest (say (AnswerClients p [cl_id cl]) w)
          else call_client_waiters cl rest w
      | WaitDevice _ _ \<Rightarrow> call_client_waiters cl rest w)"

definition createClientId :: "world \<Rightarrow> int \<times> world" where
  "createClientId w =
     (if nextClientId w > 4294967294 then (-1, w)
      else (nextClientId w + 1, w\<lparr>nextClientId := nextClientId w + 1\<rparr>))"

text \<open>The flag is \<open>False\<close> when a listener of \<^verbatim>\<open>client-connected\<close> throws.\<close>

definition regiserUsbClient :: "usb_client \<Rightarrow> world \<Rightarrow> bool \<times> world" where
  "regiserUsbClient cl w =
     (if map_has (usbClients w) (cl_id cl) then (True, w)
      else
        let w1 = say (ClientConnected (cl_id cl)) (w\<lparr>usbClients := AList.update (cl_id cl) cl (usbClients w)\<rparr>)
        in case call_client_waiters cl (waiters w1) w1 of
             (False, w2) \<Rightarrow> (False, w2)
           | (True, w2) \<Rightarrow> (True, say (AppClientConnected (cl_id cl)) w2))"

definition unregiserUsbClient :: "int \<Rightarrow> world \<Rightarrow> world" where
  "unregiserUsbClient i w =
     (if \<not> map_has (usbClients w) i then w
      else say (AppClientDisconnected i)
             (say (ClientDisconnected i) (w\<lparr>usbClients := AList.delete i (usbClients w)\<rparr>)))"

section \<open>The client controller: connections\<close>

text \<open>\<open>None\<close>: an exception of a listener propagates.\<close>

definition addConnection :: "nat \<Rightarrow> nat \<Rightarrow> int \<Rightarrow> js \<Rightarrow> world \<Rightarrow> int option \<times> world" where
  "addConnection c cn port query w =
     (case createClientId w of
        (i, w1) \<Rightarrow>
          (case ctl_store w1 c of
             None \<Rightarrow> (None, w1)
           | Some ctl \<Rightarrow>
               if map_has (ctl_connections ctl) i then (Some i, w1)
               else
                 let cl = \<lparr>cl_id = i, cl_port = port, cl_query = query, cl_connection = cn\<rparr>;
                     w2 = set_ctl c (\<lambda>k. k\<lparr>ctl_connections := AList.update i cl (ctl_connections k),
                                           ctl_ports := AList.update port True (ctl_ports k),
                                           ctl_clientInfos := AList.update i port (ctl_clientInfos k)\<rparr>) w1
                 in case regiserUsbClient cl w2 of
                      (ok, w3) \<Rightarrow> (if ok then Some i else None, w3)))"

definition removeConnection :: "nat \<Rightarrow> int \<Rightarrow> world \<Rightarrow> world" where
  "removeConnection c i w =
     (let w1 = set_ctl c (\<lambda>k. k\<lparr>ctl_connections := AList.delete i (ctl_connections k)\<rparr>) w;
          w2 = set_ctl c (\<lambda>k. case map_of (ctl_clientInfos k) i of
                                None \<Rightarrow> k
                              | Some port \<Rightarrow>
                                  if port = 0 then k
                                  else k\<lparr>ctl_ports := AList.update port False (ctl_ports k),
                                         ctl_clientInfos := AList.delete i (ctl_clientInfos k)\<rparr>) w1
      in unregiserUsbClient i w2)"

fun remove_connections :: "nat \<Rightarrow> int list \<Rightarrow> world \<Rightarrow> world" where
  "remove_connections c [] w = w"
| "remove_connections c (i # is) w = remove_connections c is (removeConnection c i w)"

definition closeAllConnection :: "nat \<Rightarrow> world \<Rightarrow> world" where
  "closeAllConnection c w =
     (case ctl_store w c of
        None \<Rightarrow> w
      | Some ctl \<Rightarrow> remove_connections c (map_keys (ctl_connections ctl)) w)"

section \<open>The adapter\<close>

definition destroy_adapter :: "nat \<Rightarrow> world \<Rightarrow> world" where
  "destroy_adapter a =
     set_ad a (\<lambda>x. x\<lparr>ad_listener := None, ad_sock := Gone, ad_recv := (ad_recv x)\<lparr>block := None\<rparr>,
                     ad_connection := None\<rparr>)"

definition handleOff :: "nat \<Rightarrow> world \<Rightarrow> world" where
  "handleOff a w =
     (case ad_store w a of
        None \<Rightarrow> w
      | Some x \<Rightarrow>
          let w1 = set_ad a (\<lambda>x. x\<lparr>ad_isConnected := False, ad_sock := Gone\<rparr>) w in
          case ad_listener x of None \<Rightarrow> w1 | Some c \<Rightarrow> removeConnection c (ad_id x) w1)"

definition initialize_message :: js where
  "initialize_message = Obj [(''event'', Str ''Initialize''), (''data'', int_num (-1))]"

definition write_socket :: "bufferpack \<Rightarrow> nat \<Rightarrow> js \<Rightarrow> world \<Rightarrow> world" where
  "write_socket bp a v w = (case packMessage bp v of None \<Rightarrow> w | Some bytes \<Rightarrow> say (WriteSocket a bytes) w)"

text \<open>The connection is established: \<^verbatim>\<open>onConnect\<close>.\<close>

definition onConnect :: "bufferpack \<Rightarrow> nat \<Rightarrow> world \<Rightarrow> world" where
  "onConnect bp a w =
     (case ad_store w a of
        None \<Rightarrow> w
      | Some x \<Rightarrow> if ad_sock x = Open then write_socket bp a initialize_message w else w)"

text \<open>\<^verbatim>\<open>connect\<close>; for iOS the tunnel is opened asynchronously.\<close>

definition connect_adapter :: "nat \<Rightarrow> world \<Rightarrow> world" where
  "connect_adapter a w =
     set_ad a (\<lambda>x. if ad_isConnected x \<or> ad_sock x = Connecting then x
                   else x\<lparr>ad_sock := (if ad_type x = ''iOS'' then Tunnelling else Connecting)\<rparr>) w"

definition client_query :: "adapter \<Rightarrow> js \<Rightarrow> js" where
  "client_query x result =
     (let model = nullish (jget result ''deviceModel'') (Str [])
      in Obj [(''app'', nullish (jget result ''App'') (Str ''Unknow'')),
              (''os'', Str (ad_type x)), (''device'', Str (ad_device x)),
              (''device_model'', if ad_type x = ''Mac'' \<and> model = Str ''iPhone'' then Str ''iPhone_FromMac'' else model),
              (''device_id'', Str (ad_device_id x)),
              (''sdk_version'', nullish (jget result ''sdkVersion'') (Str ''0.0.0'')),
              (''raw_info'', result)])"

definition register_client :: "nat \<Rightarrow> js \<Rightarrow> world \<Rightarrow> world" where
  "register_client a result w =
     (case ad_store w a of
        None \<Rightarrow> w
      | Some x \<Rightarrow>
          (case ad_listener x of
             None \<Rightarrow> w
           | Some c \<Rightarrow>
               let cn = next_ref w;
                   w1 = w\<lparr>conn_store := (conn_store w)(cn \<mapsto> new_USBConnection a), next_ref := Suc cn\<rparr>;
                   w2 = set_ad a (\<lambda>x. x\<lparr>ad_connection := Some cn\<rparr>) w1
               in case addConnection c cn (ad_port x) (client_query x result) w2 of
                    (None, w3) \<Rightarrow> unhandled w3
                  | (Some i, w3) \<Rightarrow> set_ad a (\<lambda>x. x\<lparr>ad_id := i, ad_isConnected := True\<rparr>) w3))"

definition handleConnection :: "nat \<Rightarrow> string \<Rightarrow> world \<Rightarrow> world" where
  "handleConnection a message w =
     (case json_parse message of
        None \<Rightarrow> unhandled w
      | Some response \<Rightarrow>
          if jget response ''event'' = Str ''Register'' then
            let result = jget (jget response ''data'') ''info'' in
            if result = Undefined \<or> result = Null then unhandled w else register_client a result w
          else w)"

text \<open>\<^verbatim>\<open>this.connection.handleClientEvent\<close>; emitting \<^verbatim>\<open>error\<close> without a listener throws.\<close>

definition connection_event :: "nat \<Rightarrow> js \<Rightarrow> js \<Rightarrow> js \<Rightarrow> world \<Rightarrow> world" where
  "connection_event cn meth params session w =
     (case (conn_store w cn, js_text meth) of
        (None, _) \<Rightarrow> w
      | (Some k, None) \<Rightarrow> unhandled w
      | (Some k, Some ev) \<Rightarrow>
          (case co_emit ev k of
             (cbs, k1) \<Rightarrow>
               if meth = Str ''error'' \<and> cbs = [] then unhandled w
               else
                 (case co_emit ''all-cdp-message'' k1 of
                    (all, k2) \<Rightarrow>
                      fold say (map (\<lambda>cb. CallListener cb [params, session]) cbs @
                                map (\<lambda>cb. CallListener cb [meth, params, session]) all)
                        (set_conn cn (\<lambda>_. k2) w))))"

definition handleClientEvent :: "nat option \<Rightarrow> js \<Rightarrow> js \<Rightarrow> world \<Rightarrow> world" where
  "handleClientEvent cn message session_id w =
     (case json_parse_value message of
        None \<Rightarrow> unhandled w
      | Some response \<Rightarrow>
          if response = Null then unhandled w
          else if truthy (jget response ''method'') then
            (case cn of
               None \<Rightarrow> w
             | Some k \<Rightarrow>
                 connection_event k (jget response ''method'') (jget response ''params'')
                   (Obj [(''session_id'', if session_id = Undefined then int_num (-1) else session_id)]) w)
          else w)"

definition connection_sessionList :: "nat option \<Rightarrow> js \<Rightarrow> world \<Rightarrow> world" where
  "connection_sessionList cn sessions w =
     (case Option.bind cn (conn_store w) of
        None \<Rightarrow> w
      | Some k \<Rightarrow>
          (case co_emit ''SessionList'' k of
             (cbs, k1) \<Rightarrow> fold say (map (\<lambda>cb. CallListener cb [sessions]) cbs) (set_conn (the cn) (\<lambda>_. k1) w)))"

text \<open>A response is matched with the request that waits for it.\<close>

definition settle_request :: "nat option \<Rightarrow> js \<Rightarrow> js \<Rightarrow> world \<Rightarrow> world" where
  "settle_request cn key response w =
     (case Option.bind cn (conn_store w) of
        None \<Rightarrow> w
      | Some k \<Rightarrow>
          (case matchPendingRequest key k of
             (p, k1) \<Rightarrow>
               let w1 = set_conn (the cn) (\<lambda>_. k1) w in
               case p of None \<Rightarrow> w1 | Some q \<Rightarrow> say (ResolveRequest q response) w1))"

definition handle_cdp :: "nat option \<Rightarrow> js \<Rightarrow> js \<Rightarrow> world \<Rightarrow> world" where
  "handle_cdp cn data response w =
     (let payload = jget data ''data'' in
      if payload = Undefined \<or> payload = Null then unhandled w
      else case json_parse_value (jget payload ''message'') of
        None \<Rightarrow> unhandled w
      | Some cdpMessage \<Rightarrow>
          if truthy (jget cdpMessage ''id'') \<and> cn \<noteq> None then
            (case js_text (jget cdpMessage ''id'') of
               None \<Rightarrow> unhandled w
             | Some k \<Rightarrow> settle_request cn (Str k) response w)
          else if truthy (jget cdpMessage ''method'') then
            handleClientEvent cn (jget payload ''message'') (jget payload ''session_id'') w
          else w)"

definition handle_response :: "nat option \<Rightarrow> js \<Rightarrow> world \<Rightarrow> world" where
  "handle_response cn response w =
     (let data = jget response ''data''; type = jget data ''type'' in
      if response = Null then unhandled w
      else if jget response ''event'' \<noteq> Str ''Customized'' then w
      else if type = Str ''CDP'' \<or> type = Str ''App'' then handle_cdp cn data response w
      else if type = Str ''SessionList'' then connection_sessionList cn (jget data ''data'') w
      else if cn = None then w
      else if data = Undefined \<or> data = Null then unhandled w
      else settle_request cn type response w)"

definition handleMessage :: "nat \<Rightarrow> string \<Rightarrow> world \<Rightarrow> world" where
  "handleMessage a message w =
     (case ad_store w a of
        None \<Rightarrow> w
      | Some x \<Rightarrow>
          if \<not> ad_isConnected x then handleConnection a message w
          else
            let w1 = say (UsbClientMessage (ad_id x) message) w in
            case json_parse message of
              None \<Rightarrow> unhandled w1
            | Some response \<Rightarrow> handle_response (ad_connection x) response w1)"

text \<open>
  \<^verbatim>\<open>handleData\<close>: an exception ends the connection.  A loop that does not return would stop the daemon.
\<close>

definition ad_handleData :: "bufferpack \<Rightarrow> alloc \<Rightarrow> nat \<Rightarrow> string \<Rightarrow> world \<Rightarrow> world" where
  "ad_handleData bp alloc a data w =
     (case ad_store w a of
        None \<Rightarrow> w
      | Some x \<Rightarrow>
          (case handleUnpackMessage bp alloc (handleMessage a) data (ad_recv x, w) of
             None \<Rightarrow> w\<lparr>rejected := True\<rparr>
           | Some (ok, b, w1) \<Rightarrow>
               set_ad a (\<lambda>x. x\<lparr>ad_recv := b, ad_sock := (if ok then ad_sock x else Ended)\<rparr>) w1))"

section \<open>The client controller: watching\<close>

definition new_adapter :: "nat \<Rightarrow> device \<Rightarrow> int \<Rightarrow> adapter" where
  "new_adapter c d port =
     \<lparr>ad_listener = Some c, ad_port = port, ad_device = dev_title d, ad_device_id = dev_serial d, ad_type = dev_os d,
      ad_host = dev_host d, ad_recv = new_recv_buffer, ad_sock = Fresh, ad_isConnected = False,
      ad_connection = None, ad_id = 0\<rparr>"

text \<open>\<^verbatim>\<open>createAdapter\<close>: the reference of the new adapter and the world.\<close>

definition createAdapter :: "nat \<Rightarrow> int \<Rightarrow> world \<Rightarrow> nat \<times> world" where
  "createAdapter c port w =
     (case Option.bind (ctl_store w c) (\<lambda>k. dev_store w (ctl_device k)) of
        None \<Rightarrow> (next_ref w, w)
      | Some d \<Rightarrow>
          (next_ref w, w\<lparr>ad_store := (ad_store w)(next_ref w \<mapsto> new_adapter c d port), next_ref := Suc (next_ref w)\<rparr>))"

definition old_adapter :: "nat \<Rightarrow> int \<Rightarrow> world \<Rightarrow> nat option" where
  "old_adapter c port w = Option.bind (ctl_store w c) (\<lambda>k. map_of (ctl_sockets k) port)"

definition destroy_old :: "nat \<Rightarrow> int \<Rightarrow> world \<Rightarrow> world" where
  "destroy_old c port w = (case old_adapter c port w of None \<Rightarrow> w | Some a \<Rightarrow> destroy_adapter a w)"

definition open_port :: "nat \<Rightarrow> int \<Rightarrow> world \<Rightarrow> world" where
  "open_port c port w =
     (case createAdapter c port w of
        (a, w1) \<Rightarrow>
          connect_adapter a (set_ctl c (\<lambda>k. k\<lparr>ctl_sockets := AList.update port a (ctl_sockets k)\<rparr>) w1))"

definition port_taken :: "nat \<Rightarrow> int \<Rightarrow> world \<Rightarrow> bool" where
  "port_taken c port w = (Option.bind (ctl_store w c) (\<lambda>k. map_of (ctl_ports k) port) = Some True)"

definition watch_port :: "nat \<Rightarrow> int \<Rightarrow> world \<Rightarrow> world" where
  "watch_port c port w = (if port_taken c port w then w else open_port c port (destroy_old c port w))"

definition ports_of :: "nat \<Rightarrow> world \<Rightarrow> int list" where
  "ports_of c w = (case ctl_store w c of None \<Rightarrow> [] | Some k \<Rightarrow> map_keys (ctl_ports k))"

definition is_watching :: "nat \<Rightarrow> world \<Rightarrow> bool" where
  "is_watching c w = (case ctl_store w c of None \<Rightarrow> False | Some k \<Rightarrow> ctl_watching k)"

text \<open>
  \<^verbatim>\<open>watchAndroidClients\<close>: the loop runs to the next probe of a port, \<open>ctl_scan\<close>, or to its end, where
  \<^verbatim>\<open>scanning\<close> is reset.
\<close>

definition end_scan :: "nat \<Rightarrow> world \<Rightarrow> world" where
  "end_scan c = set_ctl c (\<lambda>k. k\<lparr>ctl_scanning := False, ctl_scan := None\<rparr>)"

definition device_of :: "nat \<Rightarrow> world \<Rightarrow> device option" where
  "device_of c w = Option.bind (ctl_store w c) (\<lambda>k. dev_store w (ctl_device k))"

text \<open>\<^verbatim>\<open>AndroidDevice.checkClientPort\<close> up to the probe, and after it.\<close>

definition checkClientPort :: "nat \<Rightarrow> int \<Rightarrow> world \<Rightarrow> probe" where
  "checkClientPort c port w =
     (case device_of c w of
        None \<Rightarrow> NotConnected
      | Some x \<Rightarrow>
          if \<not> dev_connected x then NotConnected
          else case map_of (dev_forwarded x) port of None \<Rightarrow> NotForwarded | Some remote \<Rightarrow> Probing remote)"

datatype check_result = CheckReady | CheckSkip | CheckPause

definition checked_port :: "nat \<Rightarrow> int \<Rightarrow> probe \<Rightarrow> check_result \<Rightarrow> world \<Rightarrow> check_result" where
  "checked_port c port pr r w =
     (case pr of
        NotConnected \<Rightarrow> CheckPause
      | NotForwarded \<Rightarrow> CheckSkip
      | Probing remote \<Rightarrow>
          (case device_of c w of
             None \<Rightarrow> CheckPause
           | Some x \<Rightarrow>
               if dev_connected x \<and> map_of (dev_forwarded x) port = Some remote then r else CheckPause))"

fun android_scan :: "nat \<Rightarrow> int list \<Rightarrow> world \<Rightarrow> world" where
  "android_scan c [] w = end_scan c w"
| "android_scan c (port # rest) w =
     (if \<not> is_watching c w then end_scan c w
      else if port_taken c port w then android_scan c rest w
      else set_ctl c (\<lambda>k. k\<lparr>ctl_sockets := AList.delete port (ctl_sockets k),
                              ctl_scan := Some (port, checkClientPort c port w, rest)\<rparr>)
             (destroy_old c port w))"

text \<open>The probe of a port is answered with \<open>r\<close>.\<close>

definition android_probed :: "nat \<Rightarrow> check_result \<Rightarrow> world \<Rightarrow> world" where
  "android_probed c r w =
     (case Option.bind (ctl_store w c) ctl_scan of
        None \<Rightarrow> w
      | Some (port, pr, rest) \<Rightarrow>
          let result = checked_port c port pr r w;
              w1 = set_ctl c (\<lambda>k. k\<lparr>ctl_scan := None\<rparr>) w
          in if \<not> is_watching c w1 \<or> result = CheckPause then end_scan c w1
             else if result = CheckSkip then android_scan c rest w1
             else android_scan c rest (open_port c port w1))"

definition is_android :: "nat \<Rightarrow> world \<Rightarrow> bool" where
  "is_android c w \<longleftrightarrow>
     Option.bind (ctl_store w c) (\<lambda>k. map_option dev_os (dev_store w (ctl_device k))) = Some ''Android''"

definition watchClient :: "nat \<Rightarrow> world \<Rightarrow> world" where
  "watchClient c w =
     (if \<not> is_watching c w then w
      else if is_android c w then
        if (case ctl_store w c of None \<Rightarrow> False | Some k \<Rightarrow> ctl_scanning k) then w
        else android_scan c (ports_of c w) (set_ctl c (\<lambda>k. k\<lparr>ctl_scanning := True\<rparr>) w)
      else fold (watch_port c) (ports_of c w) w)"

text \<open>\<open>autoFind\<close>: the environment variable \<^verbatim>\<open>DriverAutoFindClientsEnv\<close> is not \<^verbatim>\<open>"false"\<close>.\<close>

definition ctl_startWatchClient :: "bool \<Rightarrow> nat \<Rightarrow> world \<Rightarrow> world" where
  "ctl_startWatchClient autoFind c w =
     (if is_watching c w then w
      else
        let w1 = watchClient c (set_ctl c (\<lambda>k. k\<lparr>ctl_watching := True\<rparr>) w)
        in if autoFind then set_ctl c (\<lambda>k. k\<lparr>ctl_timer := True\<rparr>) w1 else w1)"

definition ctl_stopWatchClient :: "nat \<Rightarrow> world \<Rightarrow> world" where
  "ctl_stopWatchClient c = set_ctl c (\<lambda>k. k\<lparr>ctl_watching := False, ctl_timer := False\<rparr>)"

definition ctl_close :: "nat \<Rightarrow> world \<Rightarrow> world" where
  "ctl_close c w =
     (let w1 = ctl_stopWatchClient c w;
          socks = (case ctl_store w1 c of None \<Rightarrow> [] | Some k \<Rightarrow> map_values (ctl_sockets k));
          w2 = set_ctl c (\<lambda>k. k\<lparr>ctl_sockets := []\<rparr>) (fold destroy_adapter socks w1)
      in closeAllConnection c w2)"

text \<open>The constructor of a controller: an adapter for every port of the device.\<close>

fun add_adapters :: "nat \<Rightarrow> int list \<Rightarrow> world \<Rightarrow> world" where
  "add_adapters c [] w = w"
| "add_adapters c (port # ports) w =
     add_adapters c ports
       (case createAdapter c port w of
          (a, w1) \<Rightarrow> set_ctl c (\<lambda>k. k\<lparr>ctl_sockets := AList.update port a (ctl_sockets k),
                                      ctl_ports := AList.update port False (ctl_ports k)\<rparr>) w1)"

definition empty_controller :: "nat \<Rightarrow> controller" where
  "empty_controller d =
     \<lparr>ctl_device = d, ctl_timer = False, ctl_watching = False, ctl_scanning = False, ctl_scan = None,
      ctl_sockets = [], ctl_ports = [], ctl_clientInfos = [], ctl_connections = []\<rparr>"

definition new_ClientController :: "nat \<Rightarrow> device \<Rightarrow> world \<Rightarrow> nat \<times> world" where
  "new_ClientController d x w =
     (let c = next_ref w in
      (c, add_adapters c (dev_ports x)
            (w\<lparr>ctl_store := (ctl_store w)(c \<mapsto> empty_controller d), next_ref := Suc c\<rparr>)))"

section \<open>Devices\<close>

definition monitorCount :: nat where
  "monitorCount = 19"

definition remoteBasePort :: int where
  "remoteBasePort = 8901"

definition remotePorts :: "int list" where
  "remotePorts = map (\<lambda>i. int i + remoteBasePort) [0..<monitorCount]"

text \<open>\<^verbatim>\<open>BaseDevice.startWatchClient\<close>\<close>

definition dev_startWatchClient :: "bool \<Rightarrow> nat \<Rightarrow> world \<Rightarrow> world" where
  "dev_startWatchClient autoFind d w =
     (case dev_store w d of
        None \<Rightarrow> w
      | Some x \<Rightarrow>
          let w1 = (case dev_controller x of None \<Rightarrow> w | Some c \<Rightarrow> ctl_close c w) in
          case new_ClientController d x w1 of
            (c, w2) \<Rightarrow> ctl_startWatchClient autoFind c (set_dev d (\<lambda>x. x\<lparr>dev_controller := Some c\<rparr>) w2))"

definition dev_stopWatchClient :: "nat \<Rightarrow> world \<Rightarrow> world" where
  "dev_stopWatchClient d w =
     (case Option.bind (dev_store w d) dev_controller of None \<Rightarrow> w | Some c \<Rightarrow> ctl_stopWatchClient c w)"

text \<open>\<^verbatim>\<open>disconnect\<close>, with the forwarded ports that an Android device also forgets.\<close>

definition dev_disconnect :: "nat \<Rightarrow> world \<Rightarrow> world" where
  "dev_disconnect d w =
     (case dev_store w d of
        None \<Rightarrow> w
      | Some x \<Rightarrow>
          let w1 = set_dev d (\<lambda>x. x\<lparr>dev_connected := False, dev_forwarded := []\<rparr>) w in
          case dev_controller x of None \<Rightarrow> w1 | Some c \<Rightarrow> ctl_close c w1)"

section \<open>The physical connector: devices\<close>

definition registerDevice :: "nat \<Rightarrow> world \<Rightarrow> world" where
  "registerDevice d w =
     (case dev_store w d of
        None \<Rightarrow> w
      | Some x \<Rightarrow>
          let serial = dev_serial x in
          if map_has (devices w) serial then w
          else let w1 = say (DeviceConnected serial) (w\<lparr>devices := AList.update serial d (devices w)\<rparr>)
               in call_device_waiters serial (waiters w1) w1)"

definition unregisterDevice :: "string \<Rightarrow> world \<Rightarrow> world" where
  "unregisterDevice serial w =
     (case map_of (devices w) serial of
        None \<Rightarrow> w
      | Some d \<Rightarrow>
          say (DeviceDisconnected serial) (dev_disconnect d (w\<lparr>devices := AList.delete serial (devices w)\<rparr>)))"

text \<open>\<^verbatim>\<open>UsbClient.close\<close> ends the socket of the connection.\<close>

definition client_close :: "usb_client \<Rightarrow> world \<Rightarrow> world" where
  "client_close cl w =
     (case conn_store w (cl_connection cl) of
        None \<Rightarrow> w
      | Some k \<Rightarrow> set_ad (co_socket k) (\<lambda>x. if ad_sock x = Open then x\<lparr>ad_sock := Ended\<rparr> else x) w)"

definition phys_closeClient :: "int \<Rightarrow> world \<Rightarrow> world" where
  "phys_closeClient i w = (case map_of (usbClients w) i of None \<Rightarrow> w | Some cl \<Rightarrow> client_close cl w)"

definition disableAllClients :: "world \<Rightarrow> world" where
  "disableAllClients w =
     (let w1 = fold dev_stopWatchClient (map_values (devices w)) w
      in fold client_close (map_values (usbClients w1)) w1)"

text \<open>\<^verbatim>\<open>UsbClient.sendMessage\<close>, that is \<^verbatim>\<open>USBConnection.send\<close>: nothing is sent on a socket that is not writable.\<close>

definition client_send :: "bufferpack \<Rightarrow> int \<Rightarrow> js \<Rightarrow> world \<Rightarrow> world" where
  "client_send bp i v w =
     (case Option.bind (map_of (usbClients w) i) (\<lambda>cl. conn_store w (cl_connection cl)) of
        None \<Rightarrow> w
      | Some k \<Rightarrow>
          (case ad_store w (co_socket k) of
             None \<Rightarrow> w
           | Some x \<Rightarrow> if ad_sock x = Open then write_socket bp (co_socket k) v w else w))"

definition updateUsbConnectOption :: "int \<Rightarrow> world \<Rightarrow> world" where
  "updateUsbConnectOption retryTime w =
     w\<lparr>usbRetryTime := Some (max 3000 (min (case usbRetryTime w of None \<Rightarrow> retryTime | Some t \<Rightarrow> t) retryTime))\<rparr>"

definition usbConnectRetryTime :: "world \<Rightarrow> int" where
  "usbConnectRetryTime w = (case usbRetryTime w of None \<Rightarrow> 3000 | Some t \<Rightarrow> t)"

section \<open>Waiting queries\<close>

definition start_wait :: "nat \<Rightarrow> bool \<Rightarrow> waiter \<Rightarrow> world \<Rightarrow> world" where
  "start_wait k listens x w =
     w\<lparr>waiters := (if listens then waiters w @ [(k, x)] else waiters w),
       wait_timers := wait_timers w @ [(k, x)], next_ref := Suc k\<rparr>"

definition getDevices :: "int \<Rightarrow> string option \<Rightarrow> nat \<Rightarrow> world \<Rightarrow> world" where
  "getDevices timeout serial p w =
     (if timeout < 0 then say (AnswerDevices p (findDevice serial w)) w
      else if serial \<noteq> None \<and> findDevice serial w \<noteq> [] then say (AnswerDevices p (findDevice serial w)) w
      else start_wait (next_ref w) (serial \<noteq> None) (WaitDevice serial p) w)"

text \<open>A query that throws in the executor of its promise rejects it: no answer.\<close>

definition answer_clients :: "nat \<Rightarrow> usb_client list option \<Rightarrow> world \<Rightarrow> world" where
  "answer_clients p r w = (case r of None \<Rightarrow> w | Some cls \<Rightarrow> say (AnswerClients p (map cl_id cls)) w)"

definition getDeviceUsbClients :: "string \<Rightarrow> int \<Rightarrow> string option \<Rightarrow> nat \<Rightarrow> world \<Rightarrow> world" where
  "getDeviceUsbClients deviceId timeout name p w =
     (let w1 = (if map_has (devices w) deviceId then w else say (AnswerClients p []) w) in
      if timeout < 0 then answer_clients p (findUsbClient name (clients_of deviceId w1)) w1
      else if name = None then start_wait (next_ref w1) False (WaitDeviceClient deviceId name p) w1
      else case findUsbClient name (map_values (usbClients w1)) of
             None \<Rightarrow> w1
           | Some [] \<Rightarrow> start_wait (next_ref w1) True (WaitDeviceClient deviceId name p) w1
           | Some cls \<Rightarrow> answer_clients p (Some cls) w1)"

definition waitDeviceUsbClients :: "string \<Rightarrow> int \<Rightarrow> nat \<Rightarrow> world \<Rightarrow> world" where
  "waitDeviceUsbClients deviceId timeout p w =
     (let w1 = (if map_has (devices w) deviceId then w else say (AnswerClients p []) w) in
      if timeout < 0 then answer_clients p (Some (clients_of deviceId w1)) w1
      else start_wait (next_ref w1) True (WaitAnyClient deviceId p) w1)"

definition wait_timeout :: "nat \<Rightarrow> world \<Rightarrow> world" where
  "wait_timeout k w =
     (case map_of (wait_timers w) k of
        None \<Rightarrow> w
      | Some x \<Rightarrow>
          let w1 = w\<lparr>waiters := AList.delete k (waiters w), wait_timers := AList.delete k (wait_timers w)\<rparr> in
          case x of
            WaitDevice s p \<Rightarrow> say (AnswerDevices p (findDevice s w1)) w1
          | WaitDeviceClient d name p \<Rightarrow>
              (case findUsbClient name (clients_of d w1) of
                 None \<Rightarrow> w1\<lparr>rejected := True\<rparr>
               | Some cls \<Rightarrow> answer_clients p (Some cls) w1)
          | WaitAnyClient d p \<Rightarrow> answer_clients p (Some (clients_of d w1)) w1)"

section \<open>Device managers\<close>

definition registerManagedDevice :: "nat \<Rightarrow> nat \<Rightarrow> world \<Rightarrow> world" where
  "registerManagedDevice m d w =
     (case (mgr_store w m, dev_store w d) of
        (Some g, Some x) \<Rightarrow>
          if mg_closed g then dev_disconnect d w
          else (case map_of (devices w) (dev_serial x) of
                  Some e \<Rightarrow>
                    if e \<noteq> d then w
                    else registerDevice d
                           (set_mgr m (\<lambda>g. g\<lparr>mg_managedDevices := AList.update (dev_serial x) d (mg_managedDevices g)\<rparr>) w)
                | None \<Rightarrow>
                    registerDevice d
                      (set_mgr m (\<lambda>g. g\<lparr>mg_managedDevices := AList.update (dev_serial x) d (mg_managedDevices g)\<rparr>) w))
      | _ \<Rightarrow> w)"

definition unregisterManagedDevice :: "nat \<Rightarrow> string \<Rightarrow> world \<Rightarrow> world" where
  "unregisterManagedDevice m serial w =
     (case mgr_store w m of
        None \<Rightarrow> w
      | Some g \<Rightarrow>
          let w1 = set_mgr m (\<lambda>g. g\<lparr>mg_managedDevices := AList.delete serial (mg_managedDevices g)\<rparr>) w in
          case map_of (mg_managedDevices g) serial of
            None \<Rightarrow> w1
          | Some d \<Rightarrow> if map_of (devices w1) serial = Some d then unregisterDevice serial w1 else w1)"

definition unregisterManagedDevices :: "nat \<Rightarrow> world \<Rightarrow> world" where
  "unregisterManagedDevices m w =
     (case mgr_store w m of
        None \<Rightarrow> w
      | Some g \<Rightarrow> fold (unregisterManagedDevice m) (map_keys (mg_managedDevices g)) w)"

text \<open>
  \<^verbatim>\<open>stopWatching\<close>: the tracker of an Android or Harmony manager ends, the listener of an iOS manager and its
  tunnels are destroyed.  The other managers do nothing.
\<close>

definition stopWatching :: "nat \<Rightarrow> world \<Rightarrow> world" where
  "stopWatching m =
     set_mgr m (\<lambda>g. case mg_kind g of
                      AndroidManager _ _ \<Rightarrow> g\<lparr>mg_status := StopWatching, mg_tracker := False\<rparr>
                    | HarmonyManager _ _ \<Rightarrow> g\<lparr>mg_status := StopWatching, mg_tracker := False\<rparr>
                    | IOSManager \<Rightarrow> g\<lparr>ios_listener := None, ios_tunnels := []\<rparr>
                    | _ \<Rightarrow> g)"

definition mgr_close :: "nat \<Rightarrow> world \<Rightarrow> world" where
  "mgr_close m w =
     (case mgr_store w m of
        None \<Rightarrow> w
      | Some g \<Rightarrow>
          if mg_closed g then w
          else unregisterManagedDevices m
                 (stopWatching m (set_mgr m (\<lambda>g. g\<lparr>mg_closed := True, mg_retryTimer := False\<rparr>) w)))"

definition scheduleWatchRetry :: "nat \<Rightarrow> world \<Rightarrow> world" where
  "scheduleWatchRetry m = set_mgr m (\<lambda>g. if mg_closed g \<or> mg_retryTimer g then g else g\<lparr>mg_retryTimer := True\<rparr>)"

definition closeDeviceManager :: "nat \<Rightarrow> world \<Rightarrow> world" where
  "closeDeviceManager m w =
     (if m \<notin> set (devicesManager w) then w
      else mgr_close m (w\<lparr>devicesManager := set_delete m (devicesManager w)\<rparr>))"

text \<open>The predicates of \<^verbatim>\<open>closeAndroidDeviceManager\<close> and its siblings: the kind of manager and its options.\<close>

fun same_manager :: "manager_kind \<Rightarrow> manager_kind \<Rightarrow> bool" where
  "same_manager (NetworkManager ip _) (NetworkManager ip' _) = (ip = ip')"
| "same_manager k k' = (k = k')"

definition closeMatchingDeviceManager :: "manager_kind \<Rightarrow> world \<Rightarrow> world" where
  "closeMatchingDeviceManager kind w =
     (case find (\<lambda>m. case mgr_store w m of None \<Rightarrow> False | Some g \<Rightarrow> same_manager kind (mg_kind g)) (devicesManager w) of
        None \<Rightarrow> w
      | Some m \<Rightarrow> closeDeviceManager m w)"

definition new_manager :: "manager_kind \<Rightarrow> manager" where
  "new_manager k =
     \<lparr>mg_kind = k, mg_managedDevices = [], mg_closed = False, mg_retryTimer = False, mg_status = StopWatching,
      mg_retryCount = 0, mg_client = False, mg_tracker = False, ios_listener = None, ios_status = [], ios_tunnels = []\<rparr>"

definition phys_close :: "world \<Rightarrow> world" where
  "phys_close w =
     (if ph_closed w then w
      else let w1 = disableAllClients (w\<lparr>ph_closed := True\<rparr>)
           in fold closeDeviceManager (devicesManager w1) w1)"

end
