(* ===== verification/Device_Managers.thy ===== *)
theory Device_Managers
  imports Physical_World
begin

text \<open>
  The device managers of the platforms (\<^verbatim>\<open>device/android\<close>, \<^verbatim>\<open>device/Harmony\<close>, \<^verbatim>\<open>device/ios\<close>, \<^verbatim>\<open>device/desktop\<close> and
  \<^verbatim>\<open>device/network\<close>) and the steps of the device side of the daemon.  An asynchronous method is one definition
  per segment between two \<^verbatim>\<open>await\<close>s.  The clients of \<^verbatim>\<open>adb\<close>, \<^verbatim>\<open>hdc\<close> and \<^verbatim>\<open>usbmux\<close> are other programs: what
  they answer is in the events.  The Android and the Harmony manager have the same structure and share
  their definitions.
\<close>

section \<open>Devices of the platforms\<close>

definition new_device :: "string \<Rightarrow> string \<Rightarrow> string \<Rightarrow> string \<Rightarrow> int list \<Rightarrow> device" where
  "new_device serial title os host ports =
     \<lparr>dev_serial = serial, dev_title = title, dev_os = os, dev_host = host, dev_ports = ports, dev_connected = True,
      dev_forwarded = [], dev_controller = None\<rparr>"

definition alloc_device :: "device \<Rightarrow> world \<Rightarrow> nat \<times> world" where
  "alloc_device x w = (next_ref w, w\<lparr>dev_store := (dev_store w)(next_ref w \<mapsto> x), next_ref := Suc (next_ref w)\<rparr>)"

definition new_AndroidDevice :: "string \<Rightarrow> string \<Rightarrow> string \<Rightarrow> device" where
  "new_AndroidDevice serial title host = new_device serial title ''Android'' host remotePorts"

definition new_HarmonyDevice :: "string \<Rightarrow> string \<Rightarrow> device" where
  "new_HarmonyDevice serial host = new_device serial ''Harmony'' ''Harmony'' host remotePorts"

definition new_iOSDevice :: "string \<Rightarrow> string \<Rightarrow> device" where
  "new_iOSDevice serial title = new_device serial title ''iOS'' ''/var/run/usbmuxd'' remotePorts"

definition new_NetworkDevice :: "string \<Rightarrow> int list option \<Rightarrow> device" where
  "new_NetworkDevice ip ports =
     new_device ip (''NetworkDevice_'' @ ip) ''Network'' ip (case ports of None \<Rightarrow> remotePorts | Some ps \<Rightarrow> ps)"

datatype platform = Darwin | Win32 | Linux | OtherPlatform

fun desktop_device :: "platform \<Rightarrow> device option" where
  "desktop_device Darwin = Some (new_device ''Mac'' ''Mac'' ''Mac'' ''127.0.0.1'' remotePorts)"
| "desktop_device Win32 = Some (new_device ''Windows'' ''Windows'' ''Windows'' ''127.0.0.1'' remotePorts)"
| "desktop_device Linux = Some (new_device ''Linux'' ''Linux'' ''Linux'' ''127.0.0.1'' remotePorts)"
| "desktop_device OtherPlatform = None"

text \<open>
  \<^verbatim>\<open>forward\<close> of an Android or Harmony device: the ports are cleared, and one pair of a host port and a remote
  port is added for every successful forward; only Android devices remember the pairs.
\<close>

definition forward_begin :: "nat \<Rightarrow> world \<Rightarrow> world" where
  "forward_begin d = set_dev d (\<lambda>x. if dev_os x = ''Android'' then x\<lparr>dev_forwarded := []\<rparr> else x)"

definition forward_reset :: "nat \<Rightarrow> world \<Rightarrow> world" where
  "forward_reset d = set_dev d (\<lambda>x. x\<lparr>dev_ports := []\<rparr>)"

definition forward_push :: "nat \<Rightarrow> int \<Rightarrow> int \<Rightarrow> world \<Rightarrow> world" where
  "forward_push d hostport remote =
     set_dev d (\<lambda>x. x\<lparr>dev_ports := dev_ports x @ [hostport],
                      dev_forwarded := (if dev_os x = ''Android'' then AList.update hostport remote (dev_forwarded x)
                                        else dev_forwarded x)\<rparr>)"

section \<open>Android and Harmony\<close>

text \<open>\<^verbatim>\<open>reWatchAndroidDevices\<close>, \<^verbatim>\<open>reWatchHarmonyDevices\<close>\<close>

definition reWatch :: "nat \<Rightarrow> world \<Rightarrow> world" where
  "reWatch m w = scheduleWatchRetry m (set_mgr m (\<lambda>g. g\<lparr>mg_retryCount := Suc (mg_retryCount g)\<rparr>) w)"

text \<open>The devices are tracked anew: the old tracker ends.\<close>

definition track_devices :: "nat \<Rightarrow> world \<Rightarrow> world" where
  "track_devices m = set_mgr m (\<lambda>g. if mg_closed g then g else g\<lparr>mg_tracker := False\<rparr>)"

definition killed :: "nat \<Rightarrow> world \<Rightarrow> world" where
  "killed m w = track_devices m (set_mgr m (\<lambda>g. g\<lparr>mg_retryCount := 0\<rparr>) w)"

text \<open>\<^verbatim>\<open>watchDevices\<close> once there is a client: it waits for \<^verbatim>\<open>kill()\<close> after more than three failures.\<close>

definition watch_prepared :: "nat \<Rightarrow> bool \<Rightarrow> world \<Rightarrow> world" where
  "watch_prepared m kill w =
     (case mgr_store w m of
        None \<Rightarrow> w
      | Some g \<Rightarrow>
          if mg_closed g \<or> mg_status g \<noteq> StopWatching then w
          else let w1 = set_mgr m (\<lambda>g. g\<lparr>mg_status := PrepareToWatch\<rparr>) w
               in if kill \<and> mg_retryCount g > 3 then w1 else track_devices m w1)"

definition watchDevices :: "nat \<Rightarrow> bool \<Rightarrow> world \<Rightarrow> world" where
  "watchDevices m kill w =
     (case mgr_store w m of
        None \<Rightarrow> w
      | Some g \<Rightarrow> if mg_closed g \<or> \<not> mg_client g then w else watch_prepared m kill w)"

definition client_ready :: "nat \<Rightarrow> bool \<Rightarrow> bool \<Rightarrow> world \<Rightarrow> world" where
  "client_ready m kill ok w =
     (let w1 = set_mgr m (\<lambda>g. g\<lparr>mg_client := ok\<rparr>) w in if ok then watch_prepared m kill w1 else w1)"

definition tracker_ready :: "nat \<Rightarrow> world \<Rightarrow> world" where
  "tracker_ready m = set_mgr m (\<lambda>g. if mg_closed g then g else g\<lparr>mg_tracker := True\<rparr>)"

text \<open>The tracker fails, or cannot be created: every device of the manager goes and watching is retried.\<close>

definition tracker_failed :: "nat \<Rightarrow> world \<Rightarrow> world" where
  "tracker_failed m w =
     (case mgr_store w m of
        None \<Rightarrow> w
      | Some g \<Rightarrow>
          if mg_closed g then w
          else reWatch m (unregisterManagedDevices m (set_mgr m (\<lambda>g. g\<lparr>mg_status := StopWatching\<rparr>) w)))"

text \<open>
  \<^verbatim>\<open>add\<close> of a device that is ready starts its creation, which ends with \<open>device_created\<close>; \<^verbatim>\<open>remove\<close>, or a
  \<^verbatim>\<open>change\<close> to a state that is not ready, removes it.
\<close>

definition tracker_event :: "nat \<Rightarrow> world \<Rightarrow> world" where
  "tracker_event m = set_mgr m (\<lambda>g. if mg_closed g then g else g\<lparr>mg_status := Watching, mg_retryCount := 0\<rparr>)"

definition tracker_remove :: "nat \<Rightarrow> string \<Rightarrow> world \<Rightarrow> world" where
  "tracker_remove m serial w =
     (case mgr_store w m of
        None \<Rightarrow> w
      | Some g \<Rightarrow>
          if mg_closed g then w
          else let w1 = tracker_event m w
               in if map_has (devices w1) serial then unregisterManagedDevice m serial w1 else w1)"

definition tracker_change :: "nat \<Rightarrow> string \<Rightarrow> bool \<Rightarrow> world \<Rightarrow> world" where
  "tracker_change m serial ready w = (if ready then tracker_event m w else tracker_remove m serial w)"

definition create_device :: "device \<Rightarrow> world \<Rightarrow> world" where
  "create_device x w = snd (alloc_device x w)"

text \<open>\<^verbatim>\<open>AndroidDeviceManager.createDevice\<close> after the properties of the device were read.\<close>

definition android_createDevice :: "nat \<Rightarrow> string \<Rightarrow> string \<Rightarrow> string \<Rightarrow> world \<Rightarrow> world" where
  "android_createDevice m serial name host w =
     (case mgr_store w m of
        None \<Rightarrow> w
      | Some g \<Rightarrow> if mg_closed g then w else create_device (new_AndroidDevice serial name host) w)"

section \<open>iOS\<close>

definition ios_reWatch :: "nat \<Rightarrow> world \<Rightarrow> world" where
  "ios_reWatch m = scheduleWatchRetry m"

text \<open>\<open>created\<close>: \<^verbatim>\<open>createListener\<close> returned a socket.\<close>

definition ios_watchDevices :: "nat \<Rightarrow> bool \<Rightarrow> world \<Rightarrow> world" where
  "ios_watchDevices m created w =
     (case mgr_store w m of
        None \<Rightarrow> w
      | Some g \<Rightarrow>
          if mg_closed g then w
          else if (case ios_listener g of None \<Rightarrow> False | Some s \<Rightarrow> map_of (ios_status g) s \<noteq> Some StopWatching) then w
          else
            let w1 = set_mgr m (\<lambda>g. g\<lparr>ios_listener := None\<rparr>) w in
            if \<not> created then ios_reWatch m w1
            else let s = next_ref w1
                 in (set_mgr m (\<lambda>g. g\<lparr>ios_listener := Some s, ios_status := AList.update s PrepareToWatch (ios_status g)\<rparr>) w1)
                      \<lparr>next_ref := Suc s\<rparr>)"

definition ios_set_status :: "nat \<Rightarrow> nat \<Rightarrow> watch_status \<Rightarrow> world \<Rightarrow> world" where
  "ios_set_status m s st = set_mgr m (\<lambda>g. g\<lparr>ios_status := AList.update s st (ios_status g)\<rparr>)"

text \<open>The listener \<open>s\<close>, or a tunnel opened on its behalf, fails or closes.\<close>

definition ios_stopped :: "nat \<Rightarrow> nat \<Rightarrow> world \<Rightarrow> world" where
  "ios_stopped m s w =
     (case mgr_store w m of
        None \<Rightarrow> w
      | Some g \<Rightarrow> if mg_closed g then w else ios_reWatch m (ios_set_status m s StopWatching w))"

definition ios_attached :: "nat \<Rightarrow> nat \<Rightarrow> world \<Rightarrow> world" where
  "ios_attached m s w =
     (case mgr_store w m of None \<Rightarrow> w | Some g \<Rightarrow> if mg_closed g then w else ios_set_status m s Watching w)"

definition ios_detached :: "nat \<Rightarrow> nat \<Rightarrow> string \<Rightarrow> world \<Rightarrow> world" where
  "ios_detached m s udid w =
     (case mgr_store w m of
        None \<Rightarrow> w
      | Some g \<Rightarrow> if mg_closed g then w else unregisterManagedDevice m udid (ios_set_status m s Watching w))"

text \<open>The tunnel to the lockdown port of a device, and the name of the device it answers.\<close>

definition ios_tunnel :: "nat \<Rightarrow> nat \<Rightarrow> world \<Rightarrow> world" where
  "ios_tunnel m t = set_mgr m (\<lambda>g. if mg_closed g then g else g\<lparr>ios_tunnels := set_add t (ios_tunnels g)\<rparr>)"

definition ios_tunnel_closed :: "nat \<Rightarrow> nat \<Rightarrow> nat \<Rightarrow> world \<Rightarrow> world" where
  "ios_tunnel_closed m s t w =
     ios_stopped m s (set_mgr m (\<lambda>g. g\<lparr>ios_tunnels := set_delete t (ios_tunnels g)\<rparr>) w)"

definition ios_named :: "nat \<Rightarrow> string \<Rightarrow> string \<Rightarrow> world \<Rightarrow> world" where
  "ios_named m udid name w =
     (case mgr_store w m of
        None \<Rightarrow> w
      | Some g \<Rightarrow>
          if mg_closed g \<or> name = [] \<or> map_has (devices w) udid then w
          else create_device (new_iOSDevice udid name) w)"

section \<open>Desktop and network\<close>

definition desktop_watchDevices :: "platform \<Rightarrow> nat \<Rightarrow> world \<Rightarrow> world" where
  "desktop_watchDevices pf m w =
     (case (mgr_store w m, desktop_device pf) of
        (Some g, Some x) \<Rightarrow>
          if mg_closed g then w
          else (case alloc_device x w of
                  (d, w1) \<Rightarrow> if map_has (devices w1) (dev_serial x) then w1 else registerManagedDevice m d w1)
      | _ \<Rightarrow> w)"

definition network_watchDevices :: "string \<Rightarrow> int list option \<Rightarrow> nat \<Rightarrow> world \<Rightarrow> world" where
  "network_watchDevices ip ports m w =
     (case mgr_store w m of
        None \<Rightarrow> w
      | Some g \<Rightarrow>
          if mg_closed g then w
          else (case alloc_device (new_NetworkDevice ip ports) w of (d, w1) \<Rightarrow> registerManagedDevice m d w1))"

section \<open>Adding managers and starting to watch\<close>

text \<open>\<^verbatim>\<open>watchDevices\<close> of a manager of any kind, up to its first \<^verbatim>\<open>await\<close>.\<close>

definition mgr_watchDevices :: "platform \<Rightarrow> bool \<Rightarrow> bool \<Rightarrow> nat \<Rightarrow> world \<Rightarrow> world" where
  "mgr_watchDevices pf kill listens m w =
     (case mgr_store w m of
        None \<Rightarrow> w
      | Some g \<Rightarrow>
          (case mg_kind g of
             AndroidManager _ _ \<Rightarrow> watchDevices m kill w
           | HarmonyManager _ _ \<Rightarrow> watchDevices m kill w
           | IOSManager \<Rightarrow> ios_watchDevices m listens w
           | DesktopManager \<Rightarrow> desktop_watchDevices pf m w
           | NetworkManager ip ports \<Rightarrow> network_watchDevices ip ports m w))"

definition addDeviceManager :: "platform \<Rightarrow> bool \<Rightarrow> bool \<Rightarrow> manager_kind \<Rightarrow> world \<Rightarrow> world" where
  "addDeviceManager pf listens autoListen k w =
     (let m = next_ref w;
          w1 = w\<lparr>mgr_store := (mgr_store w)(m \<mapsto> new_manager k), next_ref := Suc m,
                 devicesManager := set_add m (devicesManager w)\<rparr>
      in if autoListen then mgr_watchDevices pf False listens m w1 else w1)"

definition addIOSDeviceManager :: "platform \<Rightarrow> bool \<Rightarrow> bool \<Rightarrow> world \<Rightarrow> world" where
  "addIOSDeviceManager pf listens autoListen w =
     (if pf = Darwin \<or> pf = Win32 then addDeviceManager pf listens autoListen IOSManager w else w)"

definition startDeviceListeners :: "platform \<Rightarrow> bool \<Rightarrow> world \<Rightarrow> world" where
  "startDeviceListeners pf listens w = fold (mgr_watchDevices pf False listens) (devicesManager w) w"

text \<open>The timer of a retry.\<close>

definition mgr_retry_fires :: "platform \<Rightarrow> bool \<Rightarrow> nat \<Rightarrow> world \<Rightarrow> world" where
  "mgr_retry_fires pf listens m w =
     (case mgr_store w m of
        None \<Rightarrow> w
      | Some g \<Rightarrow>
          if \<not> mg_retryTimer g then w
          else let w1 = set_mgr m (\<lambda>g. g\<lparr>mg_retryTimer := False\<rparr>) w
               in if mg_closed g then w1 else mgr_watchDevices pf True listens m w1)"

text \<open>
  \<^verbatim>\<open>PhysicalConnector.startWatchClient\<close>: \<open>should\<close> is what \<^verbatim>\<open>shouldStart\<close> returns; an Android device forwards its
  ports first, and \<open>watch_forwarded\<close> is the rest.
\<close>

definition watch_forwarded :: "bool \<Rightarrow> bool \<Rightarrow> nat \<Rightarrow> world \<Rightarrow> world" where
  "watch_forwarded autoFind should d w = (if should then dev_startWatchClient autoFind d w else w)"

definition phys_startWatchClient :: "bool \<Rightarrow> bool \<Rightarrow> nat \<Rightarrow> world \<Rightarrow> world" where
  "phys_startWatchClient autoFind should d w =
     (if \<not> should then w
      else case dev_store w d of
        None \<Rightarrow> w
      | Some x \<Rightarrow> if dev_os x = ''Android'' then forward_begin d w else watch_forwarded autoFind should d w)"

section \<open>Steps\<close>

datatype phys_event =
    EvAddManager bool bool manager_kind
  | EvAddIOSManager bool bool
  | EvConnectDevices bool
  | EvClientReady nat bool bool
  | EvKilled nat
  | EvTrackerReady nat
  | EvTrackerFailed nat
  | EvTrackerAdd nat
  | EvTrackerChange nat string bool
  | EvTrackerRemove nat string
  | EvNewAndroid nat string string string
  | EvNewHarmony string string
  | EvIosStopped nat nat
  | EvIosAttached nat nat
  | EvIosDetached nat nat string
  | EvIosTunnel nat nat
  | EvIosTunnelClosed nat nat nat
  | EvIosNamed nat string string
  | EvDeviceCreated nat nat
  | EvForwardBegin nat
  | EvForwardReset nat
  | EvForwardPush nat int int
  | EvRetryTimer bool nat
  | EvStartWatch bool nat
  | EvWatchForwarded bool nat
  | EvStopWatch nat
  | EvDisconnect nat
  | EvIntervalTimer nat
  | EvProbed nat check_result
  | EvSockConnect nat
  | EvTunnelReady nat
  | EvSockData nat string
  | EvSockOff nat
  | EvCloseClient int
  | EvDisableAllClients
  | EvSend int js
  | EvGetDevices int "string option" nat
  | EvGetDeviceUsbClients string int "string option" nat
  | EvWaitDeviceUsbClients string int nat
  | EvWaitTimeout nat
  | EvUsbOption int
  | EvConnectorError js
  | EvCloseManager manager_kind
  | EvPhysClose

text \<open>
  What a device side runs with: \<^verbatim>\<open>bufferpack\<close>, the allocation of buffers, the platform and the environment
  variable \<^verbatim>\<open>DriverAutoFindClientsEnv\<close>.
\<close>

record phys_env =
  pe_bp :: bufferpack
  pe_alloc :: alloc
  pe_platform :: platform
  pe_autoFind :: bool

definition sock_connected :: "bufferpack \<Rightarrow> nat \<Rightarrow> world \<Rightarrow> world" where
  "sock_connected bp a w =
     (case ad_store w a of
        None \<Rightarrow> w
      | Some x \<Rightarrow> if ad_sock x \<noteq> Connecting then w else onConnect bp a (set_ad a (\<lambda>x. x\<lparr>ad_sock := Open\<rparr>) w))"

text \<open>The tunnel of an iOS adapter replaces its socket, even when the adapter was destroyed meanwhile.\<close>

definition tunnel_ready :: "bufferpack \<Rightarrow> nat \<Rightarrow> world \<Rightarrow> world" where
  "tunnel_ready bp a w =
     (case ad_store w a of
        None \<Rightarrow> w
      | Some x \<Rightarrow>
          if ad_sock x = Tunnelling \<or> ad_type x = ''iOS'' \<and> ad_sock x = Gone \<and> ad_listener x = None
          then onConnect bp a (set_ad a (\<lambda>x. x\<lparr>ad_sock := Open\<rparr>) w) else w)"

text \<open>A socket delivers data while it is not destroyed.\<close>

definition sock_data :: "phys_env \<Rightarrow> nat \<Rightarrow> string \<Rightarrow> world \<Rightarrow> world" where
  "sock_data e a data w =
     (case ad_store w a of
        None \<Rightarrow> w
      | Some x \<Rightarrow> if ad_sock x = Open \<or> ad_sock x = Ended then ad_handleData (pe_bp e) (pe_alloc e) a data w else w)"

text \<open>A socket that was connected, or is being connected, fails or closes.\<close>

definition sock_off :: "nat \<Rightarrow> world \<Rightarrow> world" where
  "sock_off a w =
     (case ad_store w a of
        None \<Rightarrow> w
      | Some x \<Rightarrow> if ad_sock x = Fresh \<or> ad_sock x = Tunnelling then w else handleOff a w)"

fun phys_step :: "phys_env \<Rightarrow> phys_event \<Rightarrow> world \<Rightarrow> world" where
  "phys_step e (EvAddManager listens autoListen k) w = addDeviceManager (pe_platform e) listens autoListen k w"
| "phys_step e (EvAddIOSManager listens autoListen) w = addIOSDeviceManager (pe_platform e) listens autoListen w"
| "phys_step e (EvConnectDevices listens) w = startDeviceListeners (pe_platform e) listens w"
| "phys_step e (EvClientReady m kill ok) w = client_ready m kill ok w"
| "phys_step e (EvKilled m) w = killed m w"
| "phys_step e (EvTrackerReady m) w = tracker_ready m w"
| "phys_step e (EvTrackerFailed m) w = tracker_failed m w"
| "phys_step e (EvTrackerAdd m) w = tracker_event m w"
| "phys_step e (EvTrackerChange m s b) w = tracker_change m s b w"
| "phys_step e (EvTrackerRemove m s) w = tracker_remove m s w"
| "phys_step e (EvNewAndroid m s t h) w = android_createDevice m s t h w"
| "phys_step e (EvNewHarmony s h) w = create_device (new_HarmonyDevice s h) w"
| "phys_step e (EvIosStopped m s) w = ios_stopped m s w"
| "phys_step e (EvIosAttached m s) w = ios_attached m s w"
| "phys_step e (EvIosDetached m s u) w = ios_detached m s u w"
| "phys_step e (EvIosTunnel m t) w = ios_tunnel m t w"
| "phys_step e (EvIosTunnelClosed m s t) w = ios_tunnel_closed m s t w"
| "phys_step e (EvIosNamed m u n) w = ios_named m u n w"
| "phys_step e (EvDeviceCreated m d) w = registerManagedDevice m d w"
| "phys_step e (EvForwardBegin d) w = forward_begin d w"
| "phys_step e (EvForwardReset d) w = forward_reset d w"
| "phys_step e (EvForwardPush d h r) w = forward_push d h r w"
| "phys_step e (EvRetryTimer listens m) w = mgr_retry_fires (pe_platform e) listens m w"
| "phys_step e (EvStartWatch should d) w = phys_startWatchClient (pe_autoFind e) should d w"
| "phys_step e (EvWatchForwarded should d) w = watch_forwarded (pe_autoFind e) should d w"
| "phys_step e (EvStopWatch d) w = dev_stopWatchClient d w"
| "phys_step e (EvDisconnect d) w = dev_disconnect d w"
| "phys_step e (EvIntervalTimer c) w =
     (if (case ctl_store w c of None \<Rightarrow> False | Some k \<Rightarrow> ctl_timer k) then watchClient c w else w)"
| "phys_step e (EvProbed c r) w = android_probed c r w"
| "phys_step e (EvSockConnect a) w = sock_connected (pe_bp e) a w"
| "phys_step e (EvTunnelReady a) w = tunnel_ready (pe_bp e) a w"
| "phys_step e (EvSockData a d) w = sock_data e a d w"
| "phys_step e (EvSockOff a) w = sock_off a w"
| "phys_step e (EvCloseClient i) w = phys_closeClient i w"
| "phys_step e EvDisableAllClients w = disableAllClients w"
| "phys_step e (EvSend i v) w = client_send (pe_bp e) i v w"
| "phys_step e (EvGetDevices t s p) w = getDevices t s p w"
| "phys_step e (EvGetDeviceUsbClients d t n p) w = getDeviceUsbClients d t n p w"
| "phys_step e (EvWaitDeviceUsbClients d t p) w = waitDeviceUsbClients d t p w"
| "phys_step e (EvWaitTimeout k) w = wait_timeout k w"
| "phys_step e (EvUsbOption t) w = updateUsbConnectOption t w"
| "phys_step e (EvConnectorError v) w = say (ConnectorErrorEvent v) w"
| "phys_step e (EvCloseManager k) w = closeMatchingDeviceManager k w"
| "phys_step e EvPhysClose w = phys_close w"

abbreviation phys_run :: "phys_env \<Rightarrow> phys_event list \<Rightarrow> world \<Rightarrow> world" where
  "phys_run e evs \<equiv> fold (phys_step e) evs"

end
