(* ===== verification/Spec2Isabelle.thy ===== *)
theory Spec2Isabelle
  imports Process_Locks Host_Lifecycle Device_Managers
begin

text \<open>
  Verification of the DebugRouter multiplexer.
\<close>

end
